(* ===== verification/Prelude.thy ===== *)
theory Prelude
  imports Main "HOL-Library.Word" "HOL-Library.Char_ord" "HOL-Library.List_Lexorder"
begin

text \<open>
  What every component shares: the collections of rewrite rules the component proofs use,
  Go's string and integer types, decimal notation (Go's \<open>%d\<close> and \<open>strconv.ParseInt\<close>) with its
  round trip, and the result types of fallible Go functions.

  A Go \<open>string\<close> or \<open>[]byte\<close> is a sequence of bytes; the model's \<open>string\<close> is a list of
  \<open>char\<close>, which are bytes. A Go \<open>int\<close>, \<open>int64\<close> or \<open>time.Duration\<close> is an \<open>int\<close>; where the
  code's arithmetic can leave the 64-bit range the wrap-around is written with \<open>wrap64\<close>. A
  Go \<open>uint64\<close> is a \<open>64 word\<close>.
\<close>

named_theorems codec_simps \<open>equations of the JSON codec used for symbolic evaluation\<close>
named_theorems world_simps \<open>how operations act on the fields of the world\<close>
named_theorems guard_simps \<open>validation guards of the operations\<close>

section \<open>Result types\<close>

text \<open>A Go function returning \<open>(T, error)\<close>: the error, or the value.\<close>

type_synonym ('e, 'a) result = "'e + 'a"

definition is_ok :: "('e, 'a) result \<Rightarrow> bool" where
  "is_ok r = (case r of Inl _ \<Rightarrow> False | Inr _ \<Rightarrow> True)"

lemma is_ok_simps [simp]: "is_ok (Inr x) = True" "is_ok (Inl e) = False"
  by (simp_all add: is_ok_def)

lemma is_okE: "is_ok r \<Longrightarrow> (\<And>x. r = Inr x \<Longrightarrow> P) \<Longrightarrow> P"
  by (cases r) auto

section \<open>Integers\<close>

definition max_int64 :: int where "max_int64 = 9223372036854775807"
definition min_int64 :: int where "min_int64 = - 9223372036854775808"

text \<open>The value an \<open>int64\<close> operation stores when its mathematical result is \<open>x\<close>.\<close>

definition wrap64 :: "int \<Rightarrow> int" where
  "wrap64 x = (x + 9223372036854775808) mod 18446744073709551616 - 9223372036854775808"

definition in_int64 :: "int \<Rightarrow> bool" where
  "in_int64 x \<longleftrightarrow> min_int64 \<le> x \<and> x \<le> max_int64"

lemma wrap64_id: "in_int64 x \<Longrightarrow> wrap64 x = x"
  by (simp add: wrap64_def in_int64_def min_int64_def max_int64_def)

lemma wrap64_in_int64: "in_int64 (wrap64 x)"
proof -
  have "0 \<le> (x + 9223372036854775808) mod 18446744073709551616"
    and "(x + 9223372036854775808) mod 18446744073709551616 < 18446744073709551616"
    by simp_all
  then show ?thesis
    by (simp add: wrap64_def in_int64_def min_int64_def max_int64_def)
qed

section \<open>Bytes\<close>

definition byte :: "char \<Rightarrow> nat" where "byte c = of_char c"

lemma byte_less: "byte c < 256"
  by (simp add: byte_def)

lemma byte_inject: "byte c = byte d \<longleftrightarrow> c = d"
  by (simp add: byte_def)

definition is_digit :: "char \<Rightarrow> bool" where
  "is_digit c \<longleftrightarrow> 48 \<le> byte c \<and> byte c \<le> 57"

section \<open>Decimal notation\<close>

text \<open>Go's \<open>%d\<close> of a non-negative integer.\<close>

definition digit_char :: "nat \<Rightarrow> char" where "digit_char d = char_of (48 + d)"

fun show_nat :: "nat \<Rightarrow> string" where
  "show_nat n = (if n < 10 then [digit_char n] else show_nat (n div 10) @ [digit_char (n mod 10)])"

declare show_nat.simps [simp del]

definition show_int :: "int \<Rightarrow> string" where
  "show_int i = (if i < 0 then CHR ''-'' # show_nat (nat (- i)) else show_nat (nat i))"

text \<open>The digits-to-value loop of \<open>strconv.ParseUint\<close> (base 10), before its range check.\<close>

fun digits_value :: "nat \<Rightarrow> string \<Rightarrow> nat" where
  "digits_value acc [] = acc"
| "digits_value acc (c # cs) = digits_value (acc * 10 + (byte c - 48)) cs"

definition all_digits :: "string \<Rightarrow> bool" where
  "all_digits s \<longleftrightarrow> s \<noteq> [] \<and> list_all is_digit s"

text \<open>\<open>strconv.ParseInt(s, 10, 64)\<close> and \<open>strconv.ParseUint(s, 10, 64)\<close> on a JSON number
  literal (which has no leading plus sign); \<open>None\<close> is the syntax or range error.\<close>

definition parse_int64 :: "string \<Rightarrow> int option" where
  "parse_int64 s =
     (let (neg, ds) = (case s of [] \<Rightarrow> (False, s) | c # cs \<Rightarrow> if c = CHR ''-'' then (True, cs) else (False, s));
          v = (if neg then - int (digits_value 0 ds) else int (digits_value 0 ds))
      in if all_digits ds \<and> in_int64 v then Some v else None)"

definition parse_uint64 :: "string \<Rightarrow> 64 word option" where
  "parse_uint64 s =
     (if all_digits s \<and> digits_value 0 s < 18446744073709551616
      then Some (of_nat (digits_value 0 s)) else None)"

lemma byte_digit_char: "d < 10 \<Longrightarrow> byte (digit_char d) = 48 + d"
  by (simp add: byte_def digit_char_def)

lemma is_digit_digit_char: "d < 10 \<Longrightarrow> is_digit (digit_char d)"
  by (simp add: is_digit_def byte_digit_char)

lemma digits_value_append:
  "digits_value acc (xs @ ys) = digits_value (digits_value acc xs) ys"
  by (induction xs arbitrary: acc) auto

lemma digits_value_show_nat: "digits_value 0 (show_nat n) = n"
proof (induction n rule: show_nat.induct)
  case (1 n)
  show ?case
  proof (cases "n < 10")
    case True
    then show ?thesis by (subst show_nat.simps) (simp add: byte_digit_char)
  next
    case False
    with 1 have "digits_value 0 (show_nat (n div 10)) = n div 10" by simp
    with False show ?thesis
      by (subst show_nat.simps) (simp add: digits_value_append byte_digit_char)
  qed
qed

lemma show_nat_not_Nil: "show_nat n \<noteq> []"
  by (subst show_nat.simps) simp

lemma list_all_show_nat: "list_all is_digit (show_nat n)"
proof (induction n rule: show_nat.induct)
  case (1 n)
  then show ?case
    by (subst show_nat.simps) (auto simp: is_digit_digit_char)
qed

lemma all_digits_show_nat: "all_digits (show_nat n)"
  by (simp add: all_digits_def show_nat_not_Nil list_all_show_nat)

lemma hd_show_nat_digit: "is_digit (hd (show_nat n))"
  using list_all_show_nat [of n] show_nat_not_Nil [of n]
  by (cases "show_nat n") auto

lemma minus_not_digit [simp]: "\<not> is_digit (CHR ''-'')"
  by (simp add: is_digit_def byte_def)

lemma parse_int64_show_int: "in_int64 i \<Longrightarrow> parse_int64 (show_int i) = Some i"
proof -
  assume i: "in_int64 i"
  obtain c cs where c: "show_nat (nat i) = c # cs" and d: "is_digit c"
    using show_nat_not_Nil [of "nat i"] hd_show_nat_digit [of "nat i"]
    by (cases "show_nat (nat i)") auto
  from d have "c \<noteq> CHR ''-''" by auto
  with c have "i \<ge> 0 \<Longrightarrow> parse_int64 (show_nat (nat i)) = Some i"
    using i all_digits_show_nat [of "nat i"] digits_value_show_nat [of "nat i"]
    by (simp add: parse_int64_def)
  moreover have "i < 0 \<Longrightarrow> parse_int64 (CHR ''-'' # show_nat (nat (- i))) = Some i"
    using i by (simp add: parse_int64_def all_digits_show_nat digits_value_show_nat)
  ultimately show ?thesis by (simp add: show_int_def)
qed

lemma parse_uint64_show_nat: "parse_uint64 (show_nat (unat (g :: 64 word))) = Some g"
proof -
  have "unat g < 18446744073709551616"
    using unsigned_less [where w = g and ?'a = nat] by simp
  then show ?thesis
    by (simp add: parse_uint64_def all_digits_show_nat digits_value_show_nat)
qed

section \<open>Lists and associations\<close>

lemma foldl_append_singleton: "foldl f s (xs @ [x]) = f (foldl f s xs) x"
  by simp

lemma list_all_takeD: "list_all P xs \<Longrightarrow> list_all P (take n xs)"
  by (auto simp: list_all_iff dest: in_set_takeD)

end
