(* ===== verification/GoErrors.thy ===== *)
theory GoErrors
  imports Prelude
begin

text \<open>
  The errors of \<open>errors.go\<close>: the exported sentinels, \<open>APIError\<close>, \<open>TransportError\<close>, and the ways
  the package combines them (\<open>fmt.Errorf\<close> with \<open>%w\<close>, \<open>errors.Join\<close>). A wrapped error keeps the
  text of its own layer and the errors it wraps, so that \<open>errors.Is\<close> and \<open>errors.AsType\<close> walk the
  same tree as in Go.
\<close>

section \<open>Error values\<close>

text \<open>The first ten are the package's exported sentinels, \<open>ErrDeviceAuthSuperseded\<close> is the
  unexported one of \<open>auth.go\<close>; the last four are standard-library sentinels the code tests for
  or returns.\<close>

datatype sentinel =
    ErrNotFound
  | ErrAuthorizationPending
  | ErrSlowDown
  | ErrNotAuthenticated
  | ErrNoPendingDeviceAuth
  | ErrInvalidConfiguration
  | ErrInvalidArgument
  | ErrResponseTooLarge
  | ErrStorageTooLarge
  | ErrRedirect
  | ErrDeviceAuthSuperseded
  | ContextCanceled
  | ContextDeadlineExceeded
  | OsErrNotExist
  | SyscallWouldBlock

record api_error =
  ae_code :: string
  ae_message :: string
  ae_status :: int
  ae_raw_body :: string
  ae_details :: "string option"

text \<open>\<open>Wrapf m es\<close> is \<open>fmt.Errorf\<close> with the text \<open>m\<close> and the \<open>%w\<close> operands \<open>es\<close>; \<open>Joined\<close> is
  \<open>errors.Join\<close>; \<open>TransportErr code method url cause\<close> is a \<open>TransportError\<close>.\<close>

datatype go_error =
    Sentinel sentinel
  | Msg string
  | Wrapf string "go_error list"
  | Joined "go_error list"
  | APIErr api_error
  | TransportErr string string string go_error

section \<open>Matching\<close>

fun errors_Is :: "go_error \<Rightarrow> sentinel \<Rightarrow> bool" where
  "errors_Is (Sentinel s) t = (s = t)"
| "errors_Is (Msg m) t = False"
| "errors_Is (Wrapf m es) t = list_ex (\<lambda>e. errors_Is e t) es"
| "errors_Is (Joined es) t = list_ex (\<lambda>e. errors_Is e t) es"
| "errors_Is (APIErr a) t = False"
| "errors_Is (TransportErr c m u e) t = errors_Is e t"

text \<open>\<open>errors.AsType[*APIError]\<close>: the first match of a pre-order walk of the tree.\<close>

fun as_api_error :: "go_error \<Rightarrow> api_error option"
  and first_api_error :: "go_error list \<Rightarrow> api_error option" where
  "as_api_error (Sentinel s) = None"
| "as_api_error (Msg m) = None"
| "as_api_error (Wrapf m es) = first_api_error es"
| "as_api_error (Joined es) = first_api_error es"
| "as_api_error (APIErr a) = Some a"
| "as_api_error (TransportErr c m u e) = as_api_error e"
| "first_api_error [] = None"
| "first_api_error (e # es) = (case as_api_error e of None \<Rightarrow> first_api_error es | Some a \<Rightarrow> Some a)"

definition invalid_argument :: "string \<Rightarrow> go_error" where
  "invalid_argument m = Wrapf m [Sentinel ErrInvalidArgument]"

lemma errors_Is_invalid_argument [simp]:
  "errors_Is (invalid_argument m) s \<longleftrightarrow> s = ErrInvalidArgument"
  by (auto simp: invalid_argument_def)

lemma as_api_error_invalid_argument [simp]: "as_api_error (invalid_argument m) = None"
  by (simp add: invalid_argument_def)

text \<open>\<open>resourceOperationError\<close> (payment_methods.go): adds the operation's text to an API error
  wherever it is found, and leaves any other error as it is.\<close>

definition resourceOperationError :: "go_error \<Rightarrow> string \<Rightarrow> go_error" where
  "resourceOperationError err operation =
     (case as_api_error err of
        None \<Rightarrow> err
      | Some a \<Rightarrow> APIErr (a\<lparr>ae_message := operation @ '' ('' @ show_int (ae_status a) @ ''): '' @ ae_message a\<rparr>))"

lemma resourceOperationError_preserves:
  "as_api_error err = Some a \<Longrightarrow>
   \<exists>a'. resourceOperationError err operation = APIErr a' \<and> ae_code a' = ae_code a \<and>
     ae_status a' = ae_status a \<and> ae_raw_body a' = ae_raw_body a \<and> ae_details a' = ae_details a"
  by (simp add: resourceOperationError_def)

lemma resourceOperationError_other:
  "as_api_error err = None \<Longrightarrow> resourceOperationError err operation = err"
  by (simp add: resourceOperationError_def)

end
