(* ===== verification/GoText.thy ===== *)
theory GoText
  imports Prelude
begin

text \<open>
  The parts of Go's \<open>strings\<close>, \<open>bytes\<close> and \<open>unicode/utf8\<close> packages the program calls:
  \<open>TrimSpace\<close> over the Unicode white space, the decoding of one UTF-8 sequence, validity, and
  the encoding of a code point.
\<close>

section \<open>UTF-8\<close>

definition is_cont :: "char \<Rightarrow> bool" where
  "is_cont c \<longleftrightarrow> 128 \<le> byte c \<and> byte c \<le> 191"

text \<open>The range of second bytes a lead byte allows (the table of RFC 3629, which
  \<open>utf8.DecodeRune\<close> uses).\<close>

definition second_ok :: "nat \<Rightarrow> char \<Rightarrow> bool" where
  "second_ok b c \<longleftrightarrow>
     (if b = 224 then 160 \<le> byte c \<and> byte c \<le> 191
      else if b = 237 then 128 \<le> byte c \<and> byte c \<le> 159
      else if b = 240 then 144 \<le> byte c \<and> byte c \<le> 191
      else if b = 244 then 128 \<le> byte c \<and> byte c \<le> 143
      else is_cont c)"

definition lead_width :: "nat \<Rightarrow> nat" where
  "lead_width b =
     (if b < 128 then 1 else if 194 \<le> b \<and> b \<le> 223 then 2
      else if 224 \<le> b \<and> b \<le> 239 then 3 else if 240 \<le> b \<and> b \<le> 244 then 4 else 0)"

text \<open>The width of the valid sequence at the front of a string, 0 when there is none
  (where \<open>DecodeRune\<close> returns \<open>RuneError\<close> and consumes one byte).\<close>

fun rune_width :: "string \<Rightarrow> nat" where
  "rune_width [] = 0"
| "rune_width [a] = (if lead_width (byte a) = 1 then 1 else 0)"
| "rune_width [a, b] =
     (if lead_width (byte a) = 1 then 1
      else if lead_width (byte a) = 2 \<and> second_ok (byte a) b then 2 else 0)"
| "rune_width [a, b, c] =
     (if lead_width (byte a) = 1 then 1
      else if lead_width (byte a) = 2 \<and> second_ok (byte a) b then 2
      else if lead_width (byte a) = 3 \<and> second_ok (byte a) b \<and> is_cont c then 3 else 0)"
| "rune_width (a # b # c # d # r) =
     (if lead_width (byte a) = 1 then 1
      else if lead_width (byte a) = 2 \<and> second_ok (byte a) b then 2
      else if lead_width (byte a) = 3 \<and> second_ok (byte a) b \<and> is_cont c then 3
      else if lead_width (byte a) = 4 \<and> second_ok (byte a) b \<and> is_cont c \<and> is_cont d then 4 else 0)"

lemma rune_width_le: "rune_width s \<le> length s"
  by (cases s rule: rune_width.cases) auto

lemma rune_width_ascii: "byte c < 128 \<Longrightarrow> rune_width (c # cs) = 1"
  by (cases "c # cs" rule: rune_width.cases) (auto simp: lead_width_def)

text \<open>Only the bytes of the sequence itself decide its width.\<close>

lemma rune_width_append:
  "rune_width s = n \<Longrightarrow> n \<noteq> 0 \<Longrightarrow> rune_width (s @ t) = n"
  by (cases s rule: rune_width.cases; cases t rule: rune_width.cases)
     (auto split: if_splits)

fun valid_utf8 :: "string \<Rightarrow> bool" where
  "valid_utf8 [] = True"
| "valid_utf8 (c # cs) =
     (rune_width (c # cs) \<noteq> 0 \<and> valid_utf8 (drop (rune_width (c # cs) - 1) cs))"

declare valid_utf8.simps(2) [simp del]

lemma valid_utf8_ascii: "byte c < 128 \<Longrightarrow> valid_utf8 (c # cs) = valid_utf8 cs"
  by (simp add: valid_utf8.simps rune_width_ascii)

text \<open>\<open>utf8.EncodeRune\<close>: surrogates and values beyond U+10FFFF become U+FFFD.\<close>

definition rune_error :: string where "rune_error = [CHR 0xEF, CHR 0xBF, CHR 0xBD]"

definition encode_rune :: "nat \<Rightarrow> string" where
  "encode_rune r =
     (if r < 128 then [char_of r]
      else if r < 2048 then [char_of (192 + r div 64), char_of (128 + r mod 64)]
      else if 55296 \<le> r \<and> r \<le> 57343 \<or> 1114111 < r then rune_error
      else if r < 65536 then
        [char_of (224 + r div 4096), char_of (128 + (r div 64) mod 64), char_of (128 + r mod 64)]
      else [char_of (240 + r div 262144), char_of (128 + (r div 4096) mod 64),
            char_of (128 + (r div 64) mod 64), char_of (128 + r mod 64)])"

section \<open>TrimSpace\<close>

text \<open>The UTF-8 encodings of the code points for which \<open>unicode.IsSpace\<close> holds.\<close>

definition space_encodings :: "string list" where
  "space_encodings =
     [[CHR 0x20], [CHR 0x09], [CHR 0x0A], [CHR 0x0B], [CHR 0x0C], [CHR 0x0D],
      [CHR 0xC2, CHR 0x85], [CHR 0xC2, CHR 0xA0], [CHR 0xE1, CHR 0x9A, CHR 0x80],
      [CHR 0xE2, CHR 0x80, CHR 0x80], [CHR 0xE2, CHR 0x80, CHR 0x81], [CHR 0xE2, CHR 0x80, CHR 0x82],
      [CHR 0xE2, CHR 0x80, CHR 0x83], [CHR 0xE2, CHR 0x80, CHR 0x84], [CHR 0xE2, CHR 0x80, CHR 0x85],
      [CHR 0xE2, CHR 0x80, CHR 0x86], [CHR 0xE2, CHR 0x80, CHR 0x87], [CHR 0xE2, CHR 0x80, CHR 0x88],
      [CHR 0xE2, CHR 0x80, CHR 0x89], [CHR 0xE2, CHR 0x80, CHR 0x8A], [CHR 0xE2, CHR 0x80, CHR 0xA8],
      [CHR 0xE2, CHR 0x80, CHR 0xA9], [CHR 0xE2, CHR 0x80, CHR 0xAF], [CHR 0xE2, CHR 0x81, CHR 0x9F],
      [CHR 0xE3, CHR 0x80, CHR 0x80]]"

definition strip_front :: "string list \<Rightarrow> string \<Rightarrow> string option" where
  "strip_front pats s =
     map_option (\<lambda>p. drop (length p) s) (find (\<lambda>p. p \<noteq> [] \<and> take (length p) s = p) pats)"

lemma strip_front_shorter:
  assumes "strip_front pats s = Some r"
  shows "length r < length s"
proof -
  let ?P = "\<lambda>p. p \<noteq> [] \<and> take (length p) s = p"
  from assms obtain p where f: "find ?P pats = Some p" and r: "r = drop (length p) s"
    by (auto simp: strip_front_def)
  from f have "?P p" by (auto simp: find_Some_iff)
  then have "0 < length p" and "length p \<le> length s"
    by (auto dest: arg_cong [where f = length])
  then have "length s - length p < length s" by linarith
  with r show ?thesis by simp
qed

function trim_front :: "string list \<Rightarrow> string \<Rightarrow> string" where
  "trim_front pats s = (case strip_front pats s of None \<Rightarrow> s | Some r \<Rightarrow> trim_front pats r)"
  by pat_completeness auto
termination
  by (relation "measure (length \<circ> snd)") (auto dest: strip_front_shorter)

declare trim_front.simps [simp del]

definition trim_space :: "string \<Rightarrow> string" where
  "trim_space s =
     rev (trim_front (map rev space_encodings) (rev (trim_front space_encodings s)))"

definition is_blank :: "string \<Rightarrow> bool" where
  "is_blank s \<longleftrightarrow> trim_space s = []"

lemma strip_front_Nil [simp]: "strip_front pats [] = None"
  by (auto simp: strip_front_def find_None_iff)

lemma trim_front_Nil [simp]: "trim_front pats [] = []"
  by (subst trim_front.simps) simp

lemma is_blank_Nil [simp]: "is_blank []"
  by (simp add: is_blank_def trim_space_def)

lemma not_blank_nonempty: "\<not> is_blank s \<Longrightarrow> s \<noteq> []"
  by auto

end
