(* ===== verification/GoJson.thy ===== *)
theory GoJson
  imports GoText
begin

text \<open>
  The part of Go's \<open>encoding/json\<close> the program relies on. A document is a \<open>json\<close> tree whose
  strings and numbers keep their source text, as \<open>json.RawMessage\<close> does; insignificant white
  space is not kept, because every raw value the program writes passes through \<open>json.Marshal\<close>,
  which compacts it.

  The scanner is the character automaton of \<open>encoding/json/scanner.go\<close>: one mode per scanner
  state and a stack of open arrays and objects, stepped once per byte, with the library's bound
  of 10000 open brackets. It is total without fuel.
\<close>

section \<open>Trees\<close>

datatype json =
    JNull
  | JBool bool
  | JNum string
  | JStr string
  | JArr "json list"
  | JObj "(string \<times> json) list"

text \<open>The string of \<open>JStr\<close> and the keys of \<open>JObj\<close> are the raw literals between the quotes.\<close>

section \<open>The scanner\<close>

datatype frame =
    InArr "json list"
  | AtKey "(string \<times> json) list"
  | AtVal "(string \<times> json) list" string

datatype mode =
    BeginValue
  | BeginValueOrEmpty
  | BeginString
  | BeginStringOrEmpty
  | InString string
  | InEscape string
  | InHex nat string
  | NumNeg string
  | NumZero string
  | NumInt string
  | NumDot string
  | NumFrac string
  | NumE string
  | NumESign string
  | NumExp string
  | InLiteral string json
  | EndValue json
  | AfterKey string

type_synonym machine = "(mode \<times> frame list) option"

definition max_depth :: nat where "max_depth = 10000"

definition is_ws :: "char \<Rightarrow> bool" where
  "is_ws c \<longleftrightarrow> c = CHR '' '' \<or> c = CHR 0x09 \<or> c = CHR 0x0A \<or> c = CHR 0x0D"

definition is_hex :: "char \<Rightarrow> bool" where
  "is_hex c \<longleftrightarrow> is_digit c \<or> (97 \<le> byte c \<and> byte c \<le> 102) \<or> (65 \<le> byte c \<and> byte c \<le> 70)"

definition is_simple_escape :: "char \<Rightarrow> bool" where
  "is_simple_escape c \<longleftrightarrow>
     c \<in> {CHR ''b'', CHR ''f'', CHR ''n'', CHR ''r'', CHR ''t'', CHR 0x5C, CHR ''/'', CHR 0x22}"

definition push_frame :: "frame \<Rightarrow> mode \<Rightarrow> frame list \<Rightarrow> machine" where
  "push_frame f m fs = (if length fs < max_depth then Some (m, f # fs) else None)"

definition begin_value :: "char \<Rightarrow> frame list \<Rightarrow> machine" where
  "begin_value c fs =
     (if c = CHR ''{'' then push_frame (AtKey []) BeginStringOrEmpty fs
      else if c = CHR ''['' then push_frame (InArr []) BeginValueOrEmpty fs
      else if c = CHR 0x22 then Some (InString [], fs)
      else if c = CHR ''-'' then Some (NumNeg [c], fs)
      else if c = CHR ''0'' then Some (NumZero [c], fs)
      else if is_digit c then Some (NumInt [c], fs)
      else if c = CHR ''t'' then Some (InLiteral ''rue'' (JBool True), fs)
      else if c = CHR ''f'' then Some (InLiteral ''alse'' (JBool False), fs)
      else if c = CHR ''n'' then Some (InLiteral ''ull'' JNull, fs)
      else None)"

definition end_value :: "char \<Rightarrow> json \<Rightarrow> frame list \<Rightarrow> machine" where
  "end_value c v fs =
     (if is_ws c then Some (EndValue v, fs)
      else (case fs of
              [] \<Rightarrow> None
            | InArr vs # r \<Rightarrow>
                (if c = CHR '','' then Some (BeginValue, InArr (v # vs) # r)
                 else if c = CHR '']'' then Some (EndValue (JArr (rev (v # vs))), r) else None)
            | AtVal ms k # r \<Rightarrow>
                (if c = CHR '','' then Some (BeginString, AtKey ((k, v) # ms) # r)
                 else if c = CHR ''}'' then Some (EndValue (JObj (rev ((k, v) # ms))), r) else None)
            | AtKey ms # r \<Rightarrow> None))"

text \<open>A closing quote ends a key when the innermost object expects one, a value otherwise.\<close>

definition end_string :: "string \<Rightarrow> frame list \<Rightarrow> machine" where
  "end_string raw fs =
     (case fs of
        AtKey ms # r \<Rightarrow> Some (AfterKey raw, fs)
      | _ \<Rightarrow> Some (EndValue (JStr raw), fs))"

definition number :: "string \<Rightarrow> json" where "number acc = JNum (rev acc)"

fun scan_step :: "char \<Rightarrow> mode \<Rightarrow> frame list \<Rightarrow> machine" where
  "scan_step c BeginValue fs = (if is_ws c then Some (BeginValue, fs) else begin_value c fs)"
| "scan_step c BeginValueOrEmpty fs =
     (if is_ws c then Some (BeginValueOrEmpty, fs)
      else if c = CHR '']'' then Some (EndValue (JArr []), tl fs)
      else begin_value c fs)"
| "scan_step c BeginString fs =
     (if is_ws c then Some (BeginString, fs)
      else if c = CHR 0x22 then Some (InString [], fs) else None)"
| "scan_step c BeginStringOrEmpty fs =
     (if is_ws c then Some (BeginStringOrEmpty, fs)
      else if c = CHR ''}'' then Some (EndValue (JObj []), tl fs)
      else if c = CHR 0x22 then Some (InString [], fs) else None)"
| "scan_step c (InString acc) fs =
     (if c = CHR 0x22 then end_string (rev acc) fs
      else if c = CHR 0x5C then Some (InEscape (c # acc), fs)
      else if byte c < 32 then None
      else Some (InString (c # acc), fs))"
| "scan_step c (InEscape acc) fs =
     (if is_simple_escape c then Some (InString (c # acc), fs)
      else if c = CHR ''u'' then Some (InHex 4 (c # acc), fs) else None)"
| "scan_step c (InHex n acc) fs =
     (if is_hex c then Some (if n \<le> 1 then InString (c # acc) else InHex (n - 1) (c # acc), fs)
      else None)"
| "scan_step c (NumNeg acc) fs =
     (if c = CHR ''0'' then Some (NumZero (c # acc), fs)
      else if is_digit c then Some (NumInt (c # acc), fs) else None)"
| "scan_step c (NumInt acc) fs =
     (if is_digit c then Some (NumInt (c # acc), fs)
      else if c = CHR ''.'' then Some (NumDot (c # acc), fs)
      else if c = CHR ''e'' \<or> c = CHR ''E'' then Some (NumE (c # acc), fs)
      else end_value c (number acc) fs)"
| "scan_step c (NumZero acc) fs =
     (if c = CHR ''.'' then Some (NumDot (c # acc), fs)
      else if c = CHR ''e'' \<or> c = CHR ''E'' then Some (NumE (c # acc), fs)
      else end_value c (number acc) fs)"
| "scan_step c (NumDot acc) fs = (if is_digit c then Some (NumFrac (c # acc), fs) else None)"
| "scan_step c (NumFrac acc) fs =
     (if is_digit c then Some (NumFrac (c # acc), fs)
      else if c = CHR ''e'' \<or> c = CHR ''E'' then Some (NumE (c # acc), fs)
      else end_value c (number acc) fs)"
| "scan_step c (NumE acc) fs =
     (if c = CHR ''+'' \<or> c = CHR ''-'' then Some (NumESign (c # acc), fs)
      else if is_digit c then Some (NumExp (c # acc), fs) else None)"
| "scan_step c (NumESign acc) fs = (if is_digit c then Some (NumExp (c # acc), fs) else None)"
| "scan_step c (NumExp acc) fs =
     (if is_digit c then Some (NumExp (c # acc), fs) else end_value c (number acc) fs)"
| "scan_step c (InLiteral want v) fs =
     (case want of
        [] \<Rightarrow> None
      | w # ws \<Rightarrow> (if c = w then Some (if ws = [] then EndValue v else InLiteral ws v, fs) else None))"
| "scan_step c (EndValue v) fs = end_value c v fs"
| "scan_step c (AfterKey k) fs =
     (if is_ws c then Some (AfterKey k, fs)
      else if c = CHR '':'' then
        (case fs of AtKey ms # r \<Rightarrow> Some (BeginValue, AtVal ms k # r) | _ \<Rightarrow> None)
      else None)"

fun scan :: "machine \<Rightarrow> string \<Rightarrow> machine" where
  "scan None s = None"
| "scan (Some mf) [] = Some mf"
| "scan (Some (m, fs)) (c # cs) = scan (scan_step c m fs) cs"

text \<open>The value of a machine at the end of the input, if the document is complete there.\<close>

fun settled :: "mode \<Rightarrow> json option" where
  "settled (EndValue v) = Some v"
| "settled (NumZero acc) = Some (number acc)"
| "settled (NumInt acc) = Some (number acc)"
| "settled (NumFrac acc) = Some (number acc)"
| "settled (NumExp acc) = Some (number acc)"
| "settled _ = None"

definition parse_json :: "string \<Rightarrow> json option" where
  "parse_json s =
     (case scan (Some (BeginValue, [])) s of
        Some (m, []) \<Rightarrow> settled m
      | _ \<Rightarrow> None)"

definition json_valid :: "string \<Rightarrow> bool" where
  "json_valid s \<longleftrightarrow> parse_json s \<noteq> None"

lemma scan_None [simp]: "scan None s = None"
  by (cases s) auto

lemma scan_append: "scan m (s @ t) = scan (scan m s) t"
  by (induction m s rule: scan.induct) auto

lemma parse_json_Nil [simp]: "parse_json [] = None"
  by (simp add: parse_json_def)

end
