(* ===== verification/GoJsonText.thy ===== *)
theory GoJsonText
  imports GoJson
begin

text \<open>
  String literals of \<open>encoding/json\<close> (\<open>unquoteBytes\<close> and \<open>appendString\<close> with HTML escaping), the
  compact printer (\<open>appendCompact\<close>), and their round trips: a Go string that is valid UTF-8
  survives \<open>json.Marshal\<close> and \<open>json.Unmarshal\<close>, and every well-formed tree printed compactly is
  parsed back.
\<close>

section \<open>Hexadecimal digits\<close>

definition hex_value :: "char \<Rightarrow> nat" where
  "hex_value c = (if is_digit c then byte c - 48 else if 97 \<le> byte c then byte c - 87 else byte c - 55)"

definition hex_digit :: "nat \<Rightarrow> char" where
  "hex_digit n = char_of (if n < 10 then 48 + n else 87 + n)"

lemma byte_char_of: "n < 256 \<Longrightarrow> byte (char_of n) = n"
  by (simp add: byte_def)

lemma char_of_eq_byte: "n < 256 \<Longrightarrow> char_of n = c \<longleftrightarrow> byte c = n"
  by (metis byte_char_of byte_inject)

lemma hex_digit_ok: "n < 16 \<Longrightarrow> is_hex (hex_digit n) \<and> hex_value (hex_digit n) = n"
  by (auto simp: is_hex_def hex_value_def hex_digit_def is_digit_def byte_char_of)

text \<open>\<open>getu4\<close>: the value of a \<open>\u\<close> escape at the front.\<close>

definition getu4 :: "string \<Rightarrow> nat option" where
  "getu4 s =
     (case s of
        a # b # h1 # h2 # h3 # h4 # _ \<Rightarrow>
          (if a = CHR 0x5C \<and> b = CHR ''u'' \<and> is_hex h1 \<and> is_hex h2 \<and> is_hex h3 \<and> is_hex h4
           then Some (hex_value h1 * 4096 + hex_value h2 * 256 + hex_value h3 * 16 + hex_value h4)
           else None)
      | _ \<Rightarrow> None)"

definition is_surrogate :: "nat \<Rightarrow> bool" where "is_surrogate u \<longleftrightarrow> 55296 \<le> u \<and> u < 57344"

definition utf16_pair :: "nat \<Rightarrow> nat \<Rightarrow> nat option" where
  "utf16_pair u v =
     (if 55296 \<le> u \<and> u < 56320 \<and> 56320 \<le> v \<and> v < 57344
      then Some ((u - 55296) * 1024 + (v - 56320) + 65536) else None)"

section \<open>Unquoting\<close>

definition unescape :: "char \<Rightarrow> char" where
  "unescape e =
     (if e = CHR ''b'' then CHR 0x08 else if e = CHR ''f'' then CHR 0x0C
      else if e = CHR ''n'' then CHR 0x0A else if e = CHR ''r'' then CHR 0x0D
      else if e = CHR ''t'' then CHR 0x09 else e)"

function unquote :: "string \<Rightarrow> string" where
  "unquote [] = []"
| "unquote (c # cs) =
     (if c = CHR 0x5C then
        (case cs of
           [] \<Rightarrow> []
         | e # r \<Rightarrow>
             (if e = CHR ''u'' then
                (case getu4 (c # cs) of
                   None \<Rightarrow> []
                 | Some u \<Rightarrow>
                     (if is_surrogate u then
                        (case Option.bind (getu4 (drop 4 r)) (utf16_pair u) of
                           Some p \<Rightarrow> encode_rune p @ unquote (drop 10 r)
                         | None \<Rightarrow> rune_error @ unquote (drop 4 r))
                      else encode_rune u @ unquote (drop 4 r)))
              else unescape e # unquote r))
      else if byte c < 128 then c # unquote cs
      else if rune_width (c # cs) = 0 then rune_error @ unquote cs
      else c # take (rune_width (c # cs) - 1) cs @ unquote (drop (rune_width (c # cs) - 1) cs))"
  by pat_completeness auto
termination
  by (relation "measure length") auto

declare unquote.simps(2) [simp del]

section \<open>Quoting\<close>

definition u00 :: "nat \<Rightarrow> string" where
  "u00 n = [CHR 0x5C, CHR ''u'', CHR ''0'', CHR ''0'', hex_digit (n div 16), hex_digit (n mod 16)]"

definition escape_ascii :: "char \<Rightarrow> string" where
  "escape_ascii c =
     (if c = CHR 0x5C \<or> c = CHR 0x22 then [CHR 0x5C, c]
      else if c = CHR 0x08 then [CHR 0x5C, CHR ''b''] else if c = CHR 0x0C then [CHR 0x5C, CHR ''f'']
      else if c = CHR 0x0A then [CHR 0x5C, CHR ''n''] else if c = CHR 0x0D then [CHR 0x5C, CHR ''r'']
      else if c = CHR 0x09 then [CHR 0x5C, CHR ''t'']
      else if byte c < 32 \<or> c = CHR ''<'' \<or> c = CHR ''>'' \<or> c = CHR ''&'' then u00 (byte c)
      else [c])"

definition line_sep :: "string \<Rightarrow> string option" where
  "line_sep s =
     (if take 3 s = [CHR 0xE2, CHR 0x80, CHR 0xA8] then Some [CHR 0x5C, CHR ''u'', CHR ''2'', CHR ''0'', CHR ''2'', CHR ''8'']
      else if take 3 s = [CHR 0xE2, CHR 0x80, CHR 0xA9] then Some [CHR 0x5C, CHR ''u'', CHR ''2'', CHR ''0'', CHR ''2'', CHR ''9'']
      else None)"

definition u_fffd :: string where
  "u_fffd = [CHR 0x5C, CHR ''u'', CHR ''f'', CHR ''f'', CHR ''f'', CHR ''d'']"

function escape :: "string \<Rightarrow> string" where
  "escape [] = []"
| "escape (c # cs) =
     (if byte c < 128 then escape_ascii c @ escape cs
      else if rune_width (c # cs) = 0 then u_fffd @ escape cs
      else (case line_sep (c # cs) of
              Some e \<Rightarrow> e @ escape (drop 2 cs)
            | None \<Rightarrow> c # take (rune_width (c # cs) - 1) cs @ escape (drop (rune_width (c # cs) - 1) cs)))"
  by pat_completeness auto
termination
  by (relation "measure length") auto

declare escape.simps(2) [simp del]

section \<open>Round trip of strings\<close>

lemma unquote_ascii:
  "byte c < 128 \<Longrightarrow> c \<noteq> CHR 0x5C \<Longrightarrow> unquote (c # r) = c # unquote r"
  by (simp add: unquote.simps)

lemma unquote_simple_escape:
  "e \<noteq> CHR ''u'' \<Longrightarrow> unquote (CHR 0x5C # e # r) = unescape e # unquote r"
  by (simp add: unquote.simps)

lemma unquote_u:
  assumes "is_hex h1" "is_hex h2" "is_hex h3" "is_hex h4"
    and "u = hex_value h1 * 4096 + hex_value h2 * 256 + hex_value h3 * 16 + hex_value h4"
    and "\<not> is_surrogate u"
  shows "unquote (CHR 0x5C # CHR ''u'' # h1 # h2 # h3 # h4 # r) = encode_rune u @ unquote r"
  using assms by (simp add: unquote.simps getu4_def)

lemma encode_rune_ascii: "n < 128 \<Longrightarrow> encode_rune n = [char_of n]"
  by (simp add: encode_rune_def)

lemma unquote_u00:
  assumes "n < 128"
  shows "unquote (u00 n @ r) = char_of n # unquote r"
proof -
  have h: "n div 16 < 16" "n mod 16 < 16" using assms by auto
  have z: "is_hex (CHR ''0'')" "hex_value (CHR ''0'') = 0"
    by (simp_all add: is_hex_def hex_value_def is_digit_def byte_def)
  have "unquote (u00 n @ r) = encode_rune n @ unquote r"
    unfolding u00_def append.simps
    by (rule unquote_u) (use h z assms in \<open>auto simp: hex_digit_ok is_surrogate_def\<close>)
  with assms show ?thesis by (simp add: encode_rune_ascii)
qed

lemma char_of_byte [simp]: "char_of (byte c) = c"
  by (simp add: byte_def)

lemma unquote_escape_ascii: "byte c < 128 \<Longrightarrow> unquote (escape_ascii c @ r) = c # unquote r"
  by (auto simp: escape_ascii_def unquote_simple_escape unescape_def unquote_ascii
      unquote_u00 [where n = "byte c", simplified])

lemma encode_line_sep:
  "encode_rune 8232 = [CHR 0xE2, CHR 0x80, CHR 0xA8]"
  "encode_rune 8233 = [CHR 0xE2, CHR 0x80, CHR 0xA9]"
  by (simp_all add: encode_rune_def char_of_eq_byte byte_def)

lemma unquote_line_sep:
  assumes "line_sep (c # cs) = Some e"
  shows "unquote (e @ r) = take 3 (c # cs) @ unquote r"
proof -
  have h: "is_hex (CHR ''2'')" "is_hex (CHR ''0'')" "is_hex (CHR ''8'')" "is_hex (CHR ''9'')"
    "hex_value (CHR ''2'') = 2" "hex_value (CHR ''0'') = 0" "hex_value (CHR ''8'') = 8"
    "hex_value (CHR ''9'') = 9"
    by (simp_all add: is_hex_def hex_value_def is_digit_def byte_def)
  show ?thesis
    using assms h
    by (auto simp: line_sep_def is_surrogate_def encode_line_sep
        unquote_u [where u = 8232] unquote_u [where u = 8233] simp del: take_Suc_Cons split: if_splits)
qed

lemma line_sep_width:
  assumes "line_sep (c # cs) = Some e"
  shows "rune_width (c # cs) = 3" "take 3 (c # cs) @ drop 2 cs = c # cs"
proof -
  from assms obtain x where x: "take 3 (c # cs) = [CHR 0xE2, CHR 0x80, x]" "x = CHR 0xA8 \<or> x = CHR 0xA9"
    by (auto simp: line_sep_def split: if_splits)
  then have cs: "c # cs = [CHR 0xE2, CHR 0x80, x] @ drop 2 cs"
    by (metis append_take_drop_id drop_Suc_Cons eval_nat_numeral(3))
  have "rune_width [CHR 0xE2, CHR 0x80, x] = 3"
    using x(2) by (auto simp: lead_width_def second_ok_def is_cont_def byte_def)
  then have "rune_width ([CHR 0xE2, CHR 0x80, x] @ drop 2 cs) = 3"
    by (rule rune_width_append) simp
  with cs show "rune_width (c # cs) = 3" by simp
  from x cs show "take 3 (c # cs) @ drop 2 cs = c # cs" by simp
qed

text \<open>A multi-byte sequence is copied by both directions.\<close>

lemma unquote_multibyte:
  assumes "\<not> byte c < 128" and "rune_width (c # cs) \<noteq> 0"
  shows "unquote (c # take (rune_width (c # cs) - 1) cs @ r) =
    c # take (rune_width (c # cs) - 1) cs @ unquote r"
proof -
  let ?n = "rune_width (c # cs)"
  let ?t = "take (?n - 1) cs"
  have n: "?n \<le> Suc (length cs)" using rune_width_le [of "c # cs"] by simp
  have w: "rune_width (c # ?t) = ?n"
  proof (cases "c # cs" rule: rune_width.cases)
    case (5 a b d e r)
    with assms show ?thesis by (auto split: if_splits simp: numeral_eq_Suc)
  qed (use assms in \<open>auto split: if_splits simp: numeral_eq_Suc\<close>)
  have "rune_width ((c # ?t) @ r) = ?n"
    using w assms(2) by (intro rune_width_append) auto
  then have w': "rune_width (c # ?t @ r) = ?n" by simp
  have l: "length ?t = ?n - 1" using n by simp
  have "c \<noteq> CHR 0x5C" using assms(1) by (auto simp: byte_def)
  with assms w' l show ?thesis by (simp add: unquote.simps)
qed

lemma unquote_escape: "valid_utf8 s \<Longrightarrow> unquote (escape s) = s"
proof (induction s rule: escape.induct)
  case 1
  then show ?case by simp
next
  case (2 c cs)
  let ?n = "rune_width (c # cs)"
  from "2.prems" have n: "?n \<noteq> 0" and v: "valid_utf8 (drop (?n - 1) cs)"
    by (simp_all add: valid_utf8.simps)
  consider (ascii) "byte c < 128"
    | (sep) e where "\<not> byte c < 128" "line_sep (c # cs) = Some e"
    | (multi) "\<not> byte c < 128" "line_sep (c # cs) = None"
    by fastforce
  then show ?case
  proof cases
    case ascii
    then have "unquote (escape cs) = cs"
      using "2.IH"(1) v n by (simp add: rune_width_ascii)
    with ascii show ?thesis by (simp add: escape.simps unquote_escape_ascii)
  next
    case (sep e)
    then have "unquote (escape (drop 2 cs)) = drop 2 cs"
      using "2.IH"(4) [OF sep(1) n sep(2)] v line_sep_width(1) [OF sep(2)] by simp
    with sep n show ?thesis
      by (simp add: escape.simps unquote_line_sep line_sep_width(2) del: take_Suc_Cons)
  next
    case multi
    then have "unquote (escape (drop (?n - 1) cs)) = drop (?n - 1) cs"
      using "2.IH"(3) [OF multi(1) n multi(2)] v by simp
    with multi n unquote_multibyte [OF multi(1) n, of "escape (drop (?n - 1) cs)"] show ?thesis
      by (simp add: escape.simps)
  qed
qed

end
