(* ===== verification/GoJsonPrint.thy ===== *)
theory GoJsonPrint
  imports GoJsonText
begin

text \<open>
  \<open>json.Marshal\<close> of a raw tree: compact output with HTML escaping (\<open>appendCompact\<close>), and the
  theorem that a well-formed tree printed this way is parsed back to the same tree with its
  literals escaped.
\<close>

section \<open>Well-formed literals\<close>

fun raw_ok :: "string \<Rightarrow> bool" where
  "raw_ok [] = True"
| "raw_ok (c # cs) =
     (if c = CHR 0x5C then
        (case cs of
           [] \<Rightarrow> False
         | e # r \<Rightarrow>
             (if e = CHR ''u'' then
                (case r of
                   h1 # h2 # h3 # h4 # r' \<Rightarrow>
                     is_hex h1 \<and> is_hex h2 \<and> is_hex h3 \<and> is_hex h4 \<and> raw_ok r'
                 | _ \<Rightarrow> False)
              else is_simple_escape e \<and> raw_ok r))
      else c \<noteq> CHR 0x22 \<and> 32 \<le> byte c \<and> raw_ok cs)"

declare raw_ok.simps(2) [simp del]

lemma raw_ok_plain:
  "c \<noteq> CHR 0x5C \<Longrightarrow> raw_ok (c # cs) \<longleftrightarrow> c \<noteq> CHR 0x22 \<and> 32 \<le> byte c \<and> raw_ok cs"
  by (simp add: raw_ok.simps)

lemma raw_ok_u:
  "raw_ok (CHR 0x5C # CHR ''u'' # h1 # h2 # h3 # h4 # r) \<longleftrightarrow>
     is_hex h1 \<and> is_hex h2 \<and> is_hex h3 \<and> is_hex h4 \<and> raw_ok r"
  by (simp add: raw_ok.simps)

lemma raw_ok_simple:
  "e \<noteq> CHR ''u'' \<Longrightarrow> raw_ok (CHR 0x5C # e # r) \<longleftrightarrow> is_simple_escape e \<and> raw_ok r"
  by (simp add: raw_ok.simps)

lemma raw_ok_u00:
  assumes "n < 256"
  shows "raw_ok (u00 n @ r) \<longleftrightarrow> raw_ok r"
proof -
  have "n div 16 < 16" "n mod 16 < 16" using assms by auto
  then show ?thesis
    unfolding u00_def append.simps raw_ok_u
    by (simp add: hex_digit_ok) (simp add: is_hex_def is_digit_def byte_def)
qed

text \<open>A case rule for well-formed literals: empty, an ordinary byte, a simple escape, a
  \<open>\u\<close> escape.\<close>

lemma raw_ok_cases:
  assumes "raw_ok s"
  obtains (Nil) "s = []"
  | (plain) c cs where "s = c # cs" "c \<noteq> CHR 0x5C" "c \<noteq> CHR 0x22" "32 \<le> byte c" "raw_ok cs"
  | (simple) e r where "s = CHR 0x5C # e # r" "e \<noteq> CHR ''u''" "is_simple_escape e" "raw_ok r"
  | (hex) h1 h2 h3 h4 r where "s = CHR 0x5C # CHR ''u'' # h1 # h2 # h3 # h4 # r"
      "is_hex h1" "is_hex h2" "is_hex h3" "is_hex h4" "raw_ok r"
proof (cases s)
  case (Cons c cs)
  show thesis
  proof (cases "c = CHR 0x5C")
    case False
    with assms Cons show thesis using plain by (simp add: raw_ok_plain)
  next
    case True
    with assms Cons obtain e r where cs: "cs = e # r"
      by (cases cs) (auto simp: raw_ok.simps)
    show thesis
    proof (cases "e = CHR ''u''")
      case False
      with assms Cons True cs show thesis using simple by (simp add: raw_ok_simple)
    next
      case u: True
      with assms Cons True cs obtain h1 h2 h3 h4 r' where "r = h1 # h2 # h3 # h4 # r'"
        by (auto simp: raw_ok.simps split: list.splits)
      with assms Cons True cs u show thesis using hex by (simp add: raw_ok_u)
    qed
  qed
qed (use Nil in simp)

lemma raw_ok_induct [consumes 1, case_names Nil plain simple hex]:
  assumes "raw_ok s"
    and "P []"
    and "\<And>c cs. c \<noteq> CHR 0x5C \<Longrightarrow> c \<noteq> CHR 0x22 \<Longrightarrow> 32 \<le> byte c \<Longrightarrow> raw_ok cs \<Longrightarrow>
           (\<And>t. raw_ok t \<Longrightarrow> length t \<le> length cs \<Longrightarrow> P t) \<Longrightarrow> P (c # cs)"
    and "\<And>e r. e \<noteq> CHR ''u'' \<Longrightarrow> is_simple_escape e \<Longrightarrow> raw_ok r \<Longrightarrow> P r \<Longrightarrow> P (CHR 0x5C # e # r)"
    and "\<And>h1 h2 h3 h4 r. is_hex h1 \<Longrightarrow> is_hex h2 \<Longrightarrow> is_hex h3 \<Longrightarrow> is_hex h4 \<Longrightarrow> raw_ok r \<Longrightarrow> P r \<Longrightarrow>
           P (CHR 0x5C # CHR ''u'' # h1 # h2 # h3 # h4 # r)"
  shows "P s"
  using assms(1)
proof (induction s rule: length_induct)
  case (1 s)
  from "1.prems" show ?case
  proof (cases rule: raw_ok_cases)
    case (plain c cs)
    have "P t" if "raw_ok t" "length t \<le> length cs" for t
      using "1.IH" that plain(1) by auto
    with plain assms(3) show ?thesis by auto
  next
    case (simple e r)
    with "1.IH" assms(4) show ?thesis by auto
  next
    case (hex h1 h2 h3 h4 r)
    with "1.IH" assms(5) show ?thesis by auto
  qed (use assms(2) in simp)
qed

lemma raw_ok_append: "raw_ok s \<Longrightarrow> raw_ok t \<Longrightarrow> raw_ok (s @ t)"
  by (induction s rule: raw_ok_induct) (auto simp: raw_ok_plain raw_ok_simple raw_ok_u)

lemma byte_ge_128_plain: "128 \<le> byte c \<Longrightarrow> c \<noteq> CHR 0x5C \<and> c \<noteq> CHR 0x22 \<and> 32 \<le> byte c"
  by (auto simp: byte_def)

lemma scan_raw:
  "raw_ok raw \<Longrightarrow>
   scan (Some (InString acc, fs)) (raw @ t) = scan (Some (InString (rev raw @ acc), fs)) t"
proof (induction raw arbitrary: acc rule: raw_ok_induct)
  case (plain c cs)
  then show ?case by simp
qed (auto simp: is_simple_escape_def)

section \<open>Quoted strings are well-formed\<close>

lemma raw_ok_escape_ascii: "byte c < 128 \<Longrightarrow> raw_ok r \<Longrightarrow> raw_ok (escape_ascii c @ r)"
  by (auto simp: escape_ascii_def raw_ok_simple is_simple_escape_def raw_ok_u00 raw_ok_plain)

lemma raw_ok_u_fffd: "raw_ok r \<Longrightarrow> raw_ok (u_fffd @ r)"
  by (simp add: u_fffd_def raw_ok_u) (simp add: is_hex_def is_digit_def byte_def)

lemma hex_2028 [simp]: "is_hex (CHR ''2'')" "is_hex (CHR ''0'')" "is_hex (CHR ''8'')" "is_hex (CHR ''9'')"
  by (simp_all add: is_hex_def is_digit_def byte_def)

lemma line_sep_cases:
  assumes "line_sep s = Some e"
  obtains x where "e = CHR 0x5C # CHR ''u'' # CHR ''2'' # CHR ''0'' # CHR ''2'' # [x]"
    "x = CHR ''8'' \<or> x = CHR ''9''"
  using assms unfolding line_sep_def by (metis option.inject option.distinct(1))

lemma raw_ok_line_sep:
  assumes "line_sep s = Some e" and "raw_ok r"
  shows "raw_ok (e @ r)"
  using assms(1) by (rule line_sep_cases) (use assms(2) in \<open>auto simp: raw_ok_u\<close>)

lemma raw_ok_high: "list_all (\<lambda>c. 128 \<le> byte c) s \<Longrightarrow> raw_ok r \<Longrightarrow> raw_ok (s @ r)"
  by (induction s) (auto simp: raw_ok_plain byte_ge_128_plain)

lemma lead_width_1: "lead_width b = Suc 0 \<longleftrightarrow> b < 128"
  by (simp add: lead_width_def)

text \<open>Every byte of a multi-byte sequence is at least 128.\<close>

lemma multibyte_high:
  assumes "\<not> byte c < 128"
  shows "list_all (\<lambda>d. 128 \<le> byte d) (c # take (rune_width (c # cs) - 1) cs)"
proof -
  have second: "second_ok b d \<Longrightarrow> 128 \<le> byte d" for b d
    by (auto simp: second_ok_def is_cont_def split: if_splits)
  have cont: "is_cont d \<Longrightarrow> 128 \<le> byte d" for d
    by (simp add: is_cont_def)
  show ?thesis
    using assms second cont
    by (cases "c # cs" rule: rune_width.cases) (auto simp: lead_width_1)
qed

lemma raw_ok_escape: "raw_ok (escape s)"
proof (induction s rule: escape.induct)
  case 1
  then show ?case by simp
next
  case (2 c cs)
  show ?case
  proof (cases "byte c < 128 \<or> rune_width (c # cs) = 0")
    case True
    with 2 show ?thesis by (auto simp: escape.simps raw_ok_escape_ascii raw_ok_u_fffd)
  next
    case False
    then have a: "\<not> byte c < 128" and n: "rune_width (c # cs) \<noteq> 0" by auto
    show ?thesis
    proof (cases "line_sep (c # cs)")
      case None
      from raw_ok_high [OF multibyte_high [OF a] "2.IH"(3) [OF a n None]] None a n
      show ?thesis by (simp add: escape.simps)
    next
      case (Some e)
      from raw_ok_line_sep [OF Some "2.IH"(4) [OF a n Some]] Some a n
      show ?thesis by (simp add: escape.simps)
    qed
  qed
qed

end
