(* ===== verification/GoJsonTree.thy ===== *)
theory GoJsonTree
  imports GoJsonPrint
begin

text \<open>
  Printing of whole trees (\<open>json.Marshal\<close> of raw values) and the parse of what was printed.
\<close>

section \<open>Compact printing with HTML escaping\<close>

function html_escape :: "string \<Rightarrow> string" where
  "html_escape [] = []"
| "html_escape (c # cs) =
     (if c = CHR ''<'' \<or> c = CHR ''>'' \<or> c = CHR ''&'' then u00 (byte c) @ html_escape cs
      else (case line_sep (c # cs) of
              Some e \<Rightarrow> e @ html_escape (drop 2 cs)
            | None \<Rightarrow> c # html_escape cs))"
  by pat_completeness auto
termination
  by (relation "measure length") auto

declare html_escape.simps(2) [simp del]

fun commas :: "string list \<Rightarrow> string" where
  "commas [] = []"
| "commas [x] = x"
| "commas (x # y # r) = x @ CHR '','' # commas (y # r)"

definition quoted :: "string \<Rightarrow> string" where
  "quoted raw = CHR 0x22 # raw @ [CHR 0x22]"

fun compact :: "json \<Rightarrow> string" where
  "compact JNull = ''null''"
| "compact (JBool b) = (if b then ''true'' else ''false'')"
| "compact (JNum lit) = lit"
| "compact (JStr raw) = quoted (html_escape raw)"
| "compact (JArr vs) = CHR ''['' # commas (map compact vs) @ '']''"
| "compact (JObj ms) =
     CHR ''{'' # commas (map (\<lambda>m. quoted (html_escape (fst m)) @ CHR '':'' # compact (snd m)) ms) @ ''}''"

text \<open>The tree a printed value is read back as.\<close>

fun html_tree :: "json \<Rightarrow> json" where
  "html_tree (JStr raw) = JStr (html_escape raw)"
| "html_tree (JArr vs) = JArr (map html_tree vs)"
| "html_tree (JObj ms) = JObj (map (\<lambda>m. (html_escape (fst m), html_tree (snd m))) ms)"
| "html_tree v = v"

section \<open>Well-formed trees\<close>

fun number_mode :: "mode \<Rightarrow> bool" where
  "number_mode (NumNeg a) = True"
| "number_mode (NumZero a) = True"
| "number_mode (NumInt a) = True"
| "number_mode (NumDot a) = True"
| "number_mode (NumFrac a) = True"
| "number_mode (NumE a) = True"
| "number_mode (NumESign a) = True"
| "number_mode (NumExp a) = True"
| "number_mode _ = False"

fun num_scan :: "mode \<Rightarrow> string \<Rightarrow> mode option" where
  "num_scan m [] = Some m"
| "num_scan m (c # cs) =
     (case scan_step c m [] of
        Some (m', []) \<Rightarrow> if number_mode m' then num_scan m' cs else None
      | _ \<Rightarrow> None)"

definition num_run :: "string \<Rightarrow> mode option" where
  "num_run lit =
     (case lit of
        [] \<Rightarrow> None
      | c # cs \<Rightarrow>
          (case begin_value c [] of
             Some (m, []) \<Rightarrow> if number_mode m then num_scan m cs else None
           | _ \<Rightarrow> None))"

definition num_ok :: "string \<Rightarrow> bool" where
  "num_ok lit = (case num_run lit of None \<Rightarrow> False | Some m \<Rightarrow> settled m \<noteq> None)"

fun wf_json :: "json \<Rightarrow> bool" where
  "wf_json (JNum lit) = num_ok lit"
| "wf_json (JStr raw) = raw_ok raw"
| "wf_json (JArr vs) = list_all wf_json vs"
| "wf_json (JObj ms) = list_all (\<lambda>m. raw_ok (fst m) \<and> wf_json (snd m)) ms"
| "wf_json _ = True"

fun json_depth :: "json \<Rightarrow> nat" where
  "json_depth (JArr vs) = Suc (foldr max (map json_depth vs) 0)"
| "json_depth (JObj ms) = Suc (foldr max (map (\<lambda>m. json_depth (snd m)) ms) 0)"
| "json_depth _ = 0"

lemma foldr_max_le: "x \<in> set xs \<Longrightarrow> f x \<le> foldr max (map f xs) (0 :: nat)"
  by (induction xs) auto

section \<open>Escaped literals\<close>

lemma line_sep_split:
  assumes "line_sep (c # cs) = Some e"
  obtains x where "c # cs = CHR 0xE2 # CHR 0x80 # x # drop 2 cs" "128 \<le> byte x"
proof -
  from assms obtain x where "take 3 (c # cs) = [CHR 0xE2, CHR 0x80, x]" "x = CHR 0xA8 \<or> x = CHR 0xA9"
    by (auto simp: line_sep_def split: if_splits)
  moreover from this have "c # cs = CHR 0xE2 # CHR 0x80 # x # drop 2 cs"
    using line_sep_width(2) [OF assms] by simp
  ultimately show thesis using that by (auto simp: byte_def)
qed

lemma line_sep_ascii: "byte c < 128 \<Longrightarrow> line_sep (c # cs) = None"
  by (auto simp: line_sep_def byte_def)

lemma html_escape_ascii:
  "byte c < 128 \<Longrightarrow> c \<notin> {CHR ''<'', CHR ''>'', CHR ''&''} \<Longrightarrow> html_escape (c # cs) = c # html_escape cs"
  by (simp add: html_escape.simps line_sep_ascii)

lemma is_hex_html: "is_hex h \<Longrightarrow> html_escape (h # cs) = h # html_escape cs"
  by (rule html_escape_ascii) (auto simp: is_hex_def is_digit_def byte_def)

lemma is_simple_escape_html:
  "is_simple_escape e \<Longrightarrow> html_escape (CHR 0x5C # e # r) = CHR 0x5C # e # html_escape r"
  by (auto simp: is_simple_escape_def html_escape_ascii byte_def)

lemma html_escape_u:
  assumes "is_hex h1" "is_hex h2" "is_hex h3" "is_hex h4"
  shows "html_escape (CHR 0x5C # CHR ''u'' # h1 # h2 # h3 # h4 # r) =
    CHR 0x5C # CHR ''u'' # h1 # h2 # h3 # h4 # html_escape r"
  using assms by (simp add: is_hex_html html_escape_ascii byte_def)

lemma raw_ok_html: "raw_ok s \<Longrightarrow> raw_ok (html_escape s)"
proof (induction s rule: raw_ok_induct)
  case (plain c cs)
  show ?case
  proof (cases "c = CHR ''<'' \<or> c = CHR ''>'' \<or> c = CHR ''&''")
    case True
    with plain show ?thesis by (auto simp: html_escape.simps raw_ok_u00 byte_less)
  next
    case False
    show ?thesis
    proof (cases "line_sep (c # cs)")
      case None
      with plain False show ?thesis by (simp add: html_escape.simps raw_ok_plain)
    next
      case (Some e)
      from Some obtain x where x: "c # cs = CHR 0xE2 # CHR 0x80 # x # drop 2 cs" "128 \<le> byte x"
        by (rule line_sep_split)
      with plain(4) have "raw_ok (CHR 0x80 # x # drop 2 cs)" by simp
      with x(2) have "raw_ok (drop 2 cs)"
        by (simp add: raw_ok_plain byte_ge_128_plain)
      then have "raw_ok (html_escape (drop 2 cs))" by (rule plain(5)) simp
      with Some False show ?thesis by (simp add: html_escape.simps raw_ok_line_sep)
    qed
  qed
qed (simp_all add: is_simple_escape_html html_escape_u raw_ok_simple raw_ok_u)

section \<open>Numbers\<close>

lemma number_step_frames:
  "number_mode m \<Longrightarrow> scan_step c m [] = Some (m', []) \<Longrightarrow> number_mode m' \<Longrightarrow>
   scan_step c m fs = Some (m', fs)"
  by (cases m) (auto simp: end_value_def split: if_splits)

lemma number_begin_frames:
  "begin_value c [] = Some (m, []) \<Longrightarrow> number_mode m \<Longrightarrow> begin_value c fs = Some (m, fs)"
  by (auto simp: begin_value_def push_frame_def split: if_splits)

lemma num_scan_frames:
  "num_scan m s = Some m' \<Longrightarrow> number_mode m \<Longrightarrow> scan (Some (m, fs)) s = Some (m', fs) \<and> number_mode m'"
proof (induction m s rule: num_scan.induct)
  case (2 m c cs)
  from "2.prems" obtain m1 where s: "scan_step c m [] = Some (m1, [])" and n: "number_mode m1"
    and r: "num_scan m1 cs = Some m'"
    by (auto split: option.splits prod.splits list.splits if_splits)
  from number_step_frames [OF "2.prems"(2) s n] have "scan_step c m fs = Some (m1, fs)" .
  with "2.IH" [OF s refl refl n r n] show ?case by simp
qed simp

lemma ws_begin: "is_ws c \<Longrightarrow> begin_value c fs = None"
  unfolding is_ws_def by (elim disjE) (simp_all add: begin_value_def is_digit_def byte_def)

fun mode_acc :: "mode \<Rightarrow> string" where
  "mode_acc (NumNeg a) = a"
| "mode_acc (NumZero a) = a"
| "mode_acc (NumInt a) = a"
| "mode_acc (NumDot a) = a"
| "mode_acc (NumFrac a) = a"
| "mode_acc (NumE a) = a"
| "mode_acc (NumESign a) = a"
| "mode_acc (NumExp a) = a"
| "mode_acc _ = []"

lemma number_step_acc:
  "scan_step c m [] = Some (m', []) \<Longrightarrow> number_mode m \<Longrightarrow> number_mode m' \<Longrightarrow>
   mode_acc m' = c # mode_acc m"
  by (cases m) (auto simp: end_value_def split: if_splits)

lemma num_scan_acc:
  "num_scan m s = Some m' \<Longrightarrow> number_mode m \<Longrightarrow> mode_acc m' = rev s @ mode_acc m"
proof (induction m s rule: num_scan.induct)
  case (2 m c cs)
  from "2.prems" obtain m1 where s: "scan_step c m [] = Some (m1, [])" and n: "number_mode m1"
    and r: "num_scan m1 cs = Some m'"
    by (auto split: option.splits prod.splits list.splits if_splits)
  from number_step_acc [OF s "2.prems"(2) n] "2.IH" [OF s refl refl n r n] show ?case by simp
qed simp

lemma begin_value_acc:
  "begin_value c [] = Some (m, []) \<Longrightarrow> number_mode m \<Longrightarrow> mode_acc m = [c]"
  by (auto simp: begin_value_def push_frame_def split: if_splits)

lemma num_runE:
  assumes "num_run lit = Some m"
  obtains c cs m0 where "lit = c # cs" "begin_value c [] = Some (m0, [])" "number_mode m0"
    "num_scan m0 cs = Some m"
  using assms by (auto simp: num_run_def split: list.splits option.splits prod.splits if_splits)

lemma num_run_acc:
  assumes "num_run lit = Some m"
  shows "mode_acc m = rev lit \<and> number_mode m"
proof -
  from assms obtain c cs m0 where l: "lit = c # cs" and b: "begin_value c [] = Some (m0, [])"
    and n0: "number_mode m0" and sc: "num_scan m0 cs = Some m"
    by (rule num_runE)
  from num_scan_frames [OF sc n0] num_scan_acc [OF sc n0] begin_value_acc [OF b n0] l
  show ?thesis by simp
qed

lemma settled_number: "number_mode m \<Longrightarrow> settled m \<noteq> None \<Longrightarrow> settled m = Some (number (mode_acc m))"
  by (cases m) auto

lemma scan_number:
  assumes "num_ok lit"
  obtains m where "scan (Some (BeginValue, fs)) lit = Some (m, fs)" "settled m = Some (JNum lit)"
proof -
  from assms obtain m where r: "num_run lit = Some m" and s: "settled m \<noteq> None"
    by (auto simp: num_ok_def split: option.splits)
  from r obtain c cs m0 where l: "lit = c # cs" and b: "begin_value c [] = Some (m0, [])"
    and n0: "number_mode m0" and sc: "num_scan m0 cs = Some m"
    by (rule num_runE)
  from b have w: "\<not> is_ws c" using ws_begin by fastforce
  from num_scan_frames [OF sc n0] number_begin_frames [OF b n0]
  have "scan (Some (BeginValue, fs)) lit = Some (m, fs)" using l w by simp
  moreover have "settled m = Some (JNum lit)"
    using settled_number [OF _ s] num_run_acc [OF r] by (simp add: number_def)
  ultimately show thesis by (rule that)
qed

end
