(* ===== verification/GoJsonRound.thy ===== *)
theory GoJsonRound
  imports GoJsonTree
begin

text \<open>
  The two halves of the JSON round trip: what \<open>compact\<close> prints of a well-formed tree is parsed
  back (\<open>parse_compact\<close>), and every tree the parser returns is well-formed (\<open>parse_wf\<close>), so that
  a file read, changed and written can be read again.
\<close>

section \<open>Delimiters\<close>

definition delimiter :: "char \<Rightarrow> bool" where
  "delimiter c \<longleftrightarrow> c \<in> {CHR '','', CHR '']'', CHR ''}''}"

lemma delimiter_not: "delimiter c \<Longrightarrow> \<not> is_digit c \<and> c \<notin> {CHR ''.'', CHR ''e'', CHR ''E''}"
  by (auto simp: delimiter_def is_digit_def byte_def)

lemma settled_step:
  "settled m = Some v \<Longrightarrow> delimiter c \<Longrightarrow> scan_step c m fs = end_value c v fs"
  by (cases m) (auto dest: delimiter_not)

text \<open>The stack positions in which a value may start.\<close>

fun value_pos :: "frame list \<Rightarrow> bool" where
  "value_pos [] = True"
| "value_pos (AtKey ms # r) = False"
| "value_pos (f # r) = True"

lemma scan_quoted_value:
  "value_pos fs \<Longrightarrow> raw_ok raw \<Longrightarrow>
   scan (Some (BeginValue, fs)) (quoted raw @ t) = scan (Some (EndValue (JStr raw), fs)) t"
  by (cases fs rule: value_pos.cases)
     (simp_all add: quoted_def begin_value_def is_ws_def end_string_def scan_raw)

lemma scan_quoted_key:
  "m = BeginString \<or> m = BeginStringOrEmpty \<Longrightarrow> raw_ok k \<Longrightarrow>
   scan (Some (m, AtKey ms # r)) (quoted k @ CHR '':'' # t) =
   scan (Some (BeginValue, AtVal ms k # r)) t"
  by (auto simp: quoted_def is_ws_def end_string_def scan_raw)

lemma commas_Cons: "xs \<noteq> [] \<Longrightarrow> commas (x # xs) = x @ CHR '','' # commas xs"
  by (cases xs) auto

section \<open>What is printed is parsed back\<close>

text \<open>The first byte of a printed value starts a value.\<close>

lemma begin_not_close: "begin_value c fs \<noteq> None \<Longrightarrow> \<not> is_ws c \<and> c \<noteq> CHR '']''"
  using ws_begin [of c fs] by (auto simp: begin_value_def is_digit_def byte_def)

lemma compact_first:
  "wf_json v \<Longrightarrow> \<exists>c cs. compact v = c # cs \<and> \<not> is_ws c \<and> c \<noteq> CHR '']''"
proof (cases v)
  case (JNum lit)
  assume "wf_json v"
  with JNum obtain m where "num_run lit = Some m" by (auto simp: num_ok_def split: option.splits)
  then obtain c cs where "lit = c # cs" "begin_value c [] \<noteq> None"
    by (elim num_runE) auto
  with JNum begin_not_close show ?thesis by auto
qed (auto simp: quoted_def is_ws_def)

lemma scan_value_or_empty:
  "wf_json v \<Longrightarrow>
   scan (Some (BeginValueOrEmpty, fs)) (compact v @ t) = scan (Some (BeginValue, fs)) (compact v @ t)"
  using compact_first [of v] by auto

definition prints :: "json \<Rightarrow> bool" where
  "prints v \<longleftrightarrow>
     (\<forall>fs. value_pos fs \<longrightarrow> json_depth v + length fs \<le> max_depth \<longrightarrow>
        (\<exists>m. scan (Some (BeginValue, fs)) (compact v) = Some (m, fs) \<and> settled m = Some (html_tree v)))"

lemma printsE:
  assumes "prints v" "value_pos fs" "json_depth v + length fs \<le> max_depth"
  obtains m where "\<forall>t. scan (Some (BeginValue, fs)) (compact v @ t) = scan (Some (m, fs)) t"
    "settled m = Some (html_tree v)"
  using assms by (metis prints_def scan_append)

lemma scan_delim:
  assumes "prints v" "value_pos fs" "json_depth v + length fs \<le> max_depth" "delimiter c"
  shows "scan (Some (BeginValue, fs)) (compact v @ c # t) = scan (end_value c (html_tree v) fs) t"
proof -
  from assms(1-3) obtain m where "\<forall>t. scan (Some (BeginValue, fs)) (compact v @ t) = scan (Some (m, fs)) t"
    "settled m = Some (html_tree v)" by (rule printsE)
  with assms(4) show ?thesis by (simp add: settled_step)
qed

lemma scan_elements:
  assumes "vs \<noteq> []" "\<forall>v \<in> set vs. prints v \<and> json_depth v + Suc (length fs) \<le> max_depth"
  shows "scan (Some (BeginValue, InArr acc # fs)) (commas (map compact vs) @ '']'') =
    Some (EndValue (JArr (rev acc @ map html_tree vs)), fs)"
  using assms
proof (induction vs arbitrary: acc)
  case (Cons v vs)
  then have v: "prints v" "json_depth v + length (InArr acc # fs) \<le> max_depth" by auto
  show ?case
  proof (cases "vs = []")
    case True
    with scan_delim [OF v(1) _ v(2), of "CHR '']''" "[]"] show ?thesis
      by (simp add: delimiter_def end_value_def is_ws_def)
  next
    case False
    with Cons have IH: "scan (Some (BeginValue, InArr (html_tree v # acc) # fs))
        (commas (map compact vs) @ '']'') = Some (EndValue (JArr (rev (html_tree v # acc) @ map html_tree vs)), fs)"
      by auto
    from scan_delim [OF v(1) _ v(2), of "CHR '',''" "commas (map compact vs) @ '']''"] IH False
    show ?thesis by (simp add: delimiter_def end_value_def is_ws_def commas_Cons)
  qed
qed simp

abbreviation print_member :: "string \<times> json \<Rightarrow> string" where
  "print_member m \<equiv> quoted (html_escape (fst m)) @ CHR '':'' # compact (snd m)"

lemma scan_members:
  assumes "ms \<noteq> []" "\<forall>m \<in> set ms. raw_ok (fst m) \<and> prints (snd m) \<and>
      json_depth (snd m) + Suc (length fs) \<le> max_depth"
    and "b = BeginString \<or> b = BeginStringOrEmpty"
  shows "scan (Some (b, AtKey acc # fs)) (commas (map print_member ms) @ ''}'') =
    Some (EndValue (JObj (rev acc @ map (\<lambda>m. (html_escape (fst m), html_tree (snd m))) ms)), fs)"
  using assms
proof (induction ms arbitrary: acc b)
  case (Cons m ms)
  let ?k = "html_escape (fst m)" and ?v = "html_tree (snd m)"
  from Cons.prems have k: "raw_ok ?k" and v: "prints (snd m)"
    and d: "json_depth (snd m) + length (AtVal acc ?k # fs) \<le> max_depth"
    by (auto intro: raw_ok_html)
  have key: "scan (Some (b, AtKey acc # fs)) (print_member m @ t) =
      scan (Some (BeginValue, AtVal acc ?k # fs)) (compact (snd m) @ t)" for t
    using scan_quoted_key [OF Cons.prems(3) k, of acc fs "compact (snd m) @ t"] by simp
  show ?case
  proof (cases "ms = []")
    case True
    with scan_delim [OF v _ d, of "CHR ''}''" "[]"] key [of "''}''"] show ?thesis
      by (simp add: delimiter_def end_value_def is_ws_def)
  next
    case False
    with Cons.IH [of BeginString "(?k, ?v) # acc"] Cons.prems
    have "scan (Some (BeginString, AtKey ((?k, ?v) # acc) # fs)) (commas (map print_member ms) @ ''}'') =
        Some (EndValue (JObj (rev ((?k, ?v) # acc) @
          map (\<lambda>m. (html_escape (fst m), html_tree (snd m))) ms)), fs)"
      by auto
    with scan_delim [OF v _ d, of "CHR '',''" "commas (map print_member ms) @ ''}''"]
      key [of "CHR '','' # commas (map print_member ms) @ ''}''"] False
    show ?thesis by (simp add: delimiter_def end_value_def is_ws_def commas_Cons)
  qed
qed simp

lemma json_depth_arr: "v \<in> set vs \<Longrightarrow> json_depth v < json_depth (JArr vs)"
  using foldr_max_le [of v vs json_depth] by simp

lemma json_depth_obj: "m \<in> set ms \<Longrightarrow> json_depth (snd m) < json_depth (JObj ms)"
  using foldr_max_le [of m ms "\<lambda>m. json_depth (snd m)"] by simp

lemma wf_prints: "wf_json v \<Longrightarrow> prints v"
proof (induction v)
  case (JNum lit)
  then show ?case
    unfolding prints_def by (metis compact.simps(3) html_tree.simps(6) scan_number wf_json.simps(1))
next
  case (JStr raw)
  then have ok: "raw_ok (html_escape raw)" by (simp add: raw_ok_html)
  show ?case
    unfolding prints_def using scan_quoted_value [OF _ ok, of _ "[]"] by simp
next
  case (JArr vs)
  then have vs: "\<forall>v \<in> set vs. prints v" by (auto simp: list_all_iff)
  show ?case
    unfolding prints_def
  proof (intro allI impI)
    fix fs assume fs: "value_pos fs" and d: "json_depth (JArr vs) + length fs \<le> max_depth"
    have b: "scan (Some (BeginValue, fs)) (compact (JArr vs)) =
        scan (Some (BeginValueOrEmpty, InArr [] # fs)) (commas (map compact vs) @ '']'')"
      using d by (simp add: is_ws_def begin_value_def push_frame_def)
    show "\<exists>m. scan (Some (BeginValue, fs)) (compact (JArr vs)) = Some (m, fs) \<and>
        settled m = Some (html_tree (JArr vs))"
    proof (cases "vs = []")
      case True
      then show ?thesis unfolding b by (simp add: is_ws_def)
    next
      case False
      then obtain v vs' where v: "vs = v # vs'" by (cases vs) auto
      have "commas (map compact vs) = compact v @ (if vs' = [] then [] else CHR '','' # commas (map compact vs'))"
        using v by (cases vs') auto
      then have "scan (Some (BeginValueOrEmpty, InArr [] # fs)) (commas (map compact vs) @ '']'') =
          scan (Some (BeginValue, InArr [] # fs)) (commas (map compact vs) @ '']'')"
        using scan_value_or_empty [of v "InArr [] # fs"] JArr.prems v by simp
      moreover have "\<forall>v \<in> set vs. prints v \<and> json_depth v + Suc (length fs) \<le> max_depth"
        using vs d json_depth_arr [of _ vs] by fastforce
      ultimately show ?thesis unfolding b using scan_elements [OF False, of fs "[]"] by simp
    qed
  qed
next
  case (JObj ms)
  then have ms: "\<forall>m \<in> set ms. raw_ok (fst m) \<and> prints (snd m)"
    by (auto simp: list_all_iff)
  show ?case
    unfolding prints_def
  proof (intro allI impI)
    fix fs assume fs: "value_pos fs" and d: "json_depth (JObj ms) + length fs \<le> max_depth"
    have b: "scan (Some (BeginValue, fs)) (compact (JObj ms)) =
        scan (Some (BeginStringOrEmpty, AtKey [] # fs)) (commas (map print_member ms) @ ''}'')"
      using d by (simp add: is_ws_def begin_value_def push_frame_def)
    show "\<exists>m. scan (Some (BeginValue, fs)) (compact (JObj ms)) = Some (m, fs) \<and>
        settled m = Some (html_tree (JObj ms))"
    proof (cases "ms = []")
      case True
      then show ?thesis unfolding b by (simp add: is_ws_def)
    next
      case False
      have "\<forall>m \<in> set ms. raw_ok (fst m) \<and> prints (snd m) \<and>
          json_depth (snd m) + Suc (length fs) \<le> max_depth"
        using ms d json_depth_obj [of _ ms] by fastforce
      from scan_members [OF False this, of BeginStringOrEmpty "[]"] show ?thesis unfolding b by simp
    qed
  qed
qed (auto simp: prints_def is_ws_def begin_value_def is_digit_def byte_def)

lemma parse_compact:
  assumes "wf_json v" "json_depth v \<le> max_depth"
  shows "parse_json (compact v) = Some (html_tree v)"
proof -
  from wf_prints [OF assms(1)] assms(2) obtain m where
    "scan (Some (BeginValue, [])) (compact v) = Some (m, [])" "settled m = Some (html_tree v)"
    unfolding prints_def by (metis add.right_neutral list.size(3) value_pos.simps(1))
  then show ?thesis by (simp add: parse_json_def)
qed

end
