(* ===== verification/GoJsonWf.thy ===== *)
theory GoJsonWf
  imports GoJsonRound
begin

text \<open>
  Every tree the scanner delivers is well-formed and no deeper than the nesting bound: an
  invariant of the automaton, preserved by each step.
\<close>

section \<open>The scanner's invariant\<close>

definition value_ok :: "json \<Rightarrow> nat \<Rightarrow> bool" where
  "value_ok v n \<longleftrightarrow> wf_json v \<and> json_depth v + n \<le> max_depth"

fun frames_ok :: "frame list \<Rightarrow> bool" where
  "frames_ok [] = True"
| "frames_ok (InArr vs # r) = ((\<forall>v \<in> set vs. value_ok v (Suc (length r))) \<and> frames_ok r)"
| "frames_ok (AtKey ms # r) =
     ((\<forall>m \<in> set ms. raw_ok (fst m) \<and> value_ok (snd m) (Suc (length r))) \<and> frames_ok r)"
| "frames_ok (AtVal ms k # r) =
     (raw_ok k \<and> (\<forall>m \<in> set ms. raw_ok (fst m) \<and> value_ok (snd m) (Suc (length r))) \<and> frames_ok r)"

fun mode_ok :: "mode \<Rightarrow> nat \<Rightarrow> bool" where
  "mode_ok (InString acc) n = raw_ok (rev acc)"
| "mode_ok (InEscape acc) n = (\<exists>a. acc = CHR 0x5C # a \<and> raw_ok (rev a))"
| "mode_ok (InHex k acc) n =
     (\<exists>a hs. acc = hs @ CHR ''u'' # CHR 0x5C # a \<and> raw_ok (rev a) \<and> list_all is_hex hs \<and>
        length hs + k = 4 \<and> 1 \<le> k)"
| "mode_ok (InLiteral ws v) n = value_ok v n"
| "mode_ok (EndValue v) n = value_ok v n"
| "mode_ok (AfterKey k) n = raw_ok k"
| "mode_ok m n = (number_mode m \<longrightarrow> num_run (rev (mode_acc m)) = Some m)"

definition machine_ok :: "machine \<Rightarrow> bool" where
  "machine_ok mc =
     (case mc of None \<Rightarrow> True
      | Some (m, fs) \<Rightarrow> mode_ok m (length fs) \<and> frames_ok fs \<and> length fs \<le> max_depth)"

lemma machine_ok_simps [simp]:
  "machine_ok None"
  "machine_ok (Some (m, fs)) \<longleftrightarrow> mode_ok m (length fs) \<and> frames_ok fs \<and> length fs \<le> max_depth"
  by (simp_all add: machine_ok_def)

section \<open>Steps keep it\<close>

lemma foldr_max_bound: "(\<forall>x \<in> set xs. f x \<le> b) \<Longrightarrow> foldr max (map f xs) (0 :: nat) \<le> b"
  by (induction xs) auto

lemma depth_arr_bound:
  "\<forall>v \<in> set vs. json_depth v + Suc n \<le> max_depth \<Longrightarrow> Suc n \<le> max_depth \<Longrightarrow>
   json_depth (JArr vs) + n \<le> max_depth"
  using foldr_max_bound [of vs json_depth "max_depth - Suc n"] by fastforce

lemma depth_obj_bound:
  "\<forall>m \<in> set ms. json_depth (snd m) + Suc n \<le> max_depth \<Longrightarrow> Suc n \<le> max_depth \<Longrightarrow>
   json_depth (JObj ms) + n \<le> max_depth"
  using foldr_max_bound [of ms "\<lambda>m. json_depth (snd m)" "max_depth - Suc n"] by fastforce

lemma value_ok_arr:
  "\<forall>v \<in> set vs. value_ok v (Suc n) \<Longrightarrow> Suc n \<le> max_depth \<Longrightarrow> value_ok (JArr vs) n"
  using depth_arr_bound [of vs n] by (auto simp: value_ok_def list_all_iff simp del: json_depth.simps)

lemma value_ok_obj:
  "\<forall>m \<in> set ms. raw_ok (fst m) \<and> value_ok (snd m) (Suc n) \<Longrightarrow> Suc n \<le> max_depth \<Longrightarrow>
   value_ok (JObj ms) n"
  using depth_obj_bound [of ms n] by (auto simp: value_ok_def list_all_iff simp del: json_depth.simps)

lemma end_value_ok:
  assumes "value_ok v (length fs)" "frames_ok fs" "length fs \<le> max_depth"
  shows "machine_ok (end_value c v fs)"
proof (cases fs rule: frames_ok.cases)
  case 1
  with assms show ?thesis by (simp add: end_value_def)
next
  case (2 vs r)
  with assms have "value_ok (JArr (rev vs @ [v])) (length r)"
    by (intro value_ok_arr) auto
  with 2 assms show ?thesis by (simp add: end_value_def)
next
  case (3 ms r)
  with assms show ?thesis by (simp add: end_value_def)
next
  case (4 ms k r)
  with assms have "value_ok (JObj (rev ms @ [(k, v)])) (length r)"
    by (intro value_ok_obj) auto
  with 4 assms show ?thesis by (simp add: end_value_def)
qed

lemma push_frame_ok:
  "frames_ok (f # fs) \<Longrightarrow> mode_ok m (Suc (length fs)) \<Longrightarrow> machine_ok (push_frame f m fs)"
  by (auto simp: push_frame_def)

lemma begin_value_number:
  "begin_value c fs = Some (m, fs) \<Longrightarrow> number_mode m \<Longrightarrow> num_run [c] = Some m"
  by (auto simp: begin_value_def push_frame_def num_run_def split: if_splits)

lemma value_ok_leaf: "n \<le> max_depth \<Longrightarrow> value_ok (JBool b) n \<and> value_ok JNull n"
  by (simp add: value_ok_def)

lemma begin_value_ok:
  "frames_ok fs \<Longrightarrow> length fs \<le> max_depth \<Longrightarrow> machine_ok (begin_value c fs)"
  using begin_value_number [of c fs]
  by (auto simp: begin_value_def push_frame_ok value_ok_leaf)

lemma num_scan_snoc:
  "num_scan m s = Some m1 \<Longrightarrow> scan_step c m1 [] = Some (m2, []) \<Longrightarrow> number_mode m2 \<Longrightarrow>
   num_scan m (s @ [c]) = Some m2"
  by (induction m s rule: num_scan.induct)
     (auto split: option.splits prod.splits list.splits if_splits)

lemma num_run_snoc:
  assumes "num_run s = Some m" "scan_step c m [] = Some (m', [])" "number_mode m'"
  shows "num_run (s @ [c]) = Some m'"
proof -
  from assms(1) obtain c0 cs m0 where "s = c0 # cs" "begin_value c0 [] = Some (m0, [])"
    "number_mode m0" "num_scan m0 cs = Some m" by (rule num_runE)
  with num_scan_snoc [OF _ assms(2,3)] show ?thesis by (simp add: num_run_def)
qed

lemma number_value_ok:
  "num_run (rev acc) = Some m \<Longrightarrow> settled m \<noteq> None \<Longrightarrow> n \<le> max_depth \<Longrightarrow> value_ok (number acc) n"
  by (auto simp: value_ok_def number_def num_ok_def)

text \<open>A number state either reads on or ends the number.\<close>

lemma number_step_ok:
  assumes "number_mode m" "num_run (rev (mode_acc m)) = Some m" "frames_ok fs" "length fs \<le> max_depth"
  shows "machine_ok (scan_step c m fs)"
proof -
  have go: "machine_ok (Some (m', fs))"
    if "scan_step c m [] = Some (m', [])" "number_mode m'" for m'
  proof -
    have "num_run (rev (mode_acc m')) = Some m'"
      using num_run_snoc [OF assms(2) that] number_step_acc [OF that(1) assms(1) that(2)] by simp
    then show ?thesis using assms(3,4) that(2) by (cases m') auto
  qed
  have stop: "settled m \<noteq> None \<Longrightarrow> machine_ok (end_value c (number (mode_acc m)) fs)"
    using number_value_ok [OF assms(2)] assms(3,4) by (intro end_value_ok) auto
  show ?thesis
    using assms(1) go stop by (cases m) auto
qed

lemma raw_ok_snoc_escape:
  "raw_ok (rev a) \<Longrightarrow> is_simple_escape e \<Longrightarrow> raw_ok (rev (e # CHR 0x5C # a))"
  using raw_ok_append [of "rev a" "[CHR 0x5C, e]"]
  by (auto simp: raw_ok_simple is_simple_escape_def)

lemma raw_ok_snoc_hex:
  assumes "raw_ok (rev a)" "list_all is_hex hs" "length hs = 4"
  shows "raw_ok (rev (hs @ CHR ''u'' # CHR 0x5C # a))"
proof -
  from assms(3) obtain h1 h2 h3 h4 where hs: "hs = [h4, h3, h2, h1]"
    by (auto simp: eval_nat_numeral length_Suc_conv)
  with assms(1,2) raw_ok_append [of "rev a" "[CHR 0x5C, CHR ''u'', h1, h2, h3, h4]"]
  show ?thesis by (simp add: raw_ok_u)
qed

lemma raw_ok_snoc:
  "raw_ok (rev a) \<Longrightarrow> c \<noteq> CHR 0x5C \<Longrightarrow> c \<noteq> CHR 0x22 \<Longrightarrow> \<not> byte c < 32 \<Longrightarrow> raw_ok (rev (c # a))"
  using raw_ok_append [of "rev a" "[c]"] by (simp add: raw_ok_plain)

lemma hex_step_ok:
  assumes "mode_ok (InHex k acc) n" "is_hex c"
  shows "mode_ok (if k \<le> 1 then InString (c # acc) else InHex (k - 1) (c # acc)) n'"
proof -
  from assms(1) obtain a hs where a: "acc = hs @ CHR ''u'' # CHR 0x5C # a" "raw_ok (rev a)"
    "list_all is_hex hs" "length hs + k = 4" "1 \<le> k" by auto
  show ?thesis
  proof (cases "k \<le> 1")
    case True
    with a assms(2) raw_ok_snoc_hex [of a "c # hs"] show ?thesis by simp
  next
    case False
    have "c # acc = (c # hs) @ CHR ''u'' # CHR 0x5C # a \<and> raw_ok (rev a) \<and>
        list_all is_hex (c # hs) \<and> length (c # hs) + (k - 1) = 4 \<and> 1 \<le> k - 1"
      using False a assms(2) by simp
    then have "mode_ok (InHex (k - 1) (c # acc)) n'"
      unfolding mode_ok.simps by (intro exI [of _ a] exI [of _ "c # hs"])
    with False show ?thesis by simp
  qed
qed

lemma end_string_ok:
  assumes "raw_ok raw" "frames_ok fs" "length fs \<le> max_depth"
  shows "machine_ok (end_string raw fs)"
  using assms by (cases fs rule: frames_ok.cases) (auto simp: end_string_def value_ok_def)

lemma frames_ok_tl: "frames_ok fs \<Longrightarrow> frames_ok (tl fs)"
  by (cases fs rule: frames_ok.cases) auto

lemma empty_value_ok: "length fs \<le> max_depth \<Longrightarrow> value_ok (JArr []) (length (tl fs)) \<and> value_ok (JObj []) (length (tl fs))"
  by (cases fs) (auto simp: value_ok_def max_depth_def)

lemma scan_step_ok:
  assumes "mode_ok m (length fs)" "frames_ok fs" "length fs \<le> max_depth"
  shows "machine_ok (scan_step c m fs)"
proof (cases "number_mode m")
  case True
  then have "num_run (rev (mode_acc m)) = Some m" using assms(1) by (cases m) auto
  with True assms show ?thesis by (intro number_step_ok)
next
  case False
  note b = begin_value_ok [OF assms(2,3), of c] and t = frames_ok_tl [OF assms(2)]
    and e = empty_value_ok [OF assms(3)]
  show ?thesis
  proof (cases m)
    case (InEscape acc)
    with assms(1) obtain a where a: "acc = CHR 0x5C # a" "raw_ok (rev a)" by auto
    have "mode_ok (InHex 4 (CHR ''u'' # acc)) (length fs)"
      using a by (auto intro!: exI [of _ a] exI [of _ "[]"])
    with InEscape a assms raw_ok_snoc_escape [of a c] show ?thesis by simp
  next
    case (InHex k acc)
    with hex_step_ok [OF assms(1) [unfolded InHex]] assms(2,3) show ?thesis by simp
  next
    case (InString acc)
    with assms raw_ok_snoc [of acc c] end_string_ok [of "rev acc" fs] show ?thesis by auto
  next
    case (AfterKey k)
    with assms show ?thesis by (cases fs rule: frames_ok.cases) auto
  next
    case (EndValue v)
    with assms end_value_ok show ?thesis by simp
  qed (use assms b t e False in \<open>auto split: list.splits\<close>)
qed

lemma scan_ok: "machine_ok mc \<Longrightarrow> machine_ok (scan mc s)"
proof (induction mc s rule: scan.induct)
  case (3 m fs c cs)
  then have "machine_ok (scan_step c m fs)" by (intro scan_step_ok) auto
  with "3.IH" show ?case by simp
qed simp_all

lemma settled_ok: "mode_ok m n \<Longrightarrow> n \<le> max_depth \<Longrightarrow> settled m = Some v \<Longrightarrow> value_ok v n"
  by (cases m) (auto intro: number_value_ok)

lemma parse_wf: "parse_json s = Some v \<Longrightarrow> wf_json v \<and> json_depth v \<le> max_depth"
proof -
  assume p: "parse_json s = Some v"
  have "machine_ok (scan (Some (BeginValue, [])) s)" by (rule scan_ok) simp
  with p settled_ok show ?thesis
    by (fastforce simp: parse_json_def value_ok_def split: option.splits prod.splits list.splits)
qed

end
