(* ===== verification/GoJsonDecode.thy ===== *)
theory GoJsonDecode
  imports GoJsonWf
begin

text \<open>
  \<open>json.Unmarshal\<close> into structs and maps: field matching (exact or by case folding, the last
  occurrence winning), \<open>null\<close> leaving a scalar as it is, and a type mismatch recorded as an error
  while the remaining fields are still decoded. A decoder returns the decoded value together
  with whether no error was recorded, as Go fills its destination in both cases.
\<close>

section \<open>Field matching\<close>

definition upper :: "char \<Rightarrow> char" where
  "upper c = (if 97 \<le> byte c \<and> byte c \<le> 122 then char_of (byte c - 32) else c)"

text \<open>\<open>foldName\<close>: ASCII letters fold to upper case; U+017F and U+212A are the only other code
  points that fold to ASCII letters.\<close>

function fold_name :: "string \<Rightarrow> string" where
  "fold_name [] = []"
| "fold_name (c # cs) =
     (if byte c < 128 then upper c # fold_name cs
      else if take 2 (c # cs) = [CHR 0xC5, CHR 0xBF] then CHR ''S'' # fold_name (drop 1 cs)
      else if take 3 (c # cs) = [CHR 0xE2, CHR 0x84, CHR 0xAA] then CHR ''K'' # fold_name (drop 2 cs)
      else c # fold_name cs)"
  by pat_completeness auto
termination
  by (relation "measure length") auto

declare fold_name.simps(2) [simp del]

definition field_values :: "string \<Rightarrow> (string \<times> json) list \<Rightarrow> json list" where
  "field_values name ms = map snd (filter (\<lambda>m. fold_name (unquote (fst m)) = fold_name name) ms)"

section \<open>Scalars\<close>

fun dec_scalar :: "(json \<Rightarrow> 'a option) \<Rightarrow> 'a \<Rightarrow> json list \<Rightarrow> 'a \<times> bool" where
  "dec_scalar p cur [] = (cur, True)"
| "dec_scalar p cur (v # vs) =
     (if v = JNull then dec_scalar p cur vs
      else (case p v of
              Some x \<Rightarrow> dec_scalar p x vs
            | None \<Rightarrow> (fst (dec_scalar p cur vs), False)))"

fun as_string :: "json \<Rightarrow> string option" where
  "as_string (JStr raw) = Some (unquote raw)"
| "as_string _ = None"

fun as_int64 :: "json \<Rightarrow> int option" where
  "as_int64 (JNum lit) = parse_int64 lit"
| "as_int64 _ = None"

fun as_bool :: "json \<Rightarrow> bool option" where
  "as_bool (JBool b) = Some b"
| "as_bool _ = None"

abbreviation "get_string name ms \<equiv> dec_scalar as_string [] (field_values name ms)"
abbreviation "get_int64 name ms \<equiv> dec_scalar as_int64 0 (field_values name ms)"
abbreviation "get_bool name ms \<equiv> dec_scalar as_bool False (field_values name ms)"

text \<open>Unmarshalling into \<open>map[string]json.RawMessage\<close>: keys are compared exactly and a later
  duplicate replaces an earlier one.\<close>

type_synonym raw_map = "(string \<times> json) list"

fun map_put :: "string \<Rightarrow> json \<Rightarrow> raw_map \<Rightarrow> raw_map" where
  "map_put k v [] = [(k, v)]"
| "map_put k v ((k', v') # r) = (if k = k' then (k, v) # r else (k', v') # map_put k v r)"

fun dec_map :: "(string \<times> json) list \<Rightarrow> raw_map \<Rightarrow> raw_map" where
  "dec_map [] acc = acc"
| "dec_map ((k, v) # ms) acc = dec_map ms (map_put (unquote k) v acc)"

text \<open>\<open>json.Marshal\<close> of such a map sorts its keys.\<close>

definition enc_map :: "raw_map \<Rightarrow> json" where
  "enc_map m = JObj (map (\<lambda>e. (escape (fst e), snd e)) (sort_key fst m))"

definition enc_string :: "string \<Rightarrow> json" where "enc_string s = JStr (escape s)"
definition enc_int :: "int \<Rightarrow> json" where "enc_int i = JNum (show_int i)"

section \<open>Struct tags\<close>

text \<open>A field name of the program's structs: lower-case letters and underscores. On such names
  folding decides equality exactly.\<close>

definition name_char :: "char \<Rightarrow> bool" where
  "name_char c \<longleftrightarrow> c = CHR ''_'' \<or> (97 \<le> byte c \<and> byte c \<le> 122)"

definition plain_name :: "string \<Rightarrow> bool" where "plain_name s \<longleftrightarrow> list_all name_char s"

lemma name_char_ascii: "name_char c \<Longrightarrow> byte c < 128 \<and> c \<noteq> CHR 0x5C"
  by (auto simp: name_char_def byte_def)

lemma unquote_plain: "plain_name s \<Longrightarrow> unquote s = s"
  by (induction s) (auto simp: plain_name_def unquote_ascii name_char_ascii)

lemma upper_inject:
  assumes "name_char c" "name_char d" "upper c = upper d"
  shows "c = d"
proof -
  have "byte (upper c) = (if c = CHR ''_'' then 95 else byte c - 32)" if "name_char c" for c
    using that by (auto simp: upper_def name_char_def byte_char_of) (auto simp: byte_def)
  with assms have "(if c = CHR ''_'' then 95 else byte c - 32) = (if d = CHR ''_'' then 95 else byte d - 32)"
    by metis
  with assms(1,2) show ?thesis
    by (auto simp: name_char_def byte_inject [symmetric] split: if_splits)
qed

lemma fold_name_inject:
  "plain_name s \<Longrightarrow> plain_name t \<Longrightarrow> fold_name s = fold_name t \<longleftrightarrow> s = t"
proof (induction s arbitrary: t)
  case Nil
  then show ?case by (cases t) (auto simp: plain_name_def fold_name.simps name_char_ascii)
next
  case (Cons c s)
  then show ?case
    by (cases t) (auto simp: plain_name_def fold_name.simps name_char_ascii dest: upper_inject)
qed

lemma field_values_Nil [codec_simps]: "field_values name [] = []"
  by (simp add: field_values_def)

lemma field_values_Cons [codec_simps]:
  "plain_name name \<Longrightarrow> plain_name k \<Longrightarrow>
   field_values name ((k, v) # ms) = (if k = name then v # field_values name ms else field_values name ms)"
  by (auto simp: field_values_def unquote_plain fold_name_inject)

lemma dec_scalar_one [codec_simps]:
  "v \<noteq> JNull \<Longrightarrow> p v = Some x \<Longrightarrow> dec_scalar p cur [v] = (x, True)"
  by simp

section \<open>Literals the program writes\<close>

lemma enc_string_simps [codec_simps]:
  "enc_string s \<noteq> JNull" "valid_utf8 s \<Longrightarrow> as_string (enc_string s) = Some s" "wf_json (enc_string s)"
  "json_depth (enc_string s) = 0"
  by (simp_all add: enc_string_def unquote_escape raw_ok_escape)

text \<open>Decimal integers are JSON numbers.\<close>

lemma digit_not_other: "is_digit c \<Longrightarrow> c \<noteq> CHR ''{'' \<and> c \<noteq> CHR ''['' \<and> c \<noteq> CHR 0x22 \<and> c \<noteq> CHR ''-''"
  by (auto simp: is_digit_def byte_def)

lemma num_scan_digits: "list_all is_digit s \<Longrightarrow> num_scan (NumInt acc) s = Some (NumInt (rev s @ acc))"
  by (induction s arbitrary: acc) auto

lemma show_nat_first:
  "\<exists>c cs. show_nat n = c # cs \<and> is_digit c \<and> list_all is_digit cs \<and> (c = CHR ''0'' \<longrightarrow> cs = [])"
proof (induction n rule: show_nat.induct)
  case (1 n)
  show ?case
  proof (cases "n < 10")
    case True
    then show ?thesis by (subst show_nat.simps) (simp add: is_digit_digit_char)
  next
    case False
    with 1 obtain c cs where c: "show_nat (n div 10) = c # cs" "is_digit c" "list_all is_digit cs"
      "c = CHR ''0'' \<longrightarrow> cs = []" by auto
    have "c \<noteq> CHR ''0''"
    proof
      assume "c = CHR ''0''"
      with c have "digits_value 0 (show_nat (n div 10)) = 0" by (simp add: byte_def)
      with False show False by (simp add: digits_value_show_nat)
    qed
    with c False show ?thesis by (subst show_nat.simps) (simp add: is_digit_digit_char)
  qed
qed

lemma num_ok_show_nat: "num_ok (show_nat n)"
proof -
  obtain c cs where "show_nat n = c # cs" "is_digit c" "list_all is_digit cs" "c = CHR ''0'' \<longrightarrow> cs = []"
    using show_nat_first by blast
  then show ?thesis
    by (cases "c = CHR ''0''")
       (auto simp: num_ok_def num_run_def begin_value_def num_scan_digits digit_not_other)
qed

lemma num_ok_show_int: "num_ok (show_int i)"
proof (cases "i < 0")
  case True
  obtain c cs where "show_nat (nat (- i)) = c # cs" "is_digit c" "list_all is_digit cs"
    "c = CHR ''0'' \<longrightarrow> cs = []"
    using show_nat_first by blast
  with True show ?thesis
    by (cases "c = CHR ''0''")
       (auto simp: show_int_def num_ok_def num_run_def begin_value_def num_scan_digits)
qed (simp add: show_int_def num_ok_show_nat)

lemma enc_int_simps [codec_simps]:
  "enc_int i \<noteq> JNull" "in_int64 i \<Longrightarrow> as_int64 (enc_int i) = Some i" "wf_json (enc_int i)"
  "json_depth (enc_int i) = 0" "html_tree (enc_int i) = enc_int i"
  by (simp_all add: enc_int_def parse_int64_show_int num_ok_show_int)

section \<open>Escaped strings contain nothing to escape again\<close>

lemma html_escape_cont:
  "list_all (\<lambda>d. 128 \<le> byte d \<and> byte d < 192) s \<Longrightarrow> html_escape (s @ r) = s @ html_escape r"
proof (induction s)
  case (Cons d s)
  then have "line_sep (d # s @ r) = None" and "d \<notin> {CHR ''<'', CHR ''>'', CHR ''&''}"
    by (auto simp: line_sep_def byte_def)
  with Cons show ?case by (auto simp: html_escape.simps)
qed simp

lemma multibyte_cont:
  assumes "\<not> byte c < 128"
  shows "list_all (\<lambda>d. 128 \<le> byte d \<and> byte d < 192) (take (rune_width (c # cs) - 1) cs)"
proof -
  have second: "second_ok b d \<Longrightarrow> 128 \<le> byte d \<and> byte d < 192" for b d
    by (auto simp: second_ok_def is_cont_def split: if_splits)
  have cont: "is_cont d \<Longrightarrow> 128 \<le> byte d \<and> byte d < 192" for d
    by (simp add: is_cont_def)
  show ?thesis
    using assms second cont
    by (cases "c # cs" rule: rune_width.cases) (auto simp: lead_width_1)
qed

lemma line_sep_take: "take 3 s = take 3 t \<Longrightarrow> line_sep s = line_sep t"
  by (simp add: line_sep_def)

lemma html_escape_multibyte:
  assumes "\<not> byte c < 128" "rune_width (c # cs) \<noteq> 0" "line_sep (c # cs) = None"
  shows "html_escape (c # take (rune_width (c # cs) - 1) cs @ r) =
    c # take (rune_width (c # cs) - 1) cs @ html_escape r"
proof -
  let ?n = "rune_width (c # cs)"
  have "line_sep (c # take (?n - 1) cs @ r) = None"
  proof (cases "c = CHR 0xE2")
    case True
    have "?n = 3"
      using assms(1,2) True
      by (cases "c # cs" rule: rune_width.cases) (auto simp: lead_width_def byte_def split: if_splits)
    moreover from this have "2 \<le> length cs" using rune_width_le [of "c # cs"] by simp
    ultimately have "take 3 (c # take (?n - 1) cs @ r) = take 3 (c # cs)" by simp
    from line_sep_take [OF this] assms(3) show ?thesis by simp
  qed (simp add: line_sep_def)
  moreover have "c \<noteq> CHR ''<'' \<and> c \<noteq> CHR ''>'' \<and> c \<noteq> CHR ''&''"
    using assms(1) by (auto simp: byte_def)
  ultimately show ?thesis
    using html_escape_cont [OF multibyte_cont [OF assms(1)]] by (simp add: html_escape.simps)
qed

lemma html_escape_escape: "html_escape (escape s) = escape s"
proof (induction s rule: escape.induct)
  case 1
  then show ?case by simp
next
  case (2 c cs)
  have u: "html_escape (u00 n @ r) = u00 n @ html_escape r" if "n < 256" for n r
  proof -
    have "n div 16 < 16" "n mod 16 < 16" using that by auto
    then show ?thesis unfolding u00_def append.simps by (intro html_escape_u) (auto simp: hex_digit_ok)
  qed
  have ascii: "html_escape (escape_ascii c @ r) = escape_ascii c @ html_escape r" if "byte c < 128" for r
    using that by (auto simp: escape_ascii_def u byte_less is_simple_escape_html is_simple_escape_def
        html_escape_ascii)
  have sep: "html_escape (e @ r) = e @ html_escape r" if "line_sep s = Some e" for e r s
    using that by (rule line_sep_cases) (auto simp: html_escape_u)
  have fffd: "html_escape (u_fffd @ r) = u_fffd @ html_escape r" for r
    unfolding u_fffd_def append.simps by (intro html_escape_u) (auto simp: is_hex_def byte_def)
  show ?case
  proof (cases "byte c < 128 \<or> rune_width (c # cs) = 0")
    case True
    with 2 ascii fffd show ?thesis by (auto simp: escape.simps)
  next
    case False
    then have a: "\<not> byte c < 128" and n: "rune_width (c # cs) \<noteq> 0" by auto
    show ?thesis
    proof (cases "line_sep (c # cs)")
      case None
      with html_escape_multibyte [OF a n None] "2.IH"(3) [OF a n None] a n
      show ?thesis by (simp add: escape.simps)
    next
      case (Some e)
      with sep [OF Some] "2.IH"(4) [OF a n Some] a n show ?thesis by (simp add: escape.simps)
    qed
  qed
qed

lemma html_tree_enc_string [codec_simps]: "html_tree (enc_string s) = enc_string s"
  by (simp add: enc_string_def html_escape_escape)

lemma html_escape_plain: "plain_name k \<Longrightarrow> html_escape k = k \<and> raw_ok k"
proof (induction k)
  case (Cons c k)
  then have "c \<notin> {CHR ''<'', CHR ''>'', CHR ''&'', CHR 0x22, CHR 0x5C}" "32 \<le> byte c" "byte c < 128"
    by (auto simp: plain_name_def name_char_def byte_def)
  with Cons show ?case by (simp add: plain_name_def html_escape_ascii raw_ok_plain)
qed simp

end
