(* ===== verification/GoJsonUtf8.thy ===== *)
theory GoJsonUtf8
  imports GoJsonPrint
begin

text \<open>
  Every string \<open>encoding/json\<close> decodes is valid UTF-8: escapes are encoded as UTF-8 and invalid
  bytes are replaced. With \<open>unquote_escape\<close> this makes decoded strings stable under a further
  encode and decode.
\<close>

section \<open>Encoded code points\<close>

lemma rune_valid_append:
  assumes "rune_width s = length s" "s \<noteq> []" "valid_utf8 t"
  shows "valid_utf8 (s @ t)"
proof (cases s)
  case (Cons c cs)
  with assms(1,2) have "rune_width (c # cs @ t) = Suc (length cs)"
    using rune_width_append [of s "Suc (length cs)" t] by simp
  with Cons assms(3) show ?thesis by (simp add: valid_utf8.simps)
qed (use assms in simp)

lemma width_encode_rune_2:
  fixes r :: nat
  assumes "128 \<le> r" "r < 2048"
  shows "rune_width [char_of (192 + r div 64), char_of (128 + r mod 64)] = 2"
proof -
  from assms have "2 \<le> r div 64" "r div 64 < 32" by auto
  then show ?thesis by (simp add: lead_width_def second_ok_def is_cont_def byte_char_of)
qed

lemma width_encode_rune_3:
  fixes r :: nat
  assumes "2048 \<le> r" "r < 65536" "\<not> (55296 \<le> r \<and> r \<le> 57343)"
  shows "rune_width [char_of (224 + r div 4096), char_of (128 + (r div 64) mod 64), char_of (128 + r mod 64)] = 3"
proof -
  let ?h = "r div 4096" and ?m = "(r div 64) mod 64"
  from assms(2) have h: "?h < 16" by auto
  have q: "r div 64 = 64 * ?h + ?m"
    using div_mult2_eq [of r 64 64] mult_div_mod_eq [of 64 "r div 64"] by simp
  have q1: "32 \<le> r div 64" using assms(1) by simp
  have q2: "r div 64 < 864 \<or> 896 \<le> r div 64" using assms(3) by auto
  have m: "?m < 64" by simp
  have low: "?h = 0 \<Longrightarrow> 32 \<le> ?m" using q q1 by linarith
  have sur: "?h = 13 \<Longrightarrow> ?m < 32" using q q2 m by linarith
  note m
  with h low sur show ?thesis
    by (auto simp: lead_width_def second_ok_def is_cont_def byte_char_of)
qed

lemma width_encode_rune_4:
  fixes r :: nat
  assumes "65536 \<le> r" "r \<le> 1114111"
  shows "rune_width [char_of (240 + r div 262144), char_of (128 + (r div 4096) mod 64),
    char_of (128 + (r div 64) mod 64), char_of (128 + r mod 64)] = 4"
proof -
  let ?h = "r div 262144" and ?m = "(r div 4096) mod 64"
  from assms(2) have h: "?h < 5" by auto
  have q: "r div 4096 = 64 * ?h + ?m"
    using div_mult2_eq [of r 4096 64] mult_div_mod_eq [of 64 "r div 4096"] by simp
  have q1: "16 \<le> r div 4096" using assms(1) by simp
  have q2: "r div 4096 \<le> 271" using assms(2) by auto
  have m: "?m < 64" by simp
  have low: "?h = 0 \<Longrightarrow> 16 \<le> ?m" using q q1 by linarith
  have high: "?h = 4 \<Longrightarrow> ?m < 16" using q q2 by linarith
  note m
  with h low high show ?thesis
    by (auto simp: lead_width_def second_ok_def is_cont_def byte_char_of)
qed

lemma width_rune_error: "rune_width rune_error = 3"
  by (simp add: rune_error_def lead_width_def second_ok_def is_cont_def byte_def)

lemma width_encode_rune: "rune_width (encode_rune r) = length (encode_rune r)"
proof -
  consider "r < 128" | "128 \<le> r" "r < 2048" | "55296 \<le> r \<and> r \<le> 57343 \<or> 1114111 < r"
    | "2048 \<le> r" "r < 65536" "\<not> (55296 \<le> r \<and> r \<le> 57343)" | "65536 \<le> r" "r \<le> 1114111"
    by linarith
  then show ?thesis
  proof cases
    case 1
    then show ?thesis by (simp add: encode_rune_def lead_width_def byte_char_of)
  next
    case 2
    with width_encode_rune_2 [of r] show ?thesis by (simp add: encode_rune_def del: rune_width.simps)
  next
    case 3
    then have "encode_rune r = rune_error" by (auto simp: encode_rune_def)
    then show ?thesis using width_rune_error by (simp add: rune_error_def del: rune_width.simps)
  next
    case 4
    then have "encode_rune r =
        [char_of (224 + r div 4096), char_of (128 + (r div 64) mod 64), char_of (128 + r mod 64)]"
      by (auto simp: encode_rune_def)
    with 4 width_encode_rune_3 [of r] show ?thesis by (simp del: rune_width.simps)
  next
    case 5
    with width_encode_rune_4 [of r] show ?thesis by (simp add: encode_rune_def del: rune_width.simps)
  qed
qed

lemma encode_rune_not_Nil: "encode_rune r \<noteq> []"
  by (simp add: encode_rune_def rune_error_def)

lemma valid_encode_rune: "valid_utf8 t \<Longrightarrow> valid_utf8 (encode_rune r @ t)"
  by (intro rune_valid_append width_encode_rune encode_rune_not_Nil)

lemma valid_rune_error: "valid_utf8 t \<Longrightarrow> valid_utf8 (rune_error @ t)"
  by (rule rune_valid_append) (simp_all add: width_rune_error, simp_all add: rune_error_def)

section \<open>Decoded strings\<close>

lemma width_take:
  assumes "rune_width (c # cs) \<noteq> 0"
  shows "rune_width (c # take (rune_width (c # cs) - 1) cs) = rune_width (c # cs)"
  using assms
  by (cases "c # cs" rule: rune_width.cases) (auto simp: numeral_eq_Suc split: if_splits)

lemma valid_copy:
  assumes "rune_width (c # cs) \<noteq> 0" "valid_utf8 t"
  shows "valid_utf8 (c # take (rune_width (c # cs) - 1) cs @ t)"
proof -
  let ?s = "c # take (rune_width (c # cs) - 1) cs"
  have "length ?s = rune_width (c # cs)"
    using rune_width_le [of "c # cs"] assms(1) by simp
  with width_take [OF assms(1)] have "rune_width ?s = length ?s" by simp
  from rune_valid_append [OF this _ assms(2)] show ?thesis by simp
qed

lemma unescape_ascii: "byte e < 128 \<Longrightarrow> byte (unescape e) < 128"
  by (auto simp: unescape_def byte_def)

lemma raw_ok_drop_high:
  "raw_ok (s @ t) \<Longrightarrow> list_all (\<lambda>d. 128 \<le> byte d) s \<Longrightarrow> raw_ok t"
  by (induction s) (auto simp: raw_ok_plain byte_ge_128_plain)

lemma raw_ok_drop_rune:
  assumes "raw_ok (c # cs)" "\<not> byte c < 128"
  shows "raw_ok (drop (rune_width (c # cs) - 1) cs)"
proof -
  let ?n = "rune_width (c # cs) - 1"
  have "(c # take ?n cs) @ drop ?n cs = c # cs" by simp
  with assms(1) have "raw_ok ((c # take ?n cs) @ drop ?n cs)" by simp
  then show ?thesis by (rule raw_ok_drop_high) (rule multibyte_high [OF assms(2)])
qed

lemma getu4_u: "is_hex h1 \<Longrightarrow> is_hex h2 \<Longrightarrow> is_hex h3 \<Longrightarrow> is_hex h4 \<Longrightarrow>
  \<exists>u. getu4 (CHR 0x5C # CHR ''u'' # h1 # h2 # h3 # h4 # r) = Some u"
  by (simp add: getu4_def)

lemma getu4_Some_drop:
  assumes "getu4 r = Some u" "raw_ok r"
  shows "raw_ok (drop 6 r)"
proof -
  from assms(1) obtain h1 h2 h3 h4 r' where "r = CHR 0x5C # CHR ''u'' # h1 # h2 # h3 # h4 # r'"
    by (auto simp: getu4_def split: list.splits if_splits)
  with assms(2) show ?thesis by (simp add: raw_ok_u)
qed

lemma valid_utf8_unquote: "raw_ok s \<Longrightarrow> valid_utf8 (unquote s)"
proof (induction s rule: length_induct)
  case (1 s)
  from "1.prems" show ?case
  proof (cases rule: raw_ok_cases)
    case (plain c cs)
    have tail: "valid_utf8 (unquote (drop n cs))" if "raw_ok (drop n cs)" for n
      using "1.IH" that plain(1) by simp
    from tail [of 0] plain(5) have cs: "valid_utf8 (unquote cs)" by simp
    show ?thesis
    proof (cases "byte c < 128")
      case True
      with plain cs show ?thesis by (simp add: unquote.simps valid_utf8_ascii)
    next
      case False
      with "1.prems" plain(1) have r: "raw_ok (drop (rune_width (c # cs) - 1) cs)"
        by (intro raw_ok_drop_rune) auto
      show ?thesis
        using plain False cs valid_copy [OF _ tail [OF r]]
        by (auto simp: unquote.simps intro: valid_rune_error)
    qed
  next
    case (simple e r)
    with "1.IH" have "valid_utf8 (unquote r)" by auto
    moreover have "byte (unescape e) < 128"
      using simple(3) by (intro unescape_ascii) (auto simp: is_simple_escape_def byte_def)
    ultimately show ?thesis using simple by (simp add: unquote_simple_escape valid_utf8_ascii)
  next
    case (hex h1 h2 h3 h4 r)
    then obtain u where u: "getu4 s = Some u" using getu4_u by blast
    have r: "valid_utf8 (unquote r)" using "1.IH" hex by auto
    show ?thesis
    proof (cases "Option.bind (getu4 r) (utf16_pair u)")
      case None
      with hex u r show ?thesis
        by (auto simp: unquote.simps intro: valid_rune_error valid_encode_rune)
    next
      case (Some p)
      then obtain v where "getu4 r = Some v" by (auto simp: bind_eq_Some_conv)
      then have "raw_ok (drop 6 r)" using hex(6) by (rule getu4_Some_drop)
      with "1.IH" hex(1) have "valid_utf8 (unquote (drop 6 r))" by simp
      with hex u r Some show ?thesis
        by (auto simp: unquote.simps intro: valid_rune_error valid_encode_rune)
    qed
  qed simp
qed

end
