(* ===== verification/GoJsonHtml.thy ===== *)
theory GoJsonHtml
  imports GoJsonDecode GoJsonUtf8
begin

text \<open>
  HTML escaping changes the spelling of literals, not what they decode to: a tree and its printed
  and re-read form decode to the same Go values.
\<close>

section \<open>Literals\<close>

definition cont_byte :: "char \<Rightarrow> bool" where
  "cont_byte d \<longleftrightarrow> 128 \<le> byte d \<and> byte d < 192"

lemma line_sep_first: "line_sep (c # cs) = Some e \<Longrightarrow> \<not> cont_byte c \<and> (\<exists>r. e = CHR 0x5C # r)"
  by (auto simp: line_sep_def cont_byte_def byte_def split: if_splits)

lemma html_escape_take_cont:
  "list_all cont_byte (take k (html_escape s)) \<Longrightarrow> k \<le> length (html_escape s) \<Longrightarrow>
   take k (html_escape s) = take k s \<and> k \<le> length s"
proof (induction s arbitrary: k rule: html_escape.induct)
  case (2 c cs)
  show ?case
  proof (cases k)
    case (Suc n)
    have bs: "\<not> cont_byte (CHR 0x5C)" by (simp add: cont_byte_def byte_def)
    have "c \<notin> {CHR ''<'', CHR ''>'', CHR ''&''}" and "line_sep (c # cs) = None"
      using "2.prems" Suc bs line_sep_first [of c cs]
      by (auto simp: html_escape.simps u00_def split: option.splits if_splits)
    moreover from this "2.prems" Suc have "list_all cont_byte (take n (html_escape cs))"
      "n \<le> length (html_escape cs)"
      by (auto simp: html_escape.simps)
    ultimately show ?thesis using "2.IH"(2) [of n] Suc by (auto simp: html_escape.simps)
  qed simp
qed simp

lemma rune_width_html_zero:
  assumes "\<not> byte c < 128" "rune_width (c # cs) = 0"
  shows "rune_width (c # html_escape cs) = 0"
proof (rule ccontr)
  let ?t = "html_escape cs"
  let ?n = "rune_width (c # ?t)"
  assume n: "?n \<noteq> 0"
  have l: "?n - 1 \<le> length ?t" using rune_width_le [of "c # ?t"] n by simp
  have "list_all cont_byte (take (?n - 1) ?t)"
    using multibyte_cont [OF assms(1), of ?t] by (simp add: cont_byte_def [abs_def])
  from html_escape_take_cont [OF this l]
  have t: "take (?n - 1) ?t = take (?n - 1) cs" by simp
  have "rune_width (c # take (?n - 1) ?t) = ?n" by (rule width_take) (rule n)
  then have "rune_width ((c # take (?n - 1) cs) @ drop (?n - 1) cs) = ?n"
    unfolding t by (rule rune_width_append) (rule n)
  with assms(2) n show False by simp
qed

lemma getu4_not_u: "e \<noteq> CHR ''u'' \<Longrightarrow> getu4 (CHR 0x5C # e # t) = None"
  unfolding getu4_def by (auto split: list.split)

lemma getu4_html:
  assumes "raw_ok r"
  shows "Option.bind (getu4 (html_escape r)) (utf16_pair u) = Option.bind (getu4 r) (utf16_pair u)"
proof -
  have small: "utf16_pair u v = None" if "v < 56320" for v
    using that by (simp add: utf16_pair_def)
  have u00: "Option.bind (getu4 (u00 n @ t)) (utf16_pair u) = None" if "n < 256" for n t
  proof -
    have h: "n div 16 < 16" "n mod 16 < 16" using that by auto
    from h have "getu4 (u00 n @ t) = Some n"
      by (simp add: u00_def getu4_def hex_digit_ok) (simp add: is_hex_def hex_value_def is_digit_def byte_def)
    with small [of n] that show ?thesis by simp
  qed
  from assms show ?thesis
  proof (cases rule: raw_ok_cases)
    case (plain c cs)
    have none: "getu4 r = None" using plain by (auto simp: getu4_def split: list.splits)
    show ?thesis
    proof (cases "c = CHR ''<'' \<or> c = CHR ''>'' \<or> c = CHR ''&''")
      case True
      with plain none u00 [of "byte c"] byte_less [of c] show ?thesis by (auto simp: html_escape.simps)
    next
      case False
      show ?thesis
      proof (cases "line_sep (c # cs)")
        case None
        with plain False have "getu4 (html_escape r) = None"
          by (auto simp: html_escape.simps getu4_def split: list.splits)
        with none show ?thesis by simp
      next
        case (Some e)
        then obtain x where e: "e = CHR 0x5C # CHR ''u'' # CHR ''2'' # CHR ''0'' # CHR ''2'' # [x]"
          "x = CHR ''8'' \<or> x = CHR ''9''" by (rule line_sep_cases)
        have g: "getu4 (e @ t) = Some 8232 \<or> getu4 (e @ t) = Some 8233" for t
          using e by (auto simp: getu4_def hex_value_def is_digit_def byte_def is_hex_def)
        have "html_escape r = e @ html_escape (drop 2 cs)"
          using Some False plain(1) by (simp add: html_escape.simps)
        with g [of "html_escape (drop 2 cs)"] small [of 8232] small [of 8233] none show ?thesis
          by (elim disjE) simp_all
      qed
    qed
  next
    case (simple e t)
    then have "e \<noteq> CHR ''u''" by (auto simp: is_simple_escape_def)
    then have g: "getu4 (CHR 0x5C # e # x) = None" for x by (rule getu4_not_u)
    from simple have "html_escape r = CHR 0x5C # e # html_escape t" by (simp add: is_simple_escape_html)
    with simple g show ?thesis by simp
  next
    case (hex h1 h2 h3 h4 t)
    then show ?thesis by (simp add: html_escape_u getu4_def)
  qed simp
qed

lemma unquote_html: "raw_ok s \<Longrightarrow> unquote (html_escape s) = unquote s"
proof (induction s rule: length_induct)
  case (1 s)
  from "1.prems" show ?case
  proof (cases rule: raw_ok_cases)
    case (plain c cs)
    have IH: "unquote (html_escape (drop n cs)) = unquote (drop n cs)" if "raw_ok (drop n cs)" for n
      using "1.IH" that plain(1) by simp
    from IH [of 0] plain(5) have cs: "unquote (html_escape cs) = unquote cs" by simp
    show ?thesis
    proof (cases "byte c < 128")
      case True
      with plain cs unquote_u00 [OF True] show ?thesis
        by (auto simp: html_escape.simps line_sep_ascii unquote_ascii)
    next
      case False
      then have esc: "c \<notin> {CHR ''<'', CHR ''>'', CHR ''&''}" by (auto simp: byte_def)
      have r: "raw_ok (drop (rune_width (c # cs) - 1) cs)"
        using raw_ok_drop_rune [OF _ False] "1.prems" plain(1) by simp
      show ?thesis
      proof (cases "line_sep (c # cs)")
        case (Some e)
        have w: "rune_width (c # cs) = 3" by (rule line_sep_width(1) [OF Some])
        with IH [OF r] have "unquote (html_escape (drop 2 cs)) = unquote (drop 2 cs)" by simp
        with Some esc plain(1) unquote_line_sep [OF Some]
        have "unquote (html_escape s) = take 3 (c # cs) @ unquote (drop 2 cs)"
          by (simp add: html_escape.simps)
        moreover have "unquote s = take 3 (c # cs) @ unquote (drop 2 cs)"
          using plain w False by (simp add: unquote.simps)
        ultimately show ?thesis by simp
      next
        case None
        show ?thesis
        proof (cases "rune_width (c # cs) = 0")
          case True
          with rune_width_html_zero [OF False True] None esc plain cs False show ?thesis
            by (simp add: html_escape.simps unquote.simps)
        next
          case w: False
          let ?n = "rune_width (c # cs) - 1"
          have "html_escape s = c # take ?n cs @ html_escape (drop ?n cs)"
            using html_escape_multibyte [OF False w None, of "drop ?n cs"] plain(1) by simp
          moreover have "s = c # take ?n cs @ drop ?n cs" using plain(1) by simp
          ultimately show ?thesis
            using unquote_multibyte [OF False w] IH [OF r] by metis
        qed
      qed
    qed
  next
    case (simple e r)
    with "1.IH" have "unquote (html_escape r) = unquote r" by auto
    with simple show ?thesis by (simp add: is_simple_escape_html unquote_simple_escape)
  next
    case (hex h1 h2 h3 h4 r)
    then obtain u where u: "\<And>t. getu4 (CHR 0x5C # CHR ''u'' # h1 # h2 # h3 # h4 # t) = Some u"
      by (auto simp: getu4_def)
    have r: "unquote (html_escape r) = unquote r" using "1.IH" hex by auto
    have b: "Option.bind (getu4 (html_escape r)) (utf16_pair u) = Option.bind (getu4 r) (utf16_pair u)"
      by (rule getu4_html [OF hex(6)])
    show ?thesis
    proof (cases "Option.bind (getu4 r) (utf16_pair u)")
      case None
      with b hex u r show ?thesis by (simp add: html_escape_u unquote.simps(2) [of "CHR 0x5C"])
    next
      case (Some p)
      then obtain v where v: "getu4 r = Some v" by (auto simp: bind_eq_Some_conv)
      then obtain k1 k2 k3 k4 r' where r': "r = CHR 0x5C # CHR ''u'' # k1 # k2 # k3 # k4 # r'"
        "is_hex k1" "is_hex k2" "is_hex k3" "is_hex k4"
        by (auto simp: getu4_def split: list.splits if_splits)
      with hex(6) have "raw_ok r'" by (simp add: raw_ok_u)
      with "1.IH" hex(1) r'(1) have "unquote (html_escape r') = unquote r'" by simp
      with Some b hex u r r' show ?thesis
        by (simp add: html_escape_u unquote.simps(2) [of "CHR 0x5C"])
    qed
  qed simp
qed

section \<open>Decoding\<close>

text \<open>Decoding a struct from a tree and from its HTML-escaped copy gives the same value.\<close>

lemma html_tree_JNull: "html_tree v = JNull \<longleftrightarrow> v = JNull"
  by (cases v) auto

lemma field_values_html:
  "list_all (\<lambda>m. raw_ok (fst m)) ms \<Longrightarrow>
   field_values name (map (\<lambda>m. (html_escape (fst m), html_tree (snd m))) ms) = map html_tree (field_values name ms)"
  by (induction ms) (auto simp: field_values_def unquote_html)

lemma as_string_html: "wf_json v \<Longrightarrow> as_string (html_tree v) = as_string v"
  by (cases v) (auto simp: unquote_html)

lemma as_int64_html: "as_int64 (html_tree v) = as_int64 v"
  by (cases v) auto

lemma as_bool_html: "as_bool (html_tree v) = as_bool v"
  by (cases v) auto

lemma dec_scalar_html:
  "\<forall>v \<in> set vs. p (html_tree v) = p v \<Longrightarrow> dec_scalar p cur (map html_tree vs) = dec_scalar p cur vs"
  by (induction p cur vs rule: dec_scalar.induct) (auto simp: html_tree_JNull split: option.splits)

lemma field_values_wf:
  "wf_json (JObj ms) \<Longrightarrow> v \<in> set (field_values name ms) \<Longrightarrow> wf_json v"
  by (auto simp: field_values_def list_all_iff)

lemma get_html:
  assumes "wf_json (JObj ms)"
  defines "hs \<equiv> map (\<lambda>m. (html_escape (fst m), html_tree (snd m))) ms"
  shows "get_string name hs = get_string name ms" "get_int64 name hs = get_int64 name ms"
    "get_bool name hs = get_bool name ms"
proof -
  have f: "field_values name hs = map html_tree (field_values name ms)"
    unfolding hs_def using assms(1) by (intro field_values_html) (auto simp: list_all_iff)
  show "get_string name hs = get_string name ms"
    unfolding f using field_values_wf [OF assms(1)] by (intro dec_scalar_html) (auto simp: as_string_html)
  show "get_int64 name hs = get_int64 name ms" "get_bool name hs = get_bool name ms"
    unfolding f by (rule dec_scalar_html, simp add: as_int64_html as_bool_html)+
qed

section \<open>What a decoded scalar can be\<close>

lemma dec_scalar_in:
  "fst (dec_scalar p cur vs) = cur \<or> (\<exists>v \<in> set vs. p v = Some (fst (dec_scalar p cur vs)))"
  by (induction vs arbitrary: cur) (auto split: option.splits, metis+)

lemma get_int64_in: "in_int64 (fst (dec_scalar as_int64 0 vs))"
proof -
  have "in_int64 i" if "as_int64 v = Some i" for v i
    using that by (cases v) (auto simp: parse_int64_def Let_def split: prod.splits if_splits)
  with dec_scalar_in [of as_int64 0 vs] show ?thesis
    by (auto simp: in_int64_def min_int64_def max_int64_def)
qed

lemma in_int64_0: "in_int64 0"
  by (simp add: in_int64_def min_int64_def max_int64_def)

end
