(* ===== verification/AuthTypes.thy ===== *)
theory AuthTypes
  imports GoErrors GoJsonHtml
begin

text \<open>
  The data of a session: \<open>AuthTokens\<close> and \<open>DeviceAuth\<close> (types.go), \<open>PendingDeviceAuth\<close> and
  \<open>AuthStorageState\<close> (storage.go), their validation and preparation (storage_codec.go), and
  their JSON form. Pointers to these structs are options; the clones the code makes of them
  (\<open>cloneAuth\<close>, \<open>clonePending\<close>) are the values themselves, since HOL values cannot be aliased.
\<close>

section \<open>Structs\<close>

record auth_tokens =
  at_access_token :: string
  at_refresh_token :: string
  at_expires_in :: int
  at_token_type :: string
  at_expires_at :: int

record pending_device_auth =
  pd_device_code :: string
  pd_interval :: int
  pd_expires_at :: int
  pd_verification_url :: string
  pd_phrase :: string

record device_auth =
  da_device_code :: string
  da_user_code :: string
  da_verification_url :: string
  da_verification_url_complete :: string
  da_expires_in :: int
  da_expires_at :: int
  da_interval :: int

type_synonym generation = "64 word"

record auth_storage_state =
  st_auth :: "auth_tokens option"
  st_pending :: "pending_device_auth option"
  st_generation :: generation

definition empty_state :: auth_storage_state where
  "empty_state = \<lparr>st_auth = None, st_pending = None, st_generation = 0\<rparr>"

definition sameAuthTokens :: "auth_tokens option \<Rightarrow> auth_tokens option \<Rightarrow> bool" where
  "sameAuthTokens a b \<longleftrightarrow>
     (case (a, b) of (None, None) \<Rightarrow> True | (Some x, Some y) \<Rightarrow> x = y | _ \<Rightarrow> False)"

lemma sameAuthTokens_iff [simp]: "sameAuthTokens a b \<longleftrightarrow> a = b"
  by (cases a; cases b) (simp_all add: sameAuthTokens_def)

section \<open>Generations\<close>

definition nextGeneration :: "generation \<Rightarrow> generation" where
  "nextGeneration current = (if current = 18446744073709551615 then 1 else current + 1)"

lemma nextGeneration_nonzero: "nextGeneration g \<noteq> 0"
proof
  assume "nextGeneration g = 0"
  then have "g \<noteq> 18446744073709551615" and "g + 1 = 0"
    by (auto simp: nextGeneration_def split: if_splits)
  then have "g = - 1" by (simp add: eq_neg_iff_add_eq_0)
  with \<open>g \<noteq> 18446744073709551615\<close> show False by simp
qed

lemma nextGeneration_neq: "nextGeneration g \<noteq> g"
  by (simp add: nextGeneration_def)

section \<open>Validation and preparation\<close>

definition auth_fields_ok :: "auth_tokens \<Rightarrow> bool" where
  "auth_fields_ok a \<longleftrightarrow>
     \<not> (at_access_token a = [] \<or> at_refresh_token a = [] \<or> at_token_type a = [] \<or>
        at_expires_in a \<le> 0 \<or> at_expires_at a < 0)"

definition validateAuth :: "auth_tokens option \<Rightarrow> (go_error, auth_tokens) result" where
  "validateAuth auth =
     (case auth of
        None \<Rightarrow> Inl (invalid_argument ''auth tokens are required'')
      | Some a \<Rightarrow>
          (if \<not> auth_fields_ok a
           then Inl (invalid_argument ''auth tokens contain missing or invalid fields'')
           else Inr a))"

definition pending_fields_ok :: "pending_device_auth \<Rightarrow> bool" where
  "pending_fields_ok p \<longleftrightarrow>
     \<not> (pd_device_code p = [] \<or> pd_interval p \<le> 0 \<or> pd_expires_at p \<le> 0 \<or>
        pd_verification_url p = [] \<or> pd_phrase p = [])"

definition validatePending :: "pending_device_auth option \<Rightarrow> go_error option" where
  "validatePending pending =
     (case pending of
        None \<Rightarrow> Some (invalid_argument ''pending device auth is required'')
      | Some p \<Rightarrow>
          (if \<not> pending_fields_ok p
           then Some (invalid_argument ''pending device auth contains missing or invalid fields'')
           else None))"

definition preparePending :: "pending_device_auth option \<Rightarrow> (go_error, pending_device_auth option) result" where
  "preparePending pending =
     (case validatePending pending of Some e \<Rightarrow> Inl e | None \<Rightarrow> Inr pending)"

text \<open>Go's integer division truncates towards zero.\<close>

definition go_div :: "int \<Rightarrow> int \<Rightarrow> int" where
  "go_div a b = (if (a < 0) \<noteq> (b < 0) then - (\<bar>a\<bar> div \<bar>b\<bar>) else \<bar>a\<bar> div \<bar>b\<bar>)"

text \<open>\<open>now\<close> is \<open>time.Now().UnixMilli()\<close>.\<close>

definition prepareAuth :: "int \<Rightarrow> auth_tokens option \<Rightarrow> (go_error, auth_tokens) result" where
  "prepareAuth now auth =
     (case validateAuth auth of
        Inl e \<Rightarrow> Inl e
      | Inr copy \<Rightarrow>
          (if at_expires_at copy = 0 then
             (if at_expires_in copy > go_div (wrap64 (max_int64 - now)) 1000
              then Inl (invalid_argument ''auth token expiry overflows epoch milliseconds'')
              else Inr (copy\<lparr>at_expires_at := wrap64 (now + wrap64 (at_expires_in copy * 1000))\<rparr>))
           else Inr copy))"

definition prepareStorageSnapshot ::
  "int \<Rightarrow> auth_storage_state option \<Rightarrow>
   (go_error, auth_tokens option \<times> pending_device_auth option) result" where
  "prepareStorageSnapshot now state =
     (case state of
        None \<Rightarrow> Inl (invalid_argument ''auth storage state is required'')
      | Some s \<Rightarrow>
          (case (case st_auth s of None \<Rightarrow> Inr None | Some a \<Rightarrow> map_sum id Some (prepareAuth now (Some a))) of
             Inl e \<Rightarrow> Inl e
           | Inr auth \<Rightarrow>
               (case (case st_pending s of None \<Rightarrow> Inr None | Some p \<Rightarrow> preparePending (Some p)) of
                  Inl e \<Rightarrow> Inl e
                | Inr pending \<Rightarrow> Inr (auth, pending))))"

text \<open>The whole snapshot a transaction commits.\<close>

definition prepared_state :: "int \<Rightarrow> auth_storage_state \<Rightarrow> (go_error, auth_storage_state) result" where
  "prepared_state now s =
     (case prepareStorageSnapshot now (Some s) of
        Inl e \<Rightarrow> Inl e
      | Inr (auth, pending) \<Rightarrow> Inr (s\<lparr>st_auth := auth, st_pending := pending\<rparr>))"

section \<open>Well-formed sessions\<close>

text \<open>What a stored session satisfies: every committed credential has its fields and an absolute
  expiry in the \<open>int64\<close> range.\<close>

definition auth_wf :: "auth_tokens \<Rightarrow> bool" where
  "auth_wf a \<longleftrightarrow> auth_fields_ok a \<and> at_expires_at a \<noteq> 0"

definition state_wf :: "auth_storage_state \<Rightarrow> bool" where
  "state_wf s \<longleftrightarrow> (\<forall>a. st_auth s = Some a \<longrightarrow> auth_fields_ok a) \<and>
     (\<forall>p. st_pending s = Some p \<longrightarrow> pending_fields_ok p)"

lemma validateAuth_ok: "validateAuth (Some a) = Inr b \<longleftrightarrow> auth_fields_ok a \<and> b = a"
  by (auto simp: validateAuth_def)

lemma prepareAuth_fixed: "auth_wf a \<Longrightarrow> prepareAuth now (Some a) = Inr a"
  by (simp add: prepareAuth_def validateAuth_def auth_wf_def)

lemma go_div_pos: "0 \<le> a \<Longrightarrow> 0 < b \<Longrightarrow> go_div a b = a div b"
  by (simp add: go_div_def)

text \<open>The overflow check of \<open>prepareAuth\<close> is exact: a computed expiry never wraps.\<close>

lemma prepareAuth_expiry:
  assumes "prepareAuth now (Some a) = Inr b" and "at_expires_at a = 0" and "0 \<le> now" and "now \<le> max_int64"
  shows "at_expires_at b = now + at_expires_in a * 1000" "at_expires_at b \<le> max_int64"
    "0 < at_expires_at b" "auth_wf b"
proof -
  let ?d = "max_int64 - now"
  have d: "wrap64 ?d = ?d"
    using assms(3,4) by (intro wrap64_id) (simp add: in_int64_def min_int64_def max_int64_def)
  from assms(1) have ok: "auth_fields_ok a"
    by (auto simp: prepareAuth_def validateAuth_def split: if_splits)
  from assms(1,2) d have le: "at_expires_in a \<le> ?d div 1000"
    and b: "b = a\<lparr>at_expires_at := wrap64 (now + wrap64 (at_expires_in a * 1000))\<rparr>"
    using assms(3,4) by (auto simp: prepareAuth_def validateAuth_def go_div_pos split: if_splits)
  from ok have pos: "0 < at_expires_in a" by (simp add: auth_fields_ok_def)
  from le have le': "at_expires_in a * 1000 \<le> ?d" by linarith
  with pos have i1: "in_int64 (at_expires_in a * 1000)" and i2: "in_int64 (now + at_expires_in a * 1000)"
    using assms(3,4) by (auto simp: in_int64_def min_int64_def max_int64_def)
  then have e: "at_expires_at b = now + at_expires_in a * 1000"
    using b by (simp add: wrap64_id)
  then show "at_expires_at b = now + at_expires_in a * 1000" .
  from e le' show "at_expires_at b \<le> max_int64" by linarith
  from e pos assms(3) show "0 < at_expires_at b" by linarith
  with b ok show "auth_wf b" by (simp add: auth_wf_def auth_fields_ok_def)
qed

lemma prepared_state_generation:
  "prepared_state now s = Inr t \<Longrightarrow> st_generation t = st_generation s"
  by (auto simp: prepared_state_def split: sum.splits)

lemma prepared_state_None:
  "st_auth s = None \<Longrightarrow> st_pending s = None \<Longrightarrow> prepared_state now s = Inr s"
  by (simp add: prepared_state_def prepareStorageSnapshot_def)

text \<open>A state whose credentials already carry their expiry is committed unchanged.\<close>

definition state_ready :: "auth_storage_state \<Rightarrow> bool" where
  "state_ready s \<longleftrightarrow> (\<forall>a. st_auth s = Some a \<longrightarrow> auth_wf a) \<and>
     (\<forall>p. st_pending s = Some p \<longrightarrow> pending_fields_ok p)"

lemma prepared_state_ready: "state_ready s \<Longrightarrow> prepared_state now s = Inr s"
  by (cases s; cases "st_auth s"; cases "st_pending s")
     (auto simp: prepared_state_def prepareStorageSnapshot_def state_ready_def prepareAuth_fixed
        preparePending_def validatePending_def)

lemma prepared_state_wf: "prepared_state now s = Inr t \<Longrightarrow> 0 \<le> now \<Longrightarrow> now \<le> max_int64 \<Longrightarrow> state_ready t"
proof -
  assume p: "prepared_state now s = Inr t" and n: "0 \<le> now" "now \<le> max_int64"
  have auth: "auth_wf b" if "prepareAuth now (Some a) = Inr b" for a b
  proof (cases "at_expires_at a = 0")
    case True
    with prepareAuth_expiry [OF that _ n] show ?thesis by simp
  next
    case False
    with that show ?thesis
      by (auto simp: prepareAuth_def validateAuth_def auth_wf_def split: if_splits)
  qed
  from p show ?thesis
    by (auto simp: prepared_state_def prepareStorageSnapshot_def state_ready_def preparePending_def
        validatePending_def map_sum_def split: sum.splits option.splits if_splits intro: auth)
qed

end
