(* ===== verification/World.thy ===== *)
theory World
  imports AuthTypes
begin

text \<open>
  What the program runs in: the clock, contexts, the memory of a \<open>MemoryStorage\<close>, the credential
  file and its lock, and the HTTP peer. Everything outside the program is a function the world
  carries (the clock readings, the faults of system calls, the replies of the network); an
  operation reads it at the current tick and advances the tick, so one function describes any
  behaviour of the environment, and the model stays executable.
\<close>

section \<open>Contexts\<close>

text \<open>A non-nil \<open>context.Context\<close>: the instant (in nanoseconds) from which it is done, if any, what
  \<open>ctx.Err()\<close> then returns and what \<open>context.Cause\<close> returns. A nil context is \<open>None\<close>.\<close>

record gctx =
  cx_done_at :: "int option"
  cx_err :: sentinel
  cx_cause :: go_error

type_synonym go_context = "gctx option"

definition ctx_done :: "gctx \<Rightarrow> int \<Rightarrow> bool" where
  "ctx_done c t = (case cx_done_at c of None \<Rightarrow> False | Some d \<Rightarrow> d \<le> t)"

definition background :: gctx where
  "background = \<lparr>cx_done_at = None, cx_err = ContextCanceled, cx_cause = Sentinel ContextCanceled\<rparr>"

definition seconds :: "int \<Rightarrow> int" where "seconds n = n * 1000000000"
definition unix_milli :: "int \<Rightarrow> int" where "unix_milli t = t div 1000000"

text \<open>\<open>context.WithDeadline\<close>.\<close>

definition with_deadline :: "gctx \<Rightarrow> int \<Rightarrow> gctx" where
  "with_deadline c d =
     (case cx_done_at c of
        Some d0 \<Rightarrow> if d0 \<le> d then c
                   else \<lparr>cx_done_at = Some d, cx_err = ContextDeadlineExceeded,
                         cx_cause = Sentinel ContextDeadlineExceeded\<rparr>
      | None \<Rightarrow> \<lparr>cx_done_at = Some d, cx_err = ContextDeadlineExceeded,
                 cx_cause = Sentinel ContextDeadlineExceeded\<rparr>)"

section \<open>Files\<close>

text \<open>A path holds a regular file with its bytes, its permission bits and whether the bytes have
  been fsynced, or something that is not a regular file.\<close>

datatype node = Regular string nat bool | Irregular

text \<open>The part of the file system one \<open>FileStorage\<close> uses: the credential file, the temporary
  files beside it (the newest first), the lock file, the existence of the directory and whether
  the directory entry has been fsynced.\<close>

record fsys =
  fs_file :: "node option"
  fs_temps :: "node list"
  fs_lock :: "node option"
  fs_dir :: bool
  fs_dir_synced :: bool

datatype fs_call =
    CLstat | CMkdirAll | CLockOpen | CLockStat | CLockChmod | CFlock | CUnlock
  | COpen | CStat | CChmod | CRead | CMarshal | CCreateTemp | CChmodTemp | CWrite | CSync
  | CCloseTemp | CRemoveTemp | CRename | CSyncDir | CRemove

section \<open>HTTP\<close>

record http_request =
  rq_method :: string
  rq_url :: string
  rq_headers :: "(string \<times> string) list"
  rq_body :: "string option"

text \<open>A response body: its bytes, the error of the stream after them, the error of \<open>Close\<close>.\<close>

record http_body =
  hb_data :: string
  hb_read_err :: "go_error option"
  hb_close_err :: "go_error option"

record http_response =
  rs_status :: int
  rs_headers :: "(string \<times> string) list"
  rs_body :: "http_body option"

type_synonym http_reply = "(go_error, http_response) result"

text \<open>A verbose log record holds metadata only.\<close>

record log_entry =
  lg_message :: string
  lg_method :: string
  lg_url :: string
  lg_attempt :: nat
  lg_header_names :: "string list"
  lg_status :: "int option"
  lg_body_bytes :: "nat option"

section \<open>The world\<close>

text \<open>\<open>w_rival\<close> is what other processes do to the files before this process gets the lock;
  \<open>w_busy\<close> how many attempts at \<open>flock\<close> find it held. \<open>w_choose\<close> is the case a \<open>select\<close> takes when
  several are ready; \<open>w_timers\<close> records the durations of the timers the program started.\<close>

record world =
  w_tick :: nat
  w_clock :: "nat \<Rightarrow> int"
  w_mem :: "auth_storage_state option"
  w_fs :: fsys
  w_fault :: "nat \<Rightarrow> fs_call \<Rightarrow> go_error option"
  w_busy :: "nat \<Rightarrow> nat"
  w_rival :: "nat \<Rightarrow> fsys \<Rightarrow> fsys"
  w_http :: "nat \<Rightarrow> http_request \<Rightarrow> http_reply"
  w_sent :: "http_request list"
  w_log :: "log_entry list"
  w_hostname :: "(go_error, string) result"
  w_choose :: "nat \<Rightarrow> bool"
  w_timers :: "int list"

definition tick :: "world \<Rightarrow> world" where "tick w = w\<lparr>w_tick := Suc (w_tick w)\<rparr>"

text \<open>\<open>time.Now()\<close>, in nanoseconds since the epoch.\<close>

definition time_now :: "world \<Rightarrow> int \<times> world" where
  "time_now w = (w_clock w (w_tick w), tick w)"

text \<open>\<open>contextFailure\<close> (auth_tokens.go): nil contexts are invalid arguments; a done context yields
  its cause.\<close>

definition contextFailure :: "go_context \<Rightarrow> world \<Rightarrow> go_error option \<times> world" where
  "contextFailure ctx w =
     (case ctx of
        None \<Rightarrow> (Some (invalid_argument ''context must not be nil''), w)
      | Some c \<Rightarrow> (let (t, w1) = time_now w in ((if ctx_done c t then Some (cx_cause c) else None), w1)))"

definition requireContext :: "go_context \<Rightarrow> world \<Rightarrow> go_error option \<times> world" where
  "requireContext ctx w =
     (case ctx of
        None \<Rightarrow> (Some (invalid_argument ''context must not be nil''), w)
      | Some c \<Rightarrow> contextFailure (Some c) w)"

lemma requireContext_eq: "requireContext = contextFailure"
  by (auto simp: fun_eq_iff requireContext_def contextFailure_def split: option.splits)

text \<open>\<open>detachedAuthContext\<close> (tokens.go): not cancelled with its parent, done 30 seconds from now.\<close>

definition detachedAuthOperationTimeout :: int where
  "detachedAuthOperationTimeout = seconds 30"

definition detachedAuthContext :: "go_context \<Rightarrow> world \<Rightarrow> go_context \<times> world" where
  "detachedAuthContext parent w =
     (let (t, w1) = time_now w
      in (Some (with_deadline background (t + detachedAuthOperationTimeout)), w1))"

text \<open>A system call that fails with the environment's error, if it has one.\<close>

definition sys :: "fs_call \<Rightarrow> world \<Rightarrow> go_error option \<times> world" where
  "sys call w = (w_fault w (w_tick w) call, tick w)"

section \<open>Frames\<close>

text \<open>What a storage operation may change: the tick, the memory and the files.\<close>

definition local_step :: "world \<Rightarrow> world \<Rightarrow> bool" where
  "local_step w w' \<longleftrightarrow>
     w_clock w' = w_clock w \<and> w_fault w' = w_fault w \<and> w_busy w' = w_busy w \<and>
     w_rival w' = w_rival w \<and> w_http w' = w_http w \<and> w_sent w' = w_sent w \<and>
     w_log w' = w_log w \<and> w_hostname w' = w_hostname w \<and> w_choose w' = w_choose w \<and>
     w_timers w' = w_timers w \<and> w_tick w \<le> w_tick w'"

text \<open>What an operation that only reads the environment changes: the tick.\<close>

definition ticks :: "world \<Rightarrow> world \<Rightarrow> bool" where
  "ticks w w' \<longleftrightarrow> local_step w w' \<and> w_mem w' = w_mem w \<and> w_fs w' = w_fs w"

text \<open>What everything outside the storage changes: the tick, the requests sent, the log, the timers.\<close>

definition outside_step :: "world \<Rightarrow> world \<Rightarrow> bool" where
  "outside_step w w' \<longleftrightarrow>
     w_mem w' = w_mem w \<and> w_fs w' = w_fs w \<and> w_clock w' = w_clock w \<and> w_fault w' = w_fault w \<and>
     w_busy w' = w_busy w \<and> w_rival w' = w_rival w \<and> w_http w' = w_http w \<and>
     w_hostname w' = w_hostname w \<and> w_choose w' = w_choose w \<and> w_tick w \<le> w_tick w'"

lemma outside_step_refl [simp, intro]: "outside_step w w"
  by (simp add: outside_step_def)

lemma outside_step_trans [trans]: "outside_step u v \<Longrightarrow> outside_step v w \<Longrightarrow> outside_step u w"
  by (simp add: outside_step_def)

lemma ticks_outside: "ticks w w' \<Longrightarrow> outside_step w w'"
  by (simp add: outside_step_def ticks_def local_step_def)

lemma local_step_refl [simp, intro]: "local_step w w"
  by (simp add: local_step_def)

lemma local_step_trans [trans]: "local_step u v \<Longrightarrow> local_step v w \<Longrightarrow> local_step u w"
  by (simp add: local_step_def)

lemma ticks_refl [simp, intro]: "ticks w w"
  by (simp add: ticks_def)

lemma ticks_trans [trans]: "ticks u v \<Longrightarrow> ticks v w \<Longrightarrow> ticks u w"
  by (auto simp: ticks_def intro: local_step_trans)

lemma ticks_local: "ticks w w' \<Longrightarrow> local_step w w'"
  by (simp add: ticks_def)

lemma ticks_tick [simp, intro]: "ticks w (tick w)"
  by (simp add: ticks_def local_step_def tick_def)

lemma local_stepD [world_simps]:
  assumes "local_step w w'"
  shows "w_clock w' = w_clock w" "w_fault w' = w_fault w" "w_busy w' = w_busy w"
    "w_rival w' = w_rival w" "w_http w' = w_http w" "w_sent w' = w_sent w"
    "w_log w' = w_log w" "w_hostname w' = w_hostname w" "w_choose w' = w_choose w"
    "w_timers w' = w_timers w" "w_tick w \<le> w_tick w'"
  using assms by (simp_all add: local_step_def)

lemma ticksD [world_simps]:
  assumes "ticks w w'"
  shows "w_mem w' = w_mem w" "w_fs w' = w_fs w"
  using assms by (simp_all add: ticks_def)

lemma tick_fields [simp]:
  "w_clock (tick w) = w_clock w" "w_mem (tick w) = w_mem w" "w_fs (tick w) = w_fs w"
  "w_fault (tick w) = w_fault w" "w_busy (tick w) = w_busy w" "w_rival (tick w) = w_rival w"
  "w_http (tick w) = w_http w" "w_sent (tick w) = w_sent w" "w_log (tick w) = w_log w"
  "w_hostname (tick w) = w_hostname w" "w_choose (tick w) = w_choose w"
  "w_timers (tick w) = w_timers w" "w_tick (tick w) = Suc (w_tick w)"
  by (simp_all add: tick_def)

lemma contextFailure_ticks: "contextFailure ctx w = (r, w') \<Longrightarrow> ticks w w'"
  by (auto simp: contextFailure_def time_now_def split: option.splits)

lemma sys_ticks: "sys call w = (r, w') \<Longrightarrow> ticks w w'"
  by (auto simp: sys_def)

lemma time_now_ticks: "time_now w = (t, w') \<Longrightarrow> ticks w w'"
  by (auto simp: time_now_def)

lemma detachedAuthContext_ticks: "detachedAuthContext p w = (c, w') \<Longrightarrow> ticks w w'"
  by (auto simp: detachedAuthContext_def time_now_def Let_def)

text \<open>A context that is never done never fails a check.\<close>

lemma contextFailure_never:
  "cx_done_at c = None \<Longrightarrow> contextFailure (Some c) w = (None, tick w)"
  by (simp add: contextFailure_def time_now_def ctx_done_def)

lemma contextFailure_nil [simp]:
  "contextFailure None w = (Some (invalid_argument ''context must not be nil''), w)"
  by (simp add: contextFailure_def)

end
