(* ===== verification/StorageCodec.thy ===== *)
theory StorageCodec
  imports AuthTypes
begin

text \<open>
  The file format of \<open>storage_codec.go\<close>: \<open>storageState\<close> (a JSON object whose unknown members are
  kept), its decoding with validation, the typed snapshot of its three known members, and their
  replacement. The theorems give the round trip from a session to file bytes and back.
\<close>

section \<open>Struct codecs\<close>

definition zero_auth_tokens :: auth_tokens where
  "zero_auth_tokens = \<lparr>at_access_token = [], at_refresh_token = [], at_expires_in = 0,
     at_token_type = [], at_expires_at = 0\<rparr>"

definition zero_pending :: pending_device_auth where
  "zero_pending = \<lparr>pd_device_code = [], pd_interval = 0, pd_expires_at = 0,
     pd_verification_url = [], pd_phrase = []\<rparr>"

text \<open>\<open>json.Unmarshal\<close> into \<open>AuthTokens\<close> and \<open>PendingDeviceAuth\<close>: the value, and whether no
  type mismatch was recorded.\<close>

definition dec_auth_tokens :: "json \<Rightarrow> auth_tokens \<times> bool" where
  "dec_auth_tokens v =
     (case v of
        JObj ms \<Rightarrow>
          (let a = get_string ''access_token'' ms; r = get_string ''refresh_token'' ms;
               i = get_int64 ''expires_in'' ms; t = get_string ''token_type'' ms;
               e = get_int64 ''expires_at'' ms
           in (\<lparr>at_access_token = fst a, at_refresh_token = fst r, at_expires_in = fst i,
                at_token_type = fst t, at_expires_at = fst e\<rparr>,
               snd a \<and> snd r \<and> snd i \<and> snd t \<and> snd e))
      | JNull \<Rightarrow> (zero_auth_tokens, True)
      | _ \<Rightarrow> (zero_auth_tokens, False))"

definition dec_pending :: "json \<Rightarrow> pending_device_auth \<times> bool" where
  "dec_pending v =
     (case v of
        JObj ms \<Rightarrow>
          (let c = get_string ''device_code'' ms; i = get_int64 ''interval'' ms;
               e = get_int64 ''expires_at'' ms; u = get_string ''verification_url'' ms;
               p = get_string ''phrase'' ms
           in (\<lparr>pd_device_code = fst c, pd_interval = fst i, pd_expires_at = fst e,
                pd_verification_url = fst u, pd_phrase = fst p\<rparr>,
               snd c \<and> snd i \<and> snd e \<and> snd u \<and> snd p))
      | JNull \<Rightarrow> (zero_pending, True)
      | _ \<Rightarrow> (zero_pending, False))"

text \<open>\<open>json.Marshal\<close>; \<open>expires_at\<close> of \<open>AuthTokens\<close> is \<open>omitzero\<close>.\<close>

definition enc_auth_tokens :: "auth_tokens \<Rightarrow> json" where
  "enc_auth_tokens a =
     JObj ([(''access_token'', enc_string (at_access_token a)),
            (''refresh_token'', enc_string (at_refresh_token a)),
            (''expires_in'', enc_int (at_expires_in a)),
            (''token_type'', enc_string (at_token_type a))] @
           (if at_expires_at a = 0 then [] else [(''expires_at'', enc_int (at_expires_at a))]))"

definition enc_pending :: "pending_device_auth \<Rightarrow> json" where
  "enc_pending p =
     JObj [(''device_code'', enc_string (pd_device_code p)),
           (''interval'', enc_int (pd_interval p)),
           (''expires_at'', enc_int (pd_expires_at p)),
           (''verification_url'', enc_string (pd_verification_url p)),
           (''phrase'', enc_string (pd_phrase p))]"

definition auth_text_ok :: "auth_tokens \<Rightarrow> bool" where
  "auth_text_ok a \<longleftrightarrow> valid_utf8 (at_access_token a) \<and> valid_utf8 (at_refresh_token a) \<and>
     valid_utf8 (at_token_type a) \<and> in_int64 (at_expires_in a) \<and> in_int64 (at_expires_at a)"

definition pending_text_ok :: "pending_device_auth \<Rightarrow> bool" where
  "pending_text_ok p \<longleftrightarrow> valid_utf8 (pd_device_code p) \<and> valid_utf8 (pd_verification_url p) \<and>
     valid_utf8 (pd_phrase p) \<and> in_int64 (pd_interval p) \<and> in_int64 (pd_expires_at p)"

lemma plain_names [codec_simps]:
  "plain_name ''access_token''" "plain_name ''refresh_token''" "plain_name ''expires_in''"
  "plain_name ''token_type''" "plain_name ''expires_at''" "plain_name ''device_code''"
  "plain_name ''interval''" "plain_name ''verification_url''" "plain_name ''phrase''"
  by (simp_all add: plain_name_def name_char_def byte_def)

lemma dec_enc_auth_tokens:
  "auth_text_ok a \<Longrightarrow> dec_auth_tokens (enc_auth_tokens a) = (a, True)"
  by (simp add: dec_auth_tokens_def enc_auth_tokens_def auth_text_ok_def codec_simps)

lemma dec_enc_pending: "pending_text_ok p \<Longrightarrow> dec_pending (enc_pending p) = (p, True)"
  by (simp add: dec_pending_def enc_pending_def pending_text_ok_def codec_simps)

lemma enc_auth_tokens_wf:
  "wf_json (enc_auth_tokens a) \<and> html_tree (enc_auth_tokens a) = enc_auth_tokens a \<and>
   json_depth (enc_auth_tokens a) = 1 \<and> enc_auth_tokens a \<noteq> JNull"
  by (simp add: enc_auth_tokens_def codec_simps html_escape_plain)

lemma enc_pending_wf:
  "wf_json (enc_pending p) \<and> html_tree (enc_pending p) = enc_pending p \<and>
   json_depth (enc_pending p) = 1 \<and> enc_pending p \<noteq> JNull"
  by (simp add: enc_pending_def codec_simps html_escape_plain)

section \<open>storageState\<close>

definition k_auth :: string where "k_auth = ''auth''"
definition k_pending :: string where "k_pending = ''pendingDeviceAuth''"
definition k_generation :: string where "k_generation = ''deviceAuthGeneration''"

definition newStorageState :: raw_map where
  "newStorageState = [(k_auth, JNull), (k_pending, JNull), (k_generation, JNum ''0'')]"

definition json_error :: go_error where
  "json_error = Msg ''json: cannot unmarshal''"

definition storageState_auth :: "raw_map \<Rightarrow> (go_error, auth_tokens option) result" where
  "storageState_auth s =
     (case map_of s k_auth of
        None \<Rightarrow> Inr None
      | Some raw \<Rightarrow>
          (if raw = JNull then Inr None
           else if \<not> snd (dec_auth_tokens raw)
             then Inl (Wrapf ''decode auth storage field auth'' [json_error])
           else (case validateAuth (Some (fst (dec_auth_tokens raw))) of
                   Inl e \<Rightarrow> Inl (Wrapf ''decode auth storage field auth'' [e])
                 | Inr _ \<Rightarrow> Inr (Some (fst (dec_auth_tokens raw))))))"

definition storageState_pending :: "raw_map \<Rightarrow> (go_error, pending_device_auth option) result" where
  "storageState_pending s =
     (case map_of s k_pending of
        None \<Rightarrow> Inr None
      | Some raw \<Rightarrow>
          (if raw = JNull then Inr None
           else if \<not> snd (dec_pending raw)
             then Inl (Wrapf ''decode auth storage field pendingDeviceAuth'' [json_error])
           else (case validatePending (Some (fst (dec_pending raw))) of
                   Some e \<Rightarrow> Inl (Wrapf ''decode auth storage field pendingDeviceAuth'' [e])
                 | None \<Rightarrow> Inr (Some (fst (dec_pending raw))))))"

definition storageState_generation :: "raw_map \<Rightarrow> (go_error, generation) result" where
  "storageState_generation s =
     (case map_of s k_generation of
        None \<Rightarrow> Inr 0
      | Some raw \<Rightarrow>
          (if raw = JNull then Inr 0
           else (case (case raw of JNum lit \<Rightarrow> parse_uint64 lit | _ \<Rightarrow> None) of
                   None \<Rightarrow> Inl (Wrapf ''decode auth storage field deviceAuthGeneration'' [json_error])
                 | Some g \<Rightarrow> Inr g)))"

definition put_default :: "string \<Rightarrow> json \<Rightarrow> raw_map \<Rightarrow> raw_map" where
  "put_default k v s = (case map_of s k of None \<Rightarrow> map_put k v s | Some _ \<Rightarrow> s)"

text \<open>\<open>decodeStorageState\<close>. The two \<open>Decode\<close> calls accept exactly one JSON value followed by
  white space only, which is what \<open>parse_json\<close> accepts.\<close>

definition decodeStorageState :: "string \<Rightarrow> (go_error, raw_map) result" where
  "decodeStorageState data =
     (case parse_json data of
        None \<Rightarrow> Inl (Wrapf ''decode auth storage file'' [json_error])
      | Some (JObj ms) \<Rightarrow>
          (let state = dec_map ms [] in
           case storageState_auth state of
             Inl e \<Rightarrow> Inl e
           | Inr _ \<Rightarrow>
               (case storageState_pending state of
                  Inl e \<Rightarrow> Inl e
                | Inr _ \<Rightarrow>
                    (let state' = put_default k_pending JNull (put_default k_auth JNull state) in
                     case storageState_generation state' of
                       Inl e \<Rightarrow> Inl e
                     | Inr _ \<Rightarrow> Inr (put_default k_generation (JNum ''0'') state'))))
      | Some _ \<Rightarrow> Inl (Msg ''decode auth storage file: top-level value must be an object''))"

definition storageState_snapshot :: "raw_map \<Rightarrow> (go_error, auth_storage_state) result" where
  "storageState_snapshot s =
     (case storageState_auth s of
        Inl e \<Rightarrow> Inl e
      | Inr auth \<Rightarrow>
          (case storageState_pending s of
             Inl e \<Rightarrow> Inl e
           | Inr pending \<Rightarrow>
               (case storageState_generation s of
                  Inl e \<Rightarrow> Inl e
                | Inr g \<Rightarrow> Inr \<lparr>st_auth = auth, st_pending = pending, st_generation = g\<rparr>)))"

definition enc_generation :: "generation \<Rightarrow> json" where
  "enc_generation g = JNum (show_nat (unat g))"

definition put_session :: "auth_tokens option \<Rightarrow> pending_device_auth option \<Rightarrow> generation \<Rightarrow> raw_map \<Rightarrow> raw_map" where
  "put_session auth pending g s =
     map_put k_generation (enc_generation g)
       (map_put k_pending (case pending of None \<Rightarrow> JNull | Some p \<Rightarrow> enc_pending p)
          (map_put k_auth (case auth of None \<Rightarrow> JNull | Some a \<Rightarrow> enc_auth_tokens a) s))"

definition replaceSnapshot :: "int \<Rightarrow> auth_storage_state \<Rightarrow> raw_map \<Rightarrow> (go_error, raw_map) result" where
  "replaceSnapshot now state s =
     (case prepareStorageSnapshot now (Some state) of
        Inl e \<Rightarrow> Inl e
      | Inr (auth, pending) \<Rightarrow> Inr (put_session auth pending (st_generation state) s))"

definition bumpDeviceAuthGeneration :: "raw_map \<Rightarrow> raw_map" where
  "bumpDeviceAuthGeneration s =
     (case storageState_generation s of
        Inl _ \<Rightarrow> s
      | Inr g \<Rightarrow> map_put k_generation (enc_generation (nextGeneration g)) s)"

text \<open>\<open>json.Marshal(state)\<close>: the bytes written to the file.\<close>

definition marshal_state :: "raw_map \<Rightarrow> string" where
  "marshal_state s = compact (enc_map s)"

section \<open>Maps\<close>

lemma map_of_put: "map_of (map_put k v m) = (map_of m)(k \<mapsto> v)"
  by (induction k v m rule: map_put.induct) (auto simp: fun_eq_iff)

lemma keys_put: "fst ` set (map_put k v m) = insert k (fst ` set m)"
  by (induction k v m rule: map_put.induct) auto

lemma distinct_put: "distinct (map fst m) \<Longrightarrow> distinct (map fst (map_put k v m))"
  by (induction k v m rule: map_put.induct) (simp_all add: keys_put)

lemma k_distinct [simp]:
  "k_auth \<noteq> k_pending" "k_auth \<noteq> k_generation" "k_pending \<noteq> k_generation"
  "k_pending \<noteq> k_auth" "k_generation \<noteq> k_auth" "k_generation \<noteq> k_pending"
  by (simp_all add: k_auth_def k_pending_def k_generation_def)

lemma map_of_put_session:
  "map_of (put_session auth pending g s) =
     (map_of s)(k_auth \<mapsto> (case auth of None \<Rightarrow> JNull | Some a \<Rightarrow> enc_auth_tokens a),
       k_pending \<mapsto> (case pending of None \<Rightarrow> JNull | Some p \<Rightarrow> enc_pending p),
       k_generation \<mapsto> enc_generation g)"
  by (simp add: put_session_def map_of_put)

text \<open>Sessions whose text and numbers JSON carries exactly. Everything decoded from JSON is such.\<close>

definition state_text_ok :: "auth_storage_state \<Rightarrow> bool" where
  "state_text_ok s \<longleftrightarrow> (\<forall>a. st_auth s = Some a \<longrightarrow> auth_text_ok a) \<and>
     (\<forall>p. st_pending s = Some p \<longrightarrow> pending_text_ok p)"

text \<open>The snapshot depends only on the three known members.\<close>

lemma snapshot_cong:
  "map_of s k_auth = map_of t k_auth \<Longrightarrow> map_of s k_pending = map_of t k_pending \<Longrightarrow>
   map_of s k_generation = map_of t k_generation \<Longrightarrow> storageState_snapshot s = storageState_snapshot t"
proof -
  assume a: "map_of s k_auth = map_of t k_auth" and p: "map_of s k_pending = map_of t k_pending"
    and g: "map_of s k_generation = map_of t k_generation"
  have e: "storageState_auth s = storageState_auth t" "storageState_pending s = storageState_pending t"
    "storageState_generation s = storageState_generation t"
    unfolding storageState_auth_def storageState_pending_def storageState_generation_def a p g
    by (rule refl)+
  show ?thesis unfolding storageState_snapshot_def e by (rule refl)
qed

lemma snapshot_put_session:
  assumes "state_text_ok st" "state_wf st"
  shows "storageState_snapshot (put_session (st_auth st) (st_pending st) (st_generation st) s) = Inr st"
  using assms
  by (cases "st_auth st"; cases "st_pending st")
     (auto simp: storageState_snapshot_def storageState_auth_def storageState_pending_def
        storageState_generation_def map_of_put_session state_text_ok_def state_wf_def
        dec_enc_auth_tokens dec_enc_pending validateAuth_def validatePending_def
        enc_auth_tokens_wf enc_pending_wf enc_generation_def parse_uint64_show_nat)

section \<open>The file round trip\<close>

text \<open>What every decoded \<open>storageState\<close> satisfies, and what re-encoding needs.\<close>

definition raw_map_ok :: "raw_map \<Rightarrow> bool" where
  "raw_map_ok m \<longleftrightarrow> distinct (map fst m) \<and>
     (\<forall>e \<in> set m. valid_utf8 (fst e) \<and> wf_json (snd e) \<and> json_depth (snd e) < max_depth)"

lemma raw_map_ok_put:
  "raw_map_ok m \<Longrightarrow> valid_utf8 k \<Longrightarrow> wf_json v \<Longrightarrow> json_depth v < max_depth \<Longrightarrow> raw_map_ok (map_put k v m)"
proof -
  have s: "set (map_put k v m) \<subseteq> insert (k, v) (set m)" for m
    by (induction k v m rule: map_put.induct) auto
  assume "raw_map_ok m" "valid_utf8 k" "wf_json v" "json_depth v < max_depth"
  then show ?thesis
    unfolding raw_map_ok_def using s [of m] by (auto simp: distinct_put)
qed

lemma raw_map_ok_dec_map:
  "\<forall>m \<in> set ms. raw_ok (fst m) \<and> wf_json (snd m) \<and> json_depth (snd m) < max_depth \<Longrightarrow>
   raw_map_ok acc \<Longrightarrow> raw_map_ok (dec_map ms acc)"
  by (induction ms acc rule: dec_map.induct) (auto intro: raw_map_ok_put valid_utf8_unquote)

lemma valid_keys [simp]: "valid_utf8 k_auth" "valid_utf8 k_pending" "valid_utf8 k_generation"
  by (simp_all add: k_auth_def k_pending_def k_generation_def valid_utf8_ascii byte_def)

lemma max_depth_pos [simp]: "0 < max_depth" "Suc 0 < max_depth"
  by (simp_all add: max_depth_def)

lemma num_ok_zero: "num_ok ''0''"
  by (simp add: num_ok_def num_run_def begin_value_def)

lemma raw_map_ok_put_session: "raw_map_ok s \<Longrightarrow> raw_map_ok (put_session auth pending g s)"
  unfolding put_session_def enc_generation_def
  by (intro raw_map_ok_put)
     (auto simp: enc_auth_tokens_wf enc_pending_wf num_ok_show_nat split: option.splits)

lemma raw_map_ok_put_default:
  "raw_map_ok s \<Longrightarrow> valid_utf8 k \<Longrightarrow> wf_json v \<Longrightarrow> json_depth v < max_depth \<Longrightarrow> raw_map_ok (put_default k v s)"
  by (simp add: put_default_def raw_map_ok_put split: option.splits)

lemma raw_map_ok_new: "raw_map_ok newStorageState"
  by (simp add: raw_map_ok_def newStorageState_def num_ok_zero)

lemma decodeStorageState_ok:
  assumes "decodeStorageState data = Inr s"
  shows "raw_map_ok s"
proof -
  from assms obtain ms where p: "parse_json data = Some (JObj ms)"
    and s: "s = put_default k_generation (JNum ''0'') (put_default k_pending JNull
      (put_default k_auth JNull (dec_map ms [])))"
    by (auto simp: decodeStorageState_def Let_def split: option.splits json.splits sum.splits)
  from parse_wf [OF p] have "wf_json (JObj ms)" "json_depth (JObj ms) \<le> max_depth" by auto
  then have "\<forall>m \<in> set ms. raw_ok (fst m) \<and> wf_json (snd m) \<and> json_depth (snd m) < max_depth"
    using json_depth_obj [of _ ms] by (fastforce simp: list_all_iff)
  then have "raw_map_ok (dec_map ms [])"
    by (rule raw_map_ok_dec_map) (simp add: raw_map_ok_def)
  then show ?thesis
    unfolding s by (intro raw_map_ok_put_default) (simp_all add: num_ok_zero)
qed

text \<open>The map a marshalled state is decoded to, before its validation.\<close>

definition reread :: "raw_map \<Rightarrow> raw_map" where
  "reread m = map (\<lambda>e. (fst e, html_tree (snd e))) (sort_key fst m)"

lemma dec_map_distinct:
  "distinct (map fst acc @ map fst m) \<Longrightarrow> \<forall>e \<in> set m. valid_utf8 (fst e) \<Longrightarrow>
   dec_map (map (\<lambda>e. (escape (fst e), f (snd e))) m) acc = acc @ map (\<lambda>e. (fst e, f (snd e))) m"
proof (induction m arbitrary: acc)
  case (Cons e m)
  have put: "k \<notin> set (map fst acc) \<Longrightarrow> map_put k v acc = acc @ [(k, v)]" for k and v :: json and acc
    by (induction k v acc rule: map_put.induct) auto
  from Cons.prems have "fst e \<notin> set (map fst acc)" by auto
  with Cons show ?case by (auto simp: unquote_escape put)
qed simp

lemma parse_marshal_state:
  assumes "raw_map_ok m"
  shows "\<exists>ms. parse_json (marshal_state m) = Some (JObj ms) \<and> dec_map ms [] = reread m"
proof -
  let ?s = "sort_key fst m"
  have wf: "wf_json (enc_map m)"
    using assms by (auto simp: enc_map_def raw_map_ok_def list_all_iff raw_ok_escape)
  have "\<forall>e \<in> set ?s. json_depth (snd e) \<le> max_depth - 1"
    using assms by (auto simp: raw_map_ok_def)
  then have "foldr max (map (\<lambda>e. json_depth (snd e)) ?s) 0 \<le> max_depth - 1"
    by (rule foldr_max_bound)
  then have "json_depth (enc_map m) \<le> max_depth"
    by (simp add: enc_map_def comp_def max_depth_def)
  from parse_compact [OF wf this]
  have "parse_json (marshal_state m) = Some (JObj (map (\<lambda>e. (escape (fst e), html_tree (snd e))) ?s))"
    by (simp add: marshal_state_def enc_map_def html_escape_escape comp_def)
  moreover have "dec_map (map (\<lambda>e. (escape (fst e), html_tree (snd e))) ?s) [] = reread m"
    using assms dec_map_distinct [of "[]" ?s html_tree]
    by (simp add: reread_def raw_map_ok_def distinct_map)
  ultimately show ?thesis by blast
qed

lemma map_of_map_snd: "map_of (map (\<lambda>e. (fst e, f (snd e))) m) k = map_option f (map_of m k)"
  by (induction m) auto

lemma map_of_reread:
  assumes "distinct (map fst m)"
  shows "map_of (reread m) = (\<lambda>k. map_option html_tree (map_of m k))"
proof -
  have d: "distinct (map fst (sort_key fst m))" using assms by (simp add: distinct_map)
  have "map_of (reread m) k = map_option html_tree (map_of (sort_key fst m) k)" for k
    unfolding reread_def by (rule map_of_map_snd)
  moreover have "map_of (sort_key fst m) = map_of m"
    using d assms by (simp add: map_of_inject_set)
  ultimately show ?thesis by auto
qed

declare html_tree_JNull [simp]

lemma reread_session:
  assumes "raw_map_ok s" and "state_text_ok st" and "state_wf st"
  defines "m \<equiv> put_session (st_auth st) (st_pending st) (st_generation st) s"
  shows "storageState_snapshot (reread m) = Inr st"
proof -
  have "distinct (map fst m)"
    using raw_map_ok_put_session [OF assms(1)] by (simp add: m_def raw_map_ok_def)
  from map_of_reread [OF this]
  have "map_of (reread m) k = map_of m k" if "k \<in> {k_auth, k_pending, k_generation}" for k
    using that
    by (auto simp: m_def map_of_put_session enc_auth_tokens_wf enc_pending_wf enc_generation_def
        split: option.splits)
  then have "storageState_snapshot (reread m) = storageState_snapshot m"
    by (intro snapshot_cong) auto
  with snapshot_put_session [OF assms(2,3)] show ?thesis by (simp add: m_def)
qed

lemma snapshot_parts:
  "storageState_snapshot s = Inr st \<longleftrightarrow>
   storageState_auth s = Inr (st_auth st) \<and> storageState_pending s = Inr (st_pending st) \<and>
   storageState_generation s = Inr (st_generation st)"
  by (auto simp: storageState_snapshot_def split: sum.splits)

lemma put_default_other [simp]: "map_of s k \<noteq> None \<Longrightarrow> put_default k v s = s"
  by (auto simp: put_default_def)

text \<open>Writing a session into a decoded file and decoding the bytes gives the session back, and
  keeps every member the program does not know (with its literals HTML-escaped).\<close>

lemma decode_marshal_session:
  assumes "raw_map_ok s" and "state_text_ok st" and "state_wf st"
  defines "m \<equiv> put_session (st_auth st) (st_pending st) (st_generation st) s"
  obtains s' where "decodeStorageState (marshal_state m) = Inr s'" "storageState_snapshot s' = Inr st"
    "\<And>k. k \<notin> {k_auth, k_pending, k_generation} \<Longrightarrow> map_of s' k = map_option html_tree (map_of s k)"
proof -
  have ok: "raw_map_ok m" unfolding m_def by (rule raw_map_ok_put_session [OF assms(1)])
  then have d: "distinct (map fst m)" by (simp add: raw_map_ok_def)
  from parse_marshal_state [OF ok] obtain ms where
    ms: "parse_json (marshal_state m) = Some (JObj ms)" "dec_map ms [] = reread m" by blast
  have snap: "storageState_snapshot (reread m) = Inr st"
    unfolding m_def by (rule reread_session [OF assms(1-3)])
  have keys: "map_of (reread m) k \<noteq> None" if "k \<in> {k_auth, k_pending, k_generation}" for k
    using that unfolding map_of_reread [OF d] by (auto simp: m_def map_of_put_session)
  have "decodeStorageState (marshal_state m) = Inr (reread m)"
    using snap keys by (simp add: decodeStorageState_def ms snapshot_parts)
  moreover have "map_of (reread m) k = map_option html_tree (map_of s k)"
    if "k \<notin> {k_auth, k_pending, k_generation}" for k
    using that unfolding map_of_reread [OF d] by (simp add: m_def map_of_put_session)
  ultimately show thesis using snap that by blast
qed

section \<open>Re-encoding keeps the session\<close>

lemma dec_auth_tokens_html: "wf_json v \<Longrightarrow> dec_auth_tokens (html_tree v) = dec_auth_tokens v"
  by (cases v) (auto simp: dec_auth_tokens_def get_html simp del: wf_json.simps)

lemma dec_pending_html: "wf_json v \<Longrightarrow> dec_pending (html_tree v) = dec_pending v"
  by (cases v) (auto simp: dec_pending_def get_html simp del: wf_json.simps)

lemma snapshot_reread:
  assumes "raw_map_ok s"
  shows "storageState_snapshot (reread s) = storageState_snapshot s"
proof -
  have d: "distinct (map fst s)" using assms by (simp add: raw_map_ok_def)
  have wf: "wf_json v" if "map_of s k = Some v" for k v
    using assms map_of_SomeD [OF that] by (auto simp: raw_map_ok_def)
  have g: "(case html_tree v of JNum lit \<Rightarrow> parse_uint64 lit | _ \<Rightarrow> None) =
      (case v of JNum lit \<Rightarrow> parse_uint64 lit | _ \<Rightarrow> None)" for v
    by (cases v) auto
  have "storageState_auth (reread s) = storageState_auth s"
    unfolding storageState_auth_def map_of_reread [OF d]
    by (cases "map_of s k_auth") (simp_all add: wf dec_auth_tokens_html split: sum.split option.split)
  moreover have "storageState_pending (reread s) = storageState_pending s"
    unfolding storageState_pending_def map_of_reread [OF d]
    by (cases "map_of s k_pending") (simp_all add: wf dec_pending_html split: sum.split option.split)
  moreover have "storageState_generation (reread s) = storageState_generation s"
    unfolding storageState_generation_def map_of_reread [OF d]
    by (cases "map_of s k_generation") (simp_all add: g)
  ultimately show ?thesis by (simp add: storageState_snapshot_def cong: sum.case_cong)
qed

text \<open>So two states with the same bytes hold the same session.\<close>

lemma marshal_snapshot:
  assumes "raw_map_ok s" "raw_map_ok t" "marshal_state s = marshal_state t"
  shows "storageState_snapshot s = storageState_snapshot t"
proof -
  from parse_marshal_state [OF assms(1)] parse_marshal_state [OF assms(2)] assms(3)
  have "reread s = reread t" by auto
  with snapshot_reread [OF assms(1)] snapshot_reread [OF assms(2)] show ?thesis by simp
qed

end
