(* ===== verification/AuthStorage.thy ===== *)
theory AuthStorage
  imports World StorageCodec
begin

text \<open>
  The \<open>AuthStorage\<close> interface of storage.go: the record of operations the client calls, the gate
  every implementation takes first, and the contract of the interface's comments as a locale.
  The device flow and the token provider are verified against the locale; \<open>MemoryStorage\<close> and
  \<open>FileStorage\<close> are shown to meet it.
\<close>

section \<open>The interface\<close>

text \<open>The variables a transaction callback of the program assigns in its enclosing function.\<close>

record captures =
  cap_auth :: "auth_tokens option"
  cap_generation :: generation
  cap_pending :: "pending_device_auth option"

definition no_captures :: captures where
  "no_captures = \<lparr>cap_auth = None, cap_generation = 0, cap_pending = None\<rparr>"

text \<open>\<open>func(*AuthStorageState) error\<close>: it may read the clock, assign captured variables and modify
  the state it is given.\<close>

type_synonym callback =
  "captures \<Rightarrow> auth_storage_state \<Rightarrow> world \<Rightarrow> (go_error option \<times> captures \<times> auth_storage_state) \<times> world"

record auth_storage =
  as_load :: "go_context \<Rightarrow> world \<Rightarrow> (go_error, auth_storage_state option) result \<times> world"
  as_transact :: "go_context \<Rightarrow> callback option \<Rightarrow> captures \<Rightarrow> world \<Rightarrow> (go_error option \<times> captures) \<times> world"
  as_clear :: "go_context \<Rightarrow> world \<Rightarrow> go_error option \<times> world"

definition invalidStorageReceiver :: go_error where
  "invalidStorageReceiver = invalid_argument ''auth storage is nil''"

definition callback_required :: go_error where
  "callback_required = invalid_argument ''storage transaction callback is required''"

text \<open>\<open>storageGate.lock\<close>, when no other goroutine of the process holds the gate: the context is
  checked on entry and again once the gate is taken.\<close>

definition storageGate_lock :: "go_context \<Rightarrow> world \<Rightarrow> go_error option \<times> world" where
  "storageGate_lock ctx w =
     (case ctx of
        None \<Rightarrow> (Some (invalid_argument ''context must not be nil''), w)
      | Some c \<Rightarrow>
          (case contextFailure (Some c) w of
             (Some e, w1) \<Rightarrow> (Some e, w1)
           | (None, w1) \<Rightarrow> contextFailure (Some c) w1))"

lemma storageGate_lock_ticks: "storageGate_lock ctx w = (r, w') \<Longrightarrow> ticks w w'"
  by (auto simp: storageGate_lock_def split: option.splits prod.splits
      dest!: contextFailure_ticks intro: ticks_trans)

section \<open>The contract\<close>

text \<open>The clock shows instants after the epoch whose nanoseconds fit an \<open>int64\<close> (before the year
  2262), the range in which Go's \<open>UnixNano\<close> is defined.\<close>

definition clock_ok :: "world \<Rightarrow> bool" where
  "clock_ok w \<longleftrightarrow> (\<forall>n. 0 \<le> w_clock w n \<and> w_clock w n \<le> max_int64)"

lemma unix_milli_range: "0 \<le> t \<Longrightarrow> t \<le> max_int64 \<Longrightarrow> 0 \<le> unix_milli t \<and> unix_milli t \<le> 9223372036854"
  using zdiv_mono1 [of t max_int64 1000000]
  by (simp add: unix_milli_def max_int64_def pos_imp_zdiv_nonneg_iff)

lemma clock_okD: "clock_ok w \<Longrightarrow> 0 \<le> unix_milli (w_clock w n) \<and> unix_milli (w_clock w n) \<le> max_int64"
  using unix_milli_range [of "w_clock w n"] by (auto simp: clock_ok_def max_int64_def)

lemma clock_ok_local: "local_step w w' \<Longrightarrow> clock_ok w' = clock_ok w"
  by (simp add: clock_ok_def local_step_def)

lemma state_ready_wf: "state_ready s \<Longrightarrow> state_wf s"
  by (simp add: state_ready_def state_wf_def auth_wf_def)

lemma prepared_state_clock:
  "clock_ok w \<Longrightarrow> prepared_state (unix_milli (w_clock w n)) s = Inr t \<Longrightarrow> state_ready t"
  using clock_okD [of w n] by (auto intro: prepared_state_wf)

text \<open>The callback obligation of the interface: no effect but on the state and its captures.\<close>

definition callback_pure :: "callback \<Rightarrow> bool" where
  "callback_pure f \<longleftrightarrow> (\<forall>cap s w r w'. f cap s w = (r, w') \<longrightarrow> ticks w w')"

lemma callback_pureD: "callback_pure f \<Longrightarrow> f cap s w = (r, w') \<Longrightarrow> ticks w w'"
  unfolding callback_pure_def by blast

text \<open>A run of \<open>f\<close> on \<open>s\<close> that accepts, and the complete state \<open>t\<close> it commits.\<close>

definition commits :: "callback \<Rightarrow> captures \<Rightarrow> auth_storage_state \<Rightarrow> world \<Rightarrow> captures \<Rightarrow> auth_storage_state \<Rightarrow> bool" where
  "commits f cap s w cap' t \<longleftrightarrow>
     (\<exists>w1 w2 s' n. local_step w w1 \<and> f cap s w1 = ((None, cap', s'), w2) \<and>
        prepared_state (unix_milli (w_clock w n)) s' = Inr t)"

lemma commitsE:
  assumes "commits f cap s w cap' t"
  obtains w1 w2 s' n where "local_step w w1" "f cap s w1 = ((None, cap', s'), w2)"
    "prepared_state (unix_milli (w_clock w n)) s' = Inr t"
  using assms by (auto simp: commits_def)

locale auth_storage_contract =
  fixes S :: auth_storage
    and abs :: "world \<Rightarrow> auth_storage_state"
    and inv :: "world \<Rightarrow> bool"
  assumes outside_keep: "outside_step w w' \<Longrightarrow> abs w' = abs w \<and> inv w' = inv w"
    and inv_clock: "inv w \<Longrightarrow> clock_ok w"
    and abs_wf: "inv w \<Longrightarrow> state_wf (abs w)"
    and load_keeps: "as_load S ctx w = (r, w') \<Longrightarrow> inv w \<Longrightarrow> local_step w w' \<and> inv w' \<and> abs w' = abs w"
    and load_value: "as_load S ctx w = (Inr s, w') \<Longrightarrow> inv w \<Longrightarrow> s = Some (abs w)"
    and transact_local: "as_transact S ctx (Some f) cap w = (rt, w') \<Longrightarrow> callback_pure f \<Longrightarrow> inv w \<Longrightarrow>
      local_step w w' \<and> inv w'"
    and transact_ok: "as_transact S ctx (Some f) cap w = ((None, cap'), w') \<Longrightarrow> callback_pure f \<Longrightarrow> inv w \<Longrightarrow>
      \<exists>t. commits f cap (abs w) w cap' t \<and> (state_text_ok t \<longrightarrow> abs w' = t)"
    and transact_err: "as_transact S ctx (Some f) cap w = ((Some e, cap'), w') \<Longrightarrow> callback_pure f \<Longrightarrow> inv w \<Longrightarrow>
      abs w' = abs w \<or> (\<exists>t. commits f cap (abs w) w cap' t \<and> (state_text_ok t \<longrightarrow> abs w' = t))"
    and clear_local: "as_clear S ctx w = (rc, w') \<Longrightarrow> inv w \<Longrightarrow> local_step w w' \<and> inv w'"
    and clear_ok: "as_clear S ctx w = (None, w') \<Longrightarrow> inv w \<Longrightarrow>
      st_auth (abs w') = None \<and> st_pending (abs w') = None"
    and clear_err: "as_clear S ctx w = (Some e, w') \<Longrightarrow> inv w \<Longrightarrow>
      abs w' = abs w \<or> st_auth (abs w') = None \<and> st_pending (abs w') = None"
begin

lemma ticks_keep: "ticks w w' \<Longrightarrow> abs w' = abs w \<and> inv w' = inv w"
  by (intro outside_keep ticks_outside)

text \<open>A callback that refuses the stored state commits nothing, whatever else happens.\<close>

lemma transact_refused:
  assumes "as_transact S ctx (Some f) cap w = ((e, cap'), w')" "callback_pure f" "inv w"
    and "\<And>w1. local_step w w1 \<Longrightarrow> fst (fst (f cap (abs w) w1)) \<noteq> None"
  shows "e \<noteq> None \<and> abs w' = abs w"
proof -
  have no: "\<not> commits f cap (abs w) w cap'' t" for cap'' t
    using assms(4) by (fastforce simp: commits_def)
  show ?thesis
  proof (cases e)
    case None
    with transact_ok [of ctx f cap w cap' w'] assms(1-3) no show ?thesis by blast
  next
    case (Some e')
    with transact_err [of ctx f cap w e' cap' w'] assms(1-3) no show ?thesis by blast
  qed
qed

text \<open>A transaction is atomic: the state is the old one, or the complete new one.\<close>

lemma transact_atomic:
  assumes "as_transact S ctx (Some f) cap w = ((e, cap'), w')" "callback_pure f" "inv w"
  shows "abs w' = abs w \<or> (\<exists>t. commits f cap (abs w) w cap' t \<and> (state_text_ok t \<longrightarrow> abs w' = t))"
  using transact_ok [of ctx f cap w cap' w'] transact_err [of ctx f cap w _ cap' w'] assms
  by (cases e) blast+

text \<open>A load after a successful transaction returns what it committed.\<close>

lemma transact_then_load:
  assumes "as_transact S ctx (Some f) cap w = ((None, cap'), w1)" "callback_pure f" "inv w"
    and "as_load S ctx' w1 = (Inr v, w2)"
  shows "\<exists>t. commits f cap (abs w) w cap' t \<and> (state_text_ok t \<longrightarrow> v = Some t)"
proof -
  from transact_ok [OF assms(1-3)] obtain t where
    t: "commits f cap (abs w) w cap' t" "state_text_ok t \<longrightarrow> abs w1 = t" by blast
  have "inv w1" using transact_local [OF assms(1-3)] by simp
  from load_value [OF assms(4) this] t show ?thesis by blast
qed

lemma clear_atomic:
  assumes "as_clear S ctx w = (rc, w')" "inv w"
  shows "abs w' = abs w \<or> st_auth (abs w') = None \<and> st_pending (abs w') = None"
  using clear_ok [of ctx w w'] clear_err [of ctx w _ w'] assms by (cases rc) blast+

end

end
