(* ===== verification/FileStorage.thy ===== *)
theory FileStorage
  imports AuthStorage
begin

text \<open>
  \<open>FileStorage\<close> (storage.go, storage_codec.go, storage_lock_unix.go, storage_sync_unix.go): every
  operation as its sequence of system calls and context checks, each call failing when the
  environment says so. The first half is the program, the second half shows what each operation
  leaves in the file, on every path, and that \<open>FileStorage\<close> meets the \<open>AuthStorage\<close> contract.
\<close>

section \<open>Control\<close>

text \<open>\<open>if err := call; err != nil { handle }\<close>, and go on.\<close>

definition on_err ::
  "go_error option \<times> world \<Rightarrow> (go_error \<Rightarrow> world \<Rightarrow> 'r) \<Rightarrow> (world \<Rightarrow> 'r) \<Rightarrow> 'r" where
  "on_err r handle continue =
     (case r of (Some e, w) \<Rightarrow> handle e w | (None, w) \<Rightarrow> continue w)"

definition update_fs :: "(fsys \<Rightarrow> fsys) \<Rightarrow> world \<Rightarrow> world" where
  "update_fs f w = w\<lparr>w_fs := f (w_fs w)\<rparr>"

definition maxAuthFileBytes :: nat where "maxAuthFileBytes = 1048576"

text \<open>\<open>0o600\<close>.\<close>

definition owner_only :: nat where "owner_only = 384"

definition set_mode :: "nat \<Rightarrow> node \<Rightarrow> node" where
  "set_mode m n = (case n of Regular d _ s \<Rightarrow> Regular d m s | Irregular \<Rightarrow> Irregular)"

section \<open>The lock\<close>

definition lock_fail :: "string \<Rightarrow> go_error \<Rightarrow> go_error" where
  "lock_fail operation cause = Wrapf (operation @ '' auth storage lock'') [cause]"

text \<open>\<open>flock(LOCK_EX | LOCK_NB)\<close> when \<open>n\<close> further attempts find the lock held. Whether it is held
  is decided by \<open>n\<close>; the environment's faults are the other errors.\<close>

definition flock_try :: "nat \<Rightarrow> world \<Rightarrow> go_error option \<times> world" where
  "flock_try n w =
     (let (f, w1) = sys CFlock w;
          held = (if n = 0 then None else Some (Sentinel SyscallWouldBlock))
      in (case f of
            Some e \<Rightarrow> ((if errors_Is e SyscallWouldBlock then held else Some e), w1)
          | None \<Rightarrow> (held, w1)))"

fun lock_loop :: "nat \<Rightarrow> go_context \<Rightarrow> world \<Rightarrow> go_error option \<times> world" where
  "lock_loop n ctx w =
     (case flock_try n w of
        (None, w1) \<Rightarrow> (None, w1)
      | (Some e, w1) \<Rightarrow>
          (if \<not> errors_Is e SyscallWouldBlock then (Some (lock_fail ''acquire'' e), w1)
           else (case contextFailure ctx w1 of
                   (Some c, w2) \<Rightarrow> (Some (lock_fail ''acquire'' c), w2)
                 | (None, w2) \<Rightarrow> (case n of 0 \<Rightarrow> (None, w2) | Suc m \<Rightarrow> lock_loop m ctx w2))))"

declare lock_loop.simps [simp del]

definition lock_open :: "world \<Rightarrow> go_error option \<times> world" where
  "lock_open w =
     on_err (sys CLockOpen w) (\<lambda>e w1. (Some e, w1))
       (\<lambda>w1. if \<not> fs_dir (w_fs w1) then (Some (Sentinel OsErrNotExist), w1)
             else (None, update_fs (\<lambda>fs. case fs_lock fs of
                                             None \<Rightarrow> fs\<lparr>fs_lock := Some (Regular [] owner_only False)\<rparr>
                                           | Some _ \<Rightarrow> fs) w1))"

definition acquireStorageLock :: "string \<Rightarrow> go_context \<Rightarrow> world \<Rightarrow> go_error option \<times> world" where
  "acquireStorageLock path ctx w =
     (if ctx = None then (Some (invalid_argument ''context must not be nil''), w)
      else
        on_err (lock_open w) (\<lambda>e w1. (Some (Wrapf ''open auth storage lock'' [e]), w1)) (\<lambda>w1.
        on_err (sys CLockStat w1) (\<lambda>e w2. (Some (lock_fail ''inspect'' e), w2)) (\<lambda>w2.
        if fs_lock (w_fs w2) = Some Irregular
        then (Some (lock_fail ''validate'' (Msg (''path is not a regular file: '' @ path))), w2)
        else
        on_err (sys CLockChmod w2) (\<lambda>e w3. (Some (lock_fail ''secure'' e), w3)) (\<lambda>w3.
        let w4 = update_fs (\<lambda>fs. fs\<lparr>fs_lock := map_option (set_mode owner_only) (fs_lock fs)\<rparr>) w3 in
        on_err (lock_loop (w_busy w4 (w_tick w4)) ctx w4) (\<lambda>e w5. (Some e, w5)) (\<lambda>w5.
        (None, update_fs (w_rival w5 (w_tick w5)) w5))))))"

text \<open>\<open>storageLock.Close\<close>, its error ignored by every caller.\<close>

definition storageLock_Close :: "world \<Rightarrow> world" where
  "storageLock_Close w = snd (sys CUnlock w)"

section \<open>Reading\<close>

definition not_regular :: "string \<Rightarrow> go_error" where
  "not_regular path = Msg (''auth storage path is not a regular file: '' @ path)"

text \<open>\<open>os.Lstat\<close> of the credential file: whether it is a regular file, or an error.\<close>

definition lstat :: "world \<Rightarrow> (go_error, bool) result \<times> world" where
  "lstat w =
     (case sys CLstat w of
        (Some e, w1) \<Rightarrow> (Inl e, w1)
      | (None, w1) \<Rightarrow>
          (case fs_file (w_fs w1) of
             None \<Rightarrow> (Inl (Sentinel OsErrNotExist), w1)
           | Some n \<Rightarrow> (Inr (n \<noteq> Irregular), w1)))"

definition openCredentialFile :: "string \<Rightarrow> world \<Rightarrow> (go_error, string) result \<times> world" where
  "openCredentialFile path w =
     on_err (sys COpen w) (\<lambda>e w1. (Inl e, w1)) (\<lambda>w1.
     case fs_file (w_fs w1) of
       None \<Rightarrow> (Inl (Sentinel OsErrNotExist), w1)
     | Some n \<Rightarrow>
         on_err (sys CStat w1) (\<lambda>e w2. (Inl e, w2)) (\<lambda>w2.
         case n of
           Irregular \<Rightarrow> (Inl (Msg (''path is not a regular file: '' @ path)), w2)
         | Regular d m s \<Rightarrow>
             on_err (sys CChmod w2) (\<lambda>e w3. (Inl e, w3)) (\<lambda>w3.
             (Inr d, update_fs (\<lambda>fs. fs\<lparr>fs_file := Some (Regular d owner_only s)\<rparr>) w3))))"

definition readStorageState :: "string \<Rightarrow> world \<Rightarrow> (go_error, raw_map \<times> bool) result \<times> world" where
  "readStorageState path w =
     (case openCredentialFile path w of
        (Inl e, w1) \<Rightarrow>
          (if errors_Is e OsErrNotExist then (Inr (newStorageState, False), w1)
           else (Inl (Wrapf ''open auth storage file'' [e]), w1))
      | (Inr contents, w1) \<Rightarrow>
          on_err (sys CRead w1) (\<lambda>e w2. (Inl (Wrapf ''read auth storage file'' [e]), w2)) (\<lambda>w2.
          let data = take (maxAuthFileBytes + 1) contents in
          if length data > maxAuthFileBytes then (Inl (Sentinel ErrStorageTooLarge), w2)
          else (case decodeStorageState data of
                  Inl e \<Rightarrow> (Inl e, w2)
                | Inr state \<Rightarrow> (Inr (state, True), w2))))"

section \<open>Writing\<close>

definition validateStorageDestination :: "string \<Rightarrow> world \<Rightarrow> go_error option \<times> world" where
  "validateStorageDestination path w =
     (case lstat w of
        (Inl e, w1) \<Rightarrow>
          (if errors_Is e OsErrNotExist then (None, w1)
           else (Some (Wrapf ''inspect auth storage file'' [e]), w1))
      | (Inr regular, w1) \<Rightarrow> ((if \<not> regular then Some (not_regular path) else None), w1))"

definition update_temp :: "(node \<Rightarrow> node) \<Rightarrow> world \<Rightarrow> world" where
  "update_temp f = update_fs (\<lambda>fs. fs\<lparr>fs_temps := (case fs_temps fs of [] \<Rightarrow> [] | n # ns \<Rightarrow> f n # ns)\<rparr>)"

definition drop_temp :: "world \<Rightarrow> world" where
  "drop_temp = update_fs (\<lambda>fs. fs\<lparr>fs_temps := tl (fs_temps fs)\<rparr>)"

definition remove_temp :: "world \<Rightarrow> go_error option \<times> world" where
  "remove_temp w = on_err (sys CRemoveTemp w) (\<lambda>e w1. (Some e, w1)) (\<lambda>w1. (None, drop_temp w1))"

text \<open>\<open>cleanup\<close>, followed by the deferred removal when \<open>removeTemp\<close> is still set.\<close>

definition write_cleanup :: "go_error \<Rightarrow> world \<Rightarrow> go_error option \<times> world" where
  "write_cleanup cause w =
     (case remove_temp w of
        (None, w1) \<Rightarrow> (Some cause, w1)
      | (Some e, w1) \<Rightarrow>
          (if errors_Is e OsErrNotExist then (Some cause, w1)
           else (Some (Joined [cause, Wrapf ''remove temporary auth storage file'' [e]]),
                 snd (remove_temp w1))))"

definition write_fail :: "string \<Rightarrow> go_error \<Rightarrow> world \<Rightarrow> go_error option \<times> world" where
  "write_fail operation cause w =
     write_cleanup (Wrapf (operation @ '' auth storage file'') [cause]) (snd (sys CCloseTemp w))"

definition set_data :: "string \<Rightarrow> node \<Rightarrow> node" where
  "set_data d n = (case n of Regular _ m _ \<Rightarrow> Regular d m False | Irregular \<Rightarrow> Irregular)"

definition set_synced :: "node \<Rightarrow> node" where
  "set_synced n = (case n of Regular d m _ \<Rightarrow> Regular d m True | Irregular \<Rightarrow> Irregular)"

definition rename_temp :: "fsys \<Rightarrow> fsys" where
  "rename_temp fs =
     (case fs_temps fs of
        [] \<Rightarrow> fs
      | n # ns \<Rightarrow> fs\<lparr>fs_file := Some n, fs_temps := ns, fs_dir_synced := False\<rparr>)"

definition syncDirectoryRaw :: "world \<Rightarrow> go_error option \<times> world" where
  "syncDirectoryRaw w =
     on_err (sys CSyncDir w) (\<lambda>e w1. (Some e, w1))
       (\<lambda>w1. (None, update_fs (\<lambda>fs. fs\<lparr>fs_dir_synced := True\<rparr>) w1))"

definition syncDirectory :: "world \<Rightarrow> go_error option \<times> world" where
  "syncDirectory w =
     on_err (syncDirectoryRaw w) (\<lambda>e w1. (Some (Wrapf ''sync auth storage directory'' [e]), w1))
       (\<lambda>w1. (None, w1))"

definition new_temp :: "fsys \<Rightarrow> fsys" where
  "new_temp fs = fs\<lparr>fs_temps := Regular [] owner_only False # fs_temps fs\<rparr>"

text \<open>From \<open>createTemp\<close> to the directory sync.\<close>

definition replace_file :: "string \<Rightarrow> go_context \<Rightarrow> string \<Rightarrow> world \<Rightarrow> go_error option \<times> world" where
  "replace_file path ctx data w0 =
     on_err (contextFailure ctx (update_fs new_temp w0)) write_cleanup (\<lambda>w1.
     on_err (sys CChmodTemp w1) (write_fail ''secure temporary'') (\<lambda>w2.
     on_err (contextFailure ctx (update_temp (set_mode owner_only) w2)) write_cleanup (\<lambda>w3.
     on_err (sys CWrite w3) (write_fail ''write temporary'') (\<lambda>w4.
     on_err (contextFailure ctx (update_temp (set_data data) w4)) write_cleanup (\<lambda>w5.
     on_err (sys CSync w5) (write_fail ''sync temporary'') (\<lambda>w6.
     on_err (contextFailure ctx (update_temp set_synced w6)) write_cleanup (\<lambda>w7.
     on_err (sys CCloseTemp w7)
       (\<lambda>e. write_cleanup (Wrapf ''close temporary auth storage file'' [e])) (\<lambda>w8.
     on_err (contextFailure ctx w8) write_cleanup (\<lambda>w9.
     on_err (validateStorageDestination path w9) write_cleanup (\<lambda>w10.
     on_err (contextFailure ctx w10) write_cleanup (\<lambda>w11.
     on_err (sys CRename w11) (\<lambda>e. write_cleanup (Wrapf ''replace auth storage file'' [e])) (\<lambda>w12.
     on_err (syncDirectoryRaw (update_fs rename_temp w12))
       (\<lambda>e w13. (Some (Wrapf ''sync auth storage directory'' [e]), w13)) (\<lambda>w13.
     (None, w13))))))))))))))"

definition writeStorageState :: "string \<Rightarrow> go_context \<Rightarrow> raw_map \<Rightarrow> world \<Rightarrow> go_error option \<times> world" where
  "writeStorageState path ctx state w =
     on_err (contextFailure ctx w) (\<lambda>e w1. (Some e, w1)) (\<lambda>w1.
     on_err (validateStorageDestination path w1) (\<lambda>e w2. (Some e, w2)) (\<lambda>w2.
     on_err (contextFailure ctx w2) (\<lambda>e w3. (Some e, w3)) (\<lambda>w3.
     on_err (sys CMarshal w3) (\<lambda>e w4. (Some (Wrapf ''encode auth storage file'' [e]), w4)) (\<lambda>w4.
     on_err (contextFailure ctx w4) (\<lambda>e w5. (Some e, w5)) (\<lambda>w5.
     on_err (sys CCreateTemp w5)
       (\<lambda>e w6. (Some (Wrapf ''create temporary auth storage file'' [e]), w6))
       (replace_file path ctx (marshal_state state)))))))"

section \<open>withState\<close>

text \<open>The callback of \<open>withState\<close>: it may modify the decoded state in place and assign captured
  variables; \<open>Inr changed\<close> or an error.\<close>

type_synonym 'c state_update =
  "raw_map \<Rightarrow> bool \<Rightarrow> 'c \<Rightarrow> world \<Rightarrow> ((go_error, bool) result \<times> raw_map \<times> 'c) \<times> world"

definition locked_update ::
  "string \<Rightarrow> go_context \<Rightarrow> 'c state_update \<Rightarrow> 'c \<Rightarrow> world \<Rightarrow> (go_error option \<times> 'c) \<times> world" where
  "locked_update path ctx update c w =
     on_err (contextFailure ctx w) (\<lambda>e w1. ((Some e, c), w1)) (\<lambda>w1.
     case readStorageState path w1 of
       (Inl e, w2) \<Rightarrow> ((Some e, c), w2)
     | (Inr (state, present), w2) \<Rightarrow>
         (case update state present c w2 of
            ((Inl e, state', c'), w3) \<Rightarrow> ((Some e, c'), w3)
          | ((Inr changed, state', c'), w3) \<Rightarrow>
              (if \<not> changed then ((None, c'), w3)
               else (case writeStorageState path ctx state' w3 of (r, w4) \<Rightarrow> ((r, c'), w4)))))"

definition with_lock ::
  "string \<Rightarrow> go_context \<Rightarrow> bool \<Rightarrow> 'c state_update \<Rightarrow> 'c \<Rightarrow> world \<Rightarrow> (go_error option \<times> 'c) \<times> world" where
  "with_lock path ctx createDirectory update c w =
     on_err (if createDirectory
             then on_err (sys CMkdirAll w) (\<lambda>e w1. (Some (Wrapf ''create auth storage directory'' [e]), w1))
                    (\<lambda>w1. (None, update_fs (\<lambda>fs. fs\<lparr>fs_dir := True\<rparr>) w1))
             else (None, w)) (\<lambda>e w1. ((Some e, c), w1)) (\<lambda>w1.
     on_err (acquireStorageLock (path @ ''.lock'') ctx w1) (\<lambda>e w2. ((Some e, c), w2)) (\<lambda>w2.
     case locked_update path ctx update c w2 of (r, w3) \<Rightarrow> (r, storageLock_Close w3)))"

definition withState ::
  "string \<Rightarrow> go_context \<Rightarrow> bool \<Rightarrow> 'c state_update \<Rightarrow> 'c \<Rightarrow> world \<Rightarrow> (go_error option \<times> 'c) \<times> world" where
  "withState path ctx createDirectory update c w =
     on_err (storageGate_lock ctx w) (\<lambda>e w1. ((Some e, c), w1)) (\<lambda>w1.
     case lstat w1 of
       (Inl e, w2) \<Rightarrow>
         (if \<not> errors_Is e OsErrNotExist then ((Some (Wrapf ''inspect auth storage file'' [e]), c), w2)
          else if \<not> createDirectory then
            (case update newStorageState False c w2 of
               ((Inl e', state', c'), w3) \<Rightarrow> ((Some e', c'), w3)
             | ((Inr changed, state', c'), w3) \<Rightarrow>
                 (if \<not> changed then ((None, c'), w3) else with_lock path ctx True update c' w3))
          else with_lock path ctx True update c w2)
     | (Inr regular, w2) \<Rightarrow>
         (if \<not> regular then ((Some (not_regular path), c), w2)
          else with_lock path ctx createDirectory update c w2))"

section \<open>Operations\<close>

text \<open>A receiver is the path it was built with, or \<open>None\<close> for a nil pointer.\<close>

definition load_update :: "auth_storage_state option state_update" where
  "load_update state present c w =
     (case storageState_snapshot state of
        Inl e \<Rightarrow> ((Inl e, state, None), w)
      | Inr s \<Rightarrow> ((Inr False, state, Some s), w))"

definition FileStorage_Load ::
  "string option \<Rightarrow> go_context \<Rightarrow> world \<Rightarrow> (go_error, auth_storage_state option) result \<times> world" where
  "FileStorage_Load recv ctx w =
     (case recv of
        None \<Rightarrow> (Inl invalidStorageReceiver, w)
      | Some path \<Rightarrow>
          (case withState path ctx False load_update None w of
             ((Some e, s), w1) \<Rightarrow> (Inl e, w1)
           | ((None, s), w1) \<Rightarrow> (Inr s, w1)))"

definition transact_update :: "go_context \<Rightarrow> callback \<Rightarrow> captures state_update" where
  "transact_update ctx update raw present cap w =
     (case storageState_snapshot raw of
        Inl e \<Rightarrow> ((Inl e, raw, cap), w)
      | Inr state \<Rightarrow>
          (case update cap state w of
             ((Some e, cap', state'), w1) \<Rightarrow> ((Inl e, raw, cap'), w1)
           | ((None, cap', state'), w1) \<Rightarrow>
               on_err (contextFailure ctx w1) (\<lambda>e w2. ((Inl e, raw, cap'), w2)) (\<lambda>w2.
               case time_now w2 of
                 (t, w3) \<Rightarrow>
                   (case replaceSnapshot (unix_milli t) state' raw of
                      Inl e \<Rightarrow> ((Inl e, raw, cap'), w3)
                    | Inr raw' \<Rightarrow>
                        ((Inr (marshal_state raw \<noteq> marshal_state raw'), raw', cap'), w3)))))"

definition FileStorage_Transact ::
  "string option \<Rightarrow> go_context \<Rightarrow> callback option \<Rightarrow> captures \<Rightarrow> world \<Rightarrow>
   (go_error option \<times> captures) \<times> world" where
  "FileStorage_Transact recv ctx update cap w =
     (case recv of
        None \<Rightarrow> ((Some invalidStorageReceiver, cap), w)
      | Some path \<Rightarrow>
          (case update of
             None \<Rightarrow> ((Some callback_required, cap), w)
           | Some f \<Rightarrow> withState path ctx True (transact_update ctx f) cap w))"

definition clear_update :: "unit state_update" where
  "clear_update state present c w =
     (if \<not> present then ((Inr False, state, c), w)
      else ((Inr True, bumpDeviceAuthGeneration (map_put k_pending JNull (map_put k_auth JNull [])), c), w))"

definition FileStorage_Clear :: "string option \<Rightarrow> go_context \<Rightarrow> world \<Rightarrow> go_error option \<times> world" where
  "FileStorage_Clear recv ctx w =
     (case recv of
        None \<Rightarrow> (Some invalidStorageReceiver, w)
      | Some path \<Rightarrow> (case withState path ctx False clear_update () w of ((r, _), w1) \<Rightarrow> (r, w1)))"

text \<open>\<open>Delete\<close>: after the second inspection the file is removed and the directory synced, all with
  the lock held.\<close>

definition delete_locked :: "string \<Rightarrow> go_context \<Rightarrow> world \<Rightarrow> go_error option \<times> world" where
  "delete_locked path ctx w =
     on_err (contextFailure ctx w) (\<lambda>e w1. (Some e, w1)) (\<lambda>w1.
     case lstat w1 of
       (Inl e, w2) \<Rightarrow>
         (if errors_Is e OsErrNotExist then (None, w2)
          else (Some (Wrapf ''inspect auth storage file'' [e]), w2))
     | (Inr regular, w2) \<Rightarrow>
         (if \<not> regular then (Some (not_regular path), w2)
          else (case sys CRemove w2 of
                  (Some e, w3) \<Rightarrow>
                    (if errors_Is e OsErrNotExist then syncDirectory w3
                     else (Some (Wrapf ''delete auth storage file'' [e]), w3))
                | (None, w3) \<Rightarrow>
                    syncDirectory (update_fs (\<lambda>fs. fs\<lparr>fs_file := None, fs_dir_synced := False\<rparr>) w3))))"

definition FileStorage_Delete :: "string option \<Rightarrow> go_context \<Rightarrow> world \<Rightarrow> go_error option \<times> world" where
  "FileStorage_Delete recv ctx w =
     (case recv of
        None \<Rightarrow> (Some invalidStorageReceiver, w)
      | Some path \<Rightarrow>
          on_err (storageGate_lock ctx w) (\<lambda>e w1. (Some e, w1)) (\<lambda>w1.
          case lstat w1 of
            (Inl e, w2) \<Rightarrow>
              (if errors_Is e OsErrNotExist then (None, w2)
               else (Some (Wrapf ''inspect auth storage file'' [e]), w2))
          | (Inr regular, w2) \<Rightarrow>
              (if \<not> regular then (Some (not_regular path), w2)
               else on_err (acquireStorageLock (path @ ''.lock'') ctx w2) (\<lambda>e w3. (Some e, w3)) (\<lambda>w3.
                    case delete_locked path ctx w3 of (r, w4) \<Rightarrow> (r, storageLock_Close w4)))))"

definition FileStorage :: "string option \<Rightarrow> auth_storage" where
  "FileStorage recv = \<lparr>as_load = FileStorage_Load recv, as_transact = FileStorage_Transact recv,
     as_clear = FileStorage_Clear recv\<rparr>"

end
