(* ===== verification/FileStorageSpec.thy ===== *)
theory FileStorageSpec
  imports FileStorage
begin

text \<open>
  What the operations of \<open>FileStorage\<close> leave in the file. The lemmas follow the layers of the
  code: system calls, the replacement of the file, the locked update, the three interface
  operations; the last section instantiates the \<open>AuthStorage\<close> contract.
\<close>

section \<open>Rules for the control structure\<close>

lemma on_err_rule:
  assumes "\<And>e w1. r = (Some e, w1) \<Longrightarrow> P (handle e w1)" and "\<And>w1. r = (None, w1) \<Longrightarrow> P (continue w1)"
  shows "P (on_err r handle continue)"
proof (cases r)
  case (Pair a w1)
  with assms show ?thesis by (cases a) (simp_all add: on_err_def)
qed

lemma on_err_simps [simp]:
  "on_err (None, w) h k = k w" "on_err (Some e, w) h k = h e w"
  by (simp_all add: on_err_def)

text \<open>The contents of the credential file: \<open>None\<close> when there is none, \<open>Some None\<close> when the path
  is not a regular file.\<close>

definition fs_data :: "fsys \<Rightarrow> string option option" where
  "fs_data fs = (case fs_file fs of None \<Rightarrow> None | Some Irregular \<Rightarrow> Some None
     | Some (Regular d m s) \<Rightarrow> Some (Some d))"

text \<open>A step that changes neither the contents nor the temporary files.\<close>

definition meta_step :: "world \<Rightarrow> world \<Rightarrow> bool" where
  "meta_step w w' \<longleftrightarrow> local_step w w' \<and> w_mem w' = w_mem w \<and> fs_data (w_fs w') = fs_data (w_fs w) \<and>
     fs_temps (w_fs w') = fs_temps (w_fs w)"

lemma meta_step_refl [simp, intro]: "meta_step w w"
  by (simp add: meta_step_def)

lemma meta_step_trans [trans]: "meta_step u v \<Longrightarrow> meta_step v w \<Longrightarrow> meta_step u w"
  by (auto simp: meta_step_def intro: local_step_trans)

lemma ticks_meta: "ticks w w' \<Longrightarrow> meta_step w w'"
  by (simp add: meta_step_def ticks_def)

lemma meta_step_local: "meta_step w w' \<Longrightarrow> local_step w w'"
  by (simp add: meta_step_def)

lemma meta_step_data: "meta_step w w' \<Longrightarrow> fs_data (w_fs w') = fs_data (w_fs w)"
  by (simp add: meta_step_def)

lemma update_fs_fields [simp]:
  "w_fs (update_fs f w) = f (w_fs w)" "w_mem (update_fs f w) = w_mem w"
  "local_step u (update_fs f w) \<longleftrightarrow> local_step u w"
  by (simp_all add: update_fs_def local_step_def)

lemma update_fs_meta:
  "fs_data (f (w_fs w)) = fs_data (w_fs w) \<Longrightarrow> fs_temps (f (w_fs w)) = fs_temps (w_fs w) \<Longrightarrow>
   meta_step w (update_fs f w)"
  by (simp add: meta_step_def)

section \<open>Replacing the file\<close>

text \<open>\<open>n\<close> is the temporary file, the credential file is still the one of \<open>w0\<close>.\<close>

definition temp_stage :: "world \<Rightarrow> node \<Rightarrow> world \<Rightarrow> bool" where
  "temp_stage w0 n w \<longleftrightarrow> local_step w0 w \<and> w_mem w = w_mem w0 \<and>
     fs_file (w_fs w) = fs_file (w_fs w0) \<and> fs_temps (w_fs w) = n # fs_temps (w_fs w0)"

text \<open>How a write may end: with an error and the old file in place, or with the new file in place. A
  temporary copy, readable by the owner only, is left behind only when its removal failed.\<close>

definition left_behind :: "world \<Rightarrow> world \<Rightarrow> bool" where
  "left_behind w0 w \<longleftrightarrow> (\<exists>n. w_fault w0 n CRemoveTemp \<noteq> None) \<and>
     (\<exists>d s. fs_temps (w_fs w) = Regular d owner_only s # fs_temps (w_fs w0))"

definition write_outcome :: "world \<Rightarrow> string \<Rightarrow> go_error option \<times> world \<Rightarrow> bool" where
  "write_outcome w0 data rw \<longleftrightarrow>
     (case rw of (r, w') \<Rightarrow>
        local_step w0 w' \<and> w_mem w' = w_mem w0 \<and>
        (r \<noteq> None \<and> fs_file (w_fs w') = fs_file (w_fs w0) \<and>
           (fs_temps (w_fs w') = fs_temps (w_fs w0) \<or> left_behind w0 w') \<or>
         fs_file (w_fs w') = Some (Regular data owner_only True) \<and>
           fs_temps (w_fs w') = fs_temps (w_fs w0) \<and> (r = None \<longrightarrow> fs_dir_synced (w_fs w'))))"

lemma temp_stage_ticks: "temp_stage w0 n w \<Longrightarrow> ticks w w' \<Longrightarrow> temp_stage w0 n w'"
  by (auto simp: temp_stage_def ticks_def intro: local_step_trans)

lemma temp_stage_update: "temp_stage w0 n w \<Longrightarrow> temp_stage w0 (f n) (update_temp f w)"
  by (simp add: temp_stage_def update_temp_def)

lemma temp_stage_new:
  "local_step w0 w \<Longrightarrow> w_mem w = w_mem w0 \<Longrightarrow> w_fs w = w_fs w0 \<Longrightarrow>
   temp_stage w0 (Regular [] owner_only False) (update_fs new_temp w)"
  by (simp add: temp_stage_def new_temp_def)

lemma temp_stage_context:
  assumes "temp_stage w0 n w"
    and "\<And>e w1. temp_stage w0 n w1 \<Longrightarrow> P (h e w1)" "\<And>w1. temp_stage w0 n w1 \<Longrightarrow> P (k w1)"
  shows "P (on_err (contextFailure ctx w) h k)"
  by (rule on_err_rule) (blast intro: assms(2,3) temp_stage_ticks [OF assms(1)] contextFailure_ticks)+

lemma temp_stage_sys:
  assumes "temp_stage w0 n w"
    and "\<And>e w1. temp_stage w0 n w1 \<Longrightarrow> P (h e w1)" "\<And>w1. temp_stage w0 n w1 \<Longrightarrow> P (k w1)"
  shows "P (on_err (sys call w) h k)"
  by (rule on_err_rule) (blast intro: assms(2,3) temp_stage_ticks [OF assms(1)] sys_ticks)+

lemma lstat_ticks: "lstat w = (r, w') \<Longrightarrow> ticks w w'"
  by (auto simp: lstat_def dest!: sys_ticks split: prod.splits option.splits)

lemma validate_ticks: "validateStorageDestination path w = (r, w') \<Longrightarrow> ticks w w'"
  by (auto simp: validateStorageDestination_def split: prod.splits sum.splits if_splits dest: lstat_ticks)

lemma temp_stage_validate:
  assumes "temp_stage w0 n w"
    and "\<And>e w1. temp_stage w0 n w1 \<Longrightarrow> P (h e w1)" "\<And>w1. temp_stage w0 n w1 \<Longrightarrow> P (k w1)"
  shows "P (on_err (validateStorageDestination path w) h k)"
  by (rule on_err_rule) (blast intro: assms(2,3) temp_stage_ticks [OF assms(1)] validate_ticks)+

lemma remove_temp_cases:
  assumes "temp_stage w0 n w"
  obtains (removed) w1 where "remove_temp w = (None, w1)" "local_step w0 w1" "w_mem w1 = w_mem w0"
      "fs_file (w_fs w1) = fs_file (w_fs w0)" "fs_temps (w_fs w1) = fs_temps (w_fs w0)"
  | (kept) e w1 where "remove_temp w = (Some e, w1)" "temp_stage w0 n w1" "\<exists>n. w_fault w0 n CRemoveTemp \<noteq> None"
proof (cases "sys CRemoveTemp w")
  case (Pair r w1)
  from temp_stage_ticks [OF assms sys_ticks [OF Pair]] have t: "temp_stage w0 n w1" .
  show thesis
  proof (cases r)
    case None
    with t Pair show thesis
      by (intro removed [of "drop_temp w1"]) (auto simp: remove_temp_def temp_stage_def drop_temp_def)
  next
    case (Some e)
    with Pair assms have "\<exists>n. w_fault w0 n CRemoveTemp \<noteq> None"
      by (auto simp: sys_def temp_stage_def local_step_def)
    with Some t Pair show thesis by (intro kept) (auto simp: remove_temp_def)
  qed
qed

lemma write_cleanup_outcome:
  assumes "temp_stage w0 (Regular d owner_only s) w"
  shows "write_outcome w0 data (write_cleanup cause w)"
  using assms
proof (cases rule: remove_temp_cases)
  case (removed w1)
  then show ?thesis by (simp add: write_outcome_def write_cleanup_def)
next
  case (kept e w1)
  from kept(2) have w1: "local_step w0 w1" "w_mem w1 = w_mem w0" "fs_file (w_fs w1) = fs_file (w_fs w0)"
    "left_behind w0 w1"
    using kept(3) by (auto simp: temp_stage_def left_behind_def)
  from kept(2) show ?thesis
  proof (cases rule: remove_temp_cases)
    case (removed w2)
    with kept(1) w1 show ?thesis by (simp add: write_outcome_def write_cleanup_def)
  next
    case (kept e' w2)
    then have "left_behind w0 w2" by (auto simp: temp_stage_def left_behind_def)
    with kept \<open>remove_temp w = (Some e, w1)\<close> w1 show ?thesis
      by (simp add: write_outcome_def write_cleanup_def temp_stage_def)
  qed
qed

lemma write_fail_outcome:
  "temp_stage w0 (Regular d owner_only s) w \<Longrightarrow> write_outcome w0 data (write_fail operation cause w)"
  unfolding write_fail_def by (rule write_cleanup_outcome) (auto simp: sys_def elim: temp_stage_ticks)

lemma rename_outcome:
  assumes "temp_stage w0 (Regular data owner_only True) w"
  shows "write_outcome w0 data
    (on_err (syncDirectoryRaw (update_fs rename_temp w)) (\<lambda>e w1. (Some (f e), w1)) (\<lambda>w1. (None, w1)))"
proof -
  let ?w = "update_fs rename_temp w"
  have r: "local_step w0 ?w" "w_mem ?w = w_mem w0" "fs_file (w_fs ?w) = Some (Regular data owner_only True)"
    "fs_temps (w_fs ?w) = fs_temps (w_fs w0)"
    using assms by (simp_all add: temp_stage_def rename_temp_def)
  obtain e w1 where s: "sys CSyncDir ?w = (e, w1)" by fastforce
  from sys_ticks [OF s] have "local_step ?w w1" "w_mem w1 = w_mem ?w" "w_fs w1 = w_fs ?w"
    by (simp_all add: ticks_def)
  with r local_step_trans [of w0 ?w w1] show ?thesis
    by (cases e) (simp_all add: syncDirectoryRaw_def s write_outcome_def)
qed

lemmas stage_rules = temp_stage_context temp_stage_sys temp_stage_validate

lemma replace_file_outcome:
  assumes "local_step w0 w" "w_mem w = w_mem w0" "w_fs w = w_fs w0"
  shows "write_outcome w0 data (replace_file path ctx data w)"
proof -
  have m: "set_mode owner_only (Regular [] owner_only False) = Regular [] owner_only False"
    and d: "set_data data (Regular [] owner_only False) = Regular data owner_only False"
    and s: "set_synced (Regular data owner_only False) = Regular data owner_only True"
    by (simp_all add: set_mode_def set_data_def set_synced_def)
  show ?thesis
    unfolding replace_file_def
    apply (rule temp_stage_context [OF temp_stage_new [OF assms]], erule write_cleanup_outcome)
    apply (erule temp_stage_sys, erule write_fail_outcome)
    apply (drule temp_stage_update [where f = "set_mode owner_only"], unfold m)
    apply (erule temp_stage_context, erule write_cleanup_outcome)
    apply (erule temp_stage_sys, erule write_fail_outcome)
    apply (drule temp_stage_update [where f = "set_data data"], unfold d)
    apply (erule temp_stage_context, erule write_cleanup_outcome)
    apply (erule temp_stage_sys, erule write_fail_outcome)
    apply (drule temp_stage_update [where f = set_synced], unfold s)
    apply (erule temp_stage_context, erule write_cleanup_outcome)
    apply (erule temp_stage_sys, erule write_cleanup_outcome)
    apply (erule temp_stage_context, erule write_cleanup_outcome)
    apply (erule temp_stage_validate, erule write_cleanup_outcome)
    apply (erule temp_stage_context, erule write_cleanup_outcome)
    apply (erule temp_stage_sys, erule write_cleanup_outcome)
    apply (erule rename_outcome)
    done
qed

lemma write_outcome_refused: "ticks w0 w \<Longrightarrow> write_outcome w0 data (Some e, w)"
  by (simp add: write_outcome_def ticks_def)

lemma writeStorageState_outcome:
  "write_outcome w (marshal_state state) (writeStorageState path ctx state w)"
proof -
  note [intro] = write_outcome_refused ticks_trans contextFailure_ticks validate_ticks sys_ticks
  show ?thesis
    unfolding writeStorageState_def
    apply (rule on_err_rule, blast)
    apply (rule on_err_rule, blast)
    apply (rule on_err_rule, blast)
    apply (rule on_err_rule, blast)
    apply (rule on_err_rule, blast)
    apply (rule on_err_rule, blast)
    apply (rule replace_file_outcome)
      apply (blast intro: ticks_local)
     apply (metis ticksD(1) contextFailure_ticks validate_ticks sys_ticks)
    apply (metis ticksD(2) contextFailure_ticks validate_ticks sys_ticks)
    done
qed

section \<open>Lock and read\<close>

lemma flock_try_ticks: "flock_try n w = (r, w') \<Longrightarrow> ticks w w'"
  by (auto simp: flock_try_def Let_def split: prod.splits option.splits dest: sys_ticks)

lemma lock_loop_ticks: "lock_loop n ctx w = (r, w') \<Longrightarrow> ticks w w'"
proof (induction n ctx w rule: lock_loop.induct)
  case (1 n ctx w)
  obtain f w1 where f: "flock_try n w = (f, w1)" by fastforce
  then have t: "ticks w w1" by (rule flock_try_ticks)
  show ?case
  proof (cases f)
    case None
    with "1.prems" f t show ?thesis by (simp add: lock_loop.simps)
  next
    case (Some e)
    obtain c w2 where c: "contextFailure ctx w1 = (c, w2)" by fastforce
    then have t2: "ticks w w2" using t by (blast intro: ticks_trans contextFailure_ticks)
    have eq: "lock_loop n ctx w =
        (if \<not> errors_Is e SyscallWouldBlock then (Some (lock_fail ''acquire'' e), w1)
         else (case c of
                 Some c' \<Rightarrow> (Some (lock_fail ''acquire'' c'), w2)
               | None \<Rightarrow> (case n of 0 \<Rightarrow> (None, w2) | Suc m \<Rightarrow> lock_loop m ctx w2)))"
      by (subst lock_loop.simps) (simp add: f Some c split: option.split)
    show ?thesis
    proof (cases "errors_Is e SyscallWouldBlock \<and> c = None \<and> n \<noteq> 0")
      case True
      then obtain m where m: "n = Suc m" by (cases n) auto
      with True "1.prems" have "lock_loop m ctx w2 = (r, w')" unfolding eq by simp
      with "1.IH" [OF f [symmetric] Some _ c [symmetric]] True m t2 show ?thesis
        by (auto intro: ticks_trans)
    next
      case False
      with "1.prems" t t2 show ?thesis
        unfolding eq by (auto split: if_splits option.splits nat.splits)
    qed
  qed
qed

text \<open>Rules for a call that is a \<open>meta_step\<close>.\<close>

lemma meta_rule:
  assumes "meta_step w0 w" and "\<And>x w1. r = (x, w1) \<Longrightarrow> meta_step w w1"
    and "\<And>e w1. meta_step w0 w1 \<Longrightarrow> P (h e w1)" "\<And>w1. meta_step w0 w1 \<Longrightarrow> P (k w1)"
  shows "P (on_err r h k)"
  by (rule on_err_rule) (rule assms(3,4), rule meta_step_trans [OF assms(1) assms(2)], assumption)+

lemma meta_sys:
  assumes "meta_step w0 w"
    and "\<And>e w1. meta_step w0 w1 \<Longrightarrow> P (h e w1)" "\<And>w1. meta_step w0 w1 \<Longrightarrow> P (k w1)"
  shows "P (on_err (sys call w) h k)"
  by (rule meta_rule [OF assms(1) ticks_meta [OF sys_ticks]]) (auto intro: assms(2,3))

text \<open>The contents a lock holder may find: those of the caller, or what another process made of
  them before it released the lock.\<close>

definition locked_data :: "world \<Rightarrow> string option option \<Rightarrow> bool" where
  "locked_data w d \<longleftrightarrow> d = fs_data (w_fs w) \<or>
     (\<exists>n fs. fs_data fs = fs_data (w_fs w) \<and> d = fs_data (w_rival w n fs))"

definition quiet :: "world \<Rightarrow> bool" where
  "quiet w \<longleftrightarrow> (\<forall>n fs. fs_data (w_rival w n fs) = fs_data fs)"

lemma quiet_locked: "quiet w \<Longrightarrow> locked_data w d \<Longrightarrow> d = fs_data (w_fs w)"
  by (auto simp: quiet_def locked_data_def)

lemma locked_data_refl [simp, intro]: "locked_data w (fs_data (w_fs w))"
  by (simp add: locked_data_def)

lemma locked_data_meta: "meta_step u w \<Longrightarrow> locked_data w d \<Longrightarrow> locked_data u d"
  by (auto simp: locked_data_def meta_step_def local_step_def)

text \<open>A step that may include the writes of other processes.\<close>

definition lock_step :: "world \<Rightarrow> world \<Rightarrow> bool" where
  "lock_step w w' \<longleftrightarrow> local_step w w' \<and> w_mem w' = w_mem w \<and> locked_data w (fs_data (w_fs w'))"

lemma meta_lock_step: "meta_step w w' \<Longrightarrow> lock_step w w'"
  by (auto simp: meta_step_def lock_step_def intro: locked_data_meta)

lemma meta_then_lock: "meta_step u v \<Longrightarrow> lock_step v w \<Longrightarrow> lock_step u w"
  by (auto simp: lock_step_def intro: locked_data_meta) (auto simp: meta_step_def intro: local_step_trans)

lemma lock_then_meta: "lock_step u v \<Longrightarrow> meta_step v w \<Longrightarrow> lock_step u w"
  by (auto simp: lock_step_def meta_step_def intro: local_step_trans)

lemma lock_open_meta: "lock_open w = (r, w') \<Longrightarrow> meta_step w w'"
proof -
  assume "lock_open w = (r, w')"
  moreover obtain e w1 where "sys CLockOpen w = (e, w1)" by fastforce
  moreover from this have "meta_step w w1" by (blast intro: ticks_meta sys_ticks)
  moreover have "meta_step w1 (update_fs (\<lambda>fs. case fs_lock fs of None \<Rightarrow> fs\<lparr>fs_lock := x\<rparr> | Some _ \<Rightarrow> fs) w1)" for x
    by (rule update_fs_meta) (auto simp: fs_data_def split: option.split)
  ultimately show ?thesis
    by (cases e) (auto simp: lock_open_def split: if_splits intro: meta_step_trans)
qed

definition lock_outcome :: "go_context \<Rightarrow> world \<Rightarrow> go_error option \<times> world \<Rightarrow> bool" where
  "lock_outcome ctx w rw \<longleftrightarrow> lock_step w (snd rw) \<and> (fst rw = None \<longrightarrow> ctx \<noteq> None) \<and>
     (fst rw \<noteq> None \<longrightarrow> meta_step w (snd rw))"

lemma acquireStorageLock_step: "lock_outcome ctx w (acquireStorageLock path ctx w)"
proof (cases "ctx = None")
  case True
  then show ?thesis by (simp add: acquireStorageLock_def lock_outcome_def meta_lock_step)
next
  case False
  let ?P = "lock_outcome ctx w"
  have step: "?P (Some e, v)" if "meta_step w v" for e v
    using that by (simp add: lock_outcome_def meta_lock_step)
  have chmod: "meta_step v (update_fs (\<lambda>fs. fs\<lparr>fs_lock := g fs\<rparr>) v)" for v g
    by (rule update_fs_meta) (simp_all add: fs_data_def)
  have acquired: "?P (None, update_fs (w_rival v n) v)" if v: "meta_step w v" for v n
  proof -
    have "lock_step v (update_fs (w_rival v n) v)"
      by (auto simp: lock_step_def locked_data_def)
    with v False show ?thesis by (auto simp: lock_outcome_def intro: meta_then_lock)
  qed
  show ?thesis
    unfolding acquireStorageLock_def if_not_P [OF False] Let_def
    apply (rule meta_rule [OF meta_step_refl lock_open_meta], assumption, erule step)
    apply (erule meta_sys, erule step)
    apply (split if_split, intro conjI impI, erule step)
    apply (erule meta_sys, erule step)
    apply (drule meta_step_trans [OF _ chmod])
    apply (erule meta_rule [OF _ ticks_meta [OF lock_loop_ticks]], assumption, erule step)
    apply (erule acquired)
    done
qed

text \<open>What \<open>readStorageState\<close> makes of the contents.\<close>

definition read_data :: "string option option \<Rightarrow> (raw_map \<times> bool) option" where
  "read_data d =
     (case d of
        None \<Rightarrow> Some (newStorageState, False)
      | Some None \<Rightarrow> None
      | Some (Some contents) \<Rightarrow>
          (if length contents > maxAuthFileBytes then None
           else (case decodeStorageState contents of Inl _ \<Rightarrow> None | Inr s \<Rightarrow> Some (s, True))))"

text \<open>No fault pretends that the file is missing.\<close>

definition honest :: "world \<Rightarrow> bool" where
  "honest w \<longleftrightarrow> (\<forall>n c e. w_fault w n c = Some e \<longrightarrow> \<not> errors_Is e OsErrNotExist)"

lemma honest_local: "local_step w w' \<Longrightarrow> honest w' = honest w"
  by (simp add: honest_def local_step_def)

lemma honest_sys: "honest w \<Longrightarrow> sys call w = (Some e, w') \<Longrightarrow> \<not> errors_Is e OsErrNotExist"
  by (auto simp: honest_def sys_def)

lemma ticks_sys: "ticks u w \<Longrightarrow> sys call w = (r, w') \<Longrightarrow> ticks u w'"
  by (blast intro: ticks_trans sys_ticks)

definition open_outcome :: "world \<Rightarrow> (go_error, string) result \<times> world \<Rightarrow> bool" where
  "open_outcome w rw \<longleftrightarrow> meta_step w (snd rw) \<and>
     (\<forall>d. fst rw = Inr d \<longrightarrow> fs_data (w_fs w) = Some (Some d)) \<and>
     (\<forall>e. honest w \<longrightarrow> fst rw = Inl e \<longrightarrow> errors_Is e OsErrNotExist \<longrightarrow> fs_data (w_fs w) = None)"

lemma openCredentialFile_outcome: "open_outcome w (openCredentialFile path w)"
proof -
  let ?P = "open_outcome w"
  have fault: "?P (Inl e, v)" if "sys call u = (Some e, v)" "ticks w u" for call u e v
  proof -
    have "ticks w v" using that by (blast intro: ticks_trans sys_ticks)
    moreover have "honest w \<Longrightarrow> \<not> errors_Is e OsErrNotExist"
      using honest_sys [OF _ that(1)] honest_local [OF ticks_local [OF that(2)]] by simp
    ultimately show ?thesis by (auto simp: open_outcome_def intro: ticks_meta)
  qed
  have chmod: "meta_step w (update_fs (\<lambda>fs. fs\<lparr>fs_file := Some (Regular d m s)\<rparr>) v)"
    if "ticks w v" "fs_file (w_fs w) = Some (Regular d m' s)" for v d m m' s
    using that by (intro meta_step_trans [OF ticks_meta update_fs_meta]) (auto simp: fs_data_def ticksD)
  show ?thesis
    unfolding openCredentialFile_def
    apply (rule on_err_rule, erule fault, simp)
    apply (drule sys_ticks)
    apply (simp only: ticksD)
    apply (split option.split, intro conjI impI allI)
     apply (simp add: open_outcome_def ticks_meta fs_data_def)
    apply (rule on_err_rule, erule fault, assumption)
    apply (drule (1) ticks_sys)
    apply (split node.split, intro conjI impI allI)
     apply (rule on_err_rule, erule fault, assumption)
     apply (drule (1) ticks_sys)
     apply (simp add: open_outcome_def chmod, simp add: fs_data_def)
    apply (simp add: open_outcome_def ticks_meta)
    done
qed

lemma readStorageState_outcome:
  assumes "readStorageState path w = (r, w')" "honest w"
  shows "meta_step w w' \<and> (\<forall>x. r = Inr x \<longrightarrow> read_data (fs_data (w_fs w)) = Some x)"
proof -
  obtain f w1 where f: "openCredentialFile path w = (f, w1)" by fastforce
  have o: "meta_step w w1" "\<And>d. f = Inr d \<Longrightarrow> fs_data (w_fs w) = Some (Some d)"
    "\<And>e. f = Inl e \<Longrightarrow> errors_Is e OsErrNotExist \<Longrightarrow> fs_data (w_fs w) = None"
    using openCredentialFile_outcome [of w path] assms(2) by (auto simp: open_outcome_def f)
  show ?thesis
  proof (cases f)
    case (Inl e)
    with assms f o show ?thesis by (auto simp: readStorageState_def read_data_def split: if_splits)
  next
    case (Inr d)
    obtain e w2 where r: "sys CRead w1 = (e, w2)" by fastforce
    have m: "meta_step w w2" using o by (blast intro: meta_step_trans ticks_meta sys_ticks [OF r])
    have t: "length d \<le> maxAuthFileBytes \<Longrightarrow> take (maxAuthFileBytes + 1) d = d" by simp
    show ?thesis
    proof (cases "e = None \<and> length d \<le> maxAuthFileBytes")
      case True
      with assms f o Inr r m t show ?thesis
        by (auto simp: readStorageState_def read_data_def split: sum.splits)
    next
      case False
      with assms f Inr r m show ?thesis
        by (cases e) (auto simp: readStorageState_def)
    qed
  qed
qed

section \<open>The locked update\<close>

definition update_pure :: "'c state_update \<Rightarrow> bool" where
  "update_pure u \<longleftrightarrow> (\<forall>s p c w r w'. u s p c w = (r, w') \<longrightarrow> ticks w w')"

lemma update_pureD: "update_pure u \<Longrightarrow> u s p c w = (r, w') \<Longrightarrow> ticks w w'"
  unfolding update_pure_def by blast

text \<open>How an update under the lock may end: refused before its callback ran, refused or without a
  change after it ran on the decoded file, or written.\<close>

lemma locked_update_cases:
  assumes "locked_update path ctx update c w = ((r, c'), w')" "honest w" "update_pure update"
  obtains (refused) "r \<noteq> None" "c' = c" "meta_step w w'"
  | (ran) wl state present res state' w2 where "meta_step w wl"
      "read_data (fs_data (w_fs wl)) = Some (state, present)"
      "update state present c wl = ((res, state', c'), w2)" "res \<noteq> Inr True"
      "r = (case res of Inl e \<Rightarrow> Some e | Inr _ \<Rightarrow> None)" "meta_step wl w'"
  | (wrote) wl state present state' w2 where "meta_step w wl"
      "read_data (fs_data (w_fs wl)) = Some (state, present)"
      "update state present c wl = ((Inr True, state', c'), w2)" "ticks wl w2"
      "write_outcome w2 (marshal_state state') (r, w')"
proof -
  obtain e w1 where e: "contextFailure ctx w = (e, w1)" by fastforce
  then have t1: "ticks w w1" by (rule contextFailure_ticks)
  obtain f w2 where f: "readStorageState path w1 = (f, w2)" by fastforce
  have h: "honest w1" using assms(2) honest_local [OF ticks_local [OF t1]] by simp
  from readStorageState_outcome [OF f h] t1 have m2: "meta_step w w2"
    and rd: "\<And>x. f = Inr x \<Longrightarrow> read_data (fs_data (w_fs w2)) = Some x"
    by (auto simp: meta_step_data ticksD intro: meta_step_trans ticks_meta)
  show thesis
  proof (cases "e = None \<and> is_ok f")
    case False
    with assms(1) e f m2 t1 show thesis
      by (intro refused; cases e; cases f) (auto simp: locked_update_def ticks_meta)
  next
    case True
    then obtain state present where x: "f = Inr (state, present)" by (auto elim: is_okE)
    obtain res state' c2 w3 where u: "update state present c w2 = ((res, state', c2), w3)"
      by (metis prod.exhaust_sel)
    then have t3: "ticks w2 w3" by (rule update_pureD [OF assms(3)])
    show thesis
    proof (cases "res = Inr True")
      case changed: True
      obtain q w4 where q: "writeStorageState path ctx state' w3 = (q, w4)" by fastforce
      from assms(1) e f True x u changed q have "q = r" "w4 = w'" "c2 = c'"
        by (auto simp: locked_update_def)
      with wrote [OF m2 rd [OF x], of state' w3] u t3 changed q
        writeStorageState_outcome [of w3 state' path ctx]
      show thesis by simp
    next
      case same: False
      with assms(1) e f True x u have "c2 = c'" "w3 = w'" "r = (case res of Inl e \<Rightarrow> Some e | Inr _ \<Rightarrow> None)"
        by (auto simp: locked_update_def split: sum.splits)
      with ran [OF m2 rd [OF x], of res state' w3] u t3 same show thesis by (simp add: ticks_meta)
    qed
  qed
qed

section \<open>withState\<close>

lemma storageLock_Close_ticks: "ticks w (storageLock_Close w)"
  by (simp add: storageLock_Close_def sys_def)

lemma write_outcome_ticks: "write_outcome w0 d (r, w) \<Longrightarrow> ticks w w' \<Longrightarrow> write_outcome w0 d (r, w')"
proof -
  assume o: "write_outcome w0 d (r, w)" and t: "ticks w w'"
  from t have "local_step w w'" "w_mem w' = w_mem w" "w_fs w' = w_fs w" by (simp_all add: ticks_def)
  with o show ?thesis unfolding write_outcome_def left_behind_def by (auto intro: local_step_trans)
qed

text \<open>The three outcomes of a scoped update of the file. \<open>wl\<close> is the world in which the callback
  runs; the contents it sees are those the lock protects.\<close>

definition state_run ::
  "world \<Rightarrow> 'c state_update \<Rightarrow> 'c \<Rightarrow> raw_map \<Rightarrow> bool \<Rightarrow> (go_error, bool) result \<Rightarrow> raw_map \<Rightarrow> 'c \<Rightarrow>
   world \<Rightarrow> world \<Rightarrow> bool" where
  "state_run w update c state present res state' c' wl w2 \<longleftrightarrow>
     lock_step w wl \<and> read_data (fs_data (w_fs wl)) = Some (state, present) \<and>
     update state present c wl = ((res, state', c'), w2) \<and> ticks wl w2"

lemma with_lock_cases:
  assumes "with_lock path ctx create update c w = ((r, c'), w')" "honest w" "update_pure update"
  obtains (refused) "r \<noteq> None" "c' = c" "lock_step w w'"
  | (ran) wl state present res state' w2 where "state_run w update c state present res state' c' wl w2"
      "res \<noteq> Inr True" "r = (case res of Inl e \<Rightarrow> Some e | Inr _ \<Rightarrow> None)" "meta_step wl w'"
  | (wrote) wl state present state' w2 where
      "state_run w update c state present (Inr True) state' c' wl w2"
      "write_outcome w2 (marshal_state state') (r, w')"
proof -
  define mk where "mk = (if create
    then on_err (sys CMkdirAll w) (\<lambda>e w1. (Some (Wrapf ''create auth storage directory'' [e]), w1))
           (\<lambda>w1. (None, update_fs (\<lambda>fs. fs\<lparr>fs_dir := True\<rparr>) w1))
    else (None, w))"
  obtain e w1 where e: "mk = (e, w1)" by fastforce
  have mkdir: "meta_step v (update_fs (\<lambda>fs. fs\<lparr>fs_dir := True\<rparr>) v)" for v
    by (rule update_fs_meta) (simp_all add: fs_data_def)
  have m1: "meta_step w w1"
  proof (cases "sys CMkdirAll w")
    case (Pair a v)
    then have "meta_step w v" by (blast intro: ticks_meta sys_ticks)
    with e Pair mkdir [of v] show ?thesis
      by (cases create; cases a) (auto simp: mk_def intro: meta_step_trans)
  qed
  obtain f w2 where f: "acquireStorageLock (path @ ''.lock'') ctx w1 = (f, w2)" by fastforce
  with acquireStorageLock_step [of ctx w1 "path @ ''.lock''"] have "lock_step w1 w2"
    by (simp add: lock_outcome_def)
  with m1 have l2: "lock_step w w2" by (rule meta_then_lock)
  show thesis
  proof (cases "e = None \<and> f = None")
    case False
    with assms(1) e f l2 m1 show thesis
      by (intro refused; cases e; cases f) (auto simp: with_lock_def mk_def [symmetric] meta_lock_step)
  next
    case True
    obtain q w3 where q: "locked_update path ctx update c w2 = (q, w3)" by fastforce
    with assms(1) e f True have r: "q = (r, c')" and w': "w' = storageLock_Close w3"
      by (auto simp: with_lock_def mk_def [symmetric])
    have t: "ticks w3 w'" unfolding w' by (rule storageLock_Close_ticks)
    have "honest w2" using l2 assms(2) honest_local [of w w2] by (simp add: lock_step_def)
    from q [unfolded r] this assms(3) show thesis
    proof (cases rule: locked_update_cases)
      case refused
      show thesis
        by (rule that(1) [OF refused(1,2)]) (blast intro: lock_then_meta meta_step_trans ticks_meta t l2 refused(3))
    next
      case (ran wl state present res state' w4)
      from ran(3) have "ticks wl w4" by (rule update_pureD [OF assms(3)])
      with ran l2 t show thesis
        by (intro that(2) [of state present res state' wl w4])
           (auto simp: state_run_def intro: lock_then_meta meta_step_trans ticks_meta)
    next
      case (wrote wl state present state' w4)
      with l2 t show thesis
        by (intro that(3) [of state present state' wl w4])
           (auto simp: state_run_def intro: lock_then_meta write_outcome_ticks)
    qed
  qed
qed

text \<open>Callbacks that do not ask for a write when the file does not exist.\<close>

definition absent_safe :: "bool \<Rightarrow> 'c state_update \<Rightarrow> bool" where
  "absent_safe create update \<longleftrightarrow> create \<or>
     (\<forall>c w. fst (fst (update newStorageState False c w)) \<noteq> Inr True)"

lemma state_run_meta:
  "meta_step u w \<Longrightarrow> state_run w update c state present res state' c' wl w2 \<Longrightarrow>
   state_run u update c state present res state' c' wl w2"
  by (auto simp: state_run_def intro: meta_then_lock)

lemma withState_cases:
  assumes "withState path ctx create update c w = ((r, c'), w')" "honest w" "update_pure update"
    "absent_safe create update"
  obtains (refused) "r \<noteq> None" "c' = c" "lock_step w w'"
  | (ran) wl state present res state' w2 where "state_run w update c state present res state' c' wl w2"
      "res \<noteq> Inr True" "r = (case res of Inl e \<Rightarrow> Some e | Inr _ \<Rightarrow> None)" "meta_step wl w'"
  | (wrote) wl state present state' w2 where
      "state_run w update c state present (Inr True) state' c' wl w2"
      "write_outcome w2 (marshal_state state') (r, w')"
proof -
  obtain g w1 where g: "storageGate_lock ctx w = (g, w1)" by fastforce
  then have t1: "ticks w w1" by (rule storageGate_lock_ticks)
  obtain l w2 where l: "lstat w1 = (l, w2)" by fastforce
  with t1 have t2: "ticks w w2" by (blast intro: ticks_trans lstat_ticks)
  then have m2: "meta_step w w2" and h2: "honest w2"
    using assms(2) honest_local [OF ticks_local] by (auto intro: ticks_meta)
  note outcomes = that
  have locked: thesis if "with_lock path ctx create' update c w2 = ((r, c'), w')" for create'
    using that h2 assms(3)
  proof (cases rule: with_lock_cases)
    case refused
    show thesis by (rule outcomes(1) [OF refused(1,2) meta_then_lock [OF m2 refused(3)]])
  next
    case (ran wl state present res state' w4)
    show thesis by (rule outcomes(2) [OF state_run_meta [OF m2 ran(1)] ran(2-4)])
  next
    case (wrote wl state present state' w4)
    show thesis by (rule outcomes(3) [OF state_run_meta [OF m2 wrote(1)] wrote(2)])
  qed
  show thesis
  proof (cases "g = None")
    case False
    with assms(1) g t1 show thesis
      by (intro that(1)) (auto simp: withState_def meta_lock_step ticks_meta)
  next
    case gate: True
    show thesis
    proof (cases l)
      case (Inr regular)
      with assms(1) g gate l m2 locked show thesis
        by (cases regular) (auto simp: withState_def meta_lock_step intro: that(1))
    next
      case (Inl e)
      show thesis
      proof (cases "errors_Is e OsErrNotExist \<and> \<not> create")
        case False
        with assms(1) g gate l Inl m2 locked [of True] show thesis
          by (cases create) (auto simp: withState_def meta_lock_step intro: that(1) split: if_splits)
      next
        case absent: True
        have "fs_data (w_fs w2) = None"
          using l Inl absent honest_sys [of w1 CLstat] assms(2) honest_local [OF ticks_local [OF t1]]
          by (auto simp: lstat_def fs_data_def ticksD [OF sys_ticks] split: prod.splits option.splits)
        then have rd: "read_data (fs_data (w_fs w2)) = Some (newStorageState, False)"
          by (simp add: read_data_def)
        obtain res state' c2 w3 where u: "update newStorageState False c w2 = ((res, state', c2), w3)"
          by (metis prod.exhaust_sel)
        with assms(4) absent have res: "res \<noteq> Inr True"
          unfolding absent_safe_def by (metis fst_conv)
        have t3: "ticks w2 w3" using u by (rule update_pureD [OF assms(3)])
        from assms(1) g gate l Inl absent u res
        have "r = (case res of Inl e \<Rightarrow> Some e | Inr _ \<Rightarrow> None)" "c2 = c'" "w3 = w'"
          by (auto simp: withState_def split: sum.splits if_splits)
        with that(2) [of newStorageState False res state' w2 w3] rd u t3 m2 res show thesis
          by (simp add: state_run_def meta_lock_step ticks_meta)
      qed
    qed
  qed
qed

section \<open>The session in the file\<close>

text \<open>The abstract state: the session the contents decode to (the size limit of a later read
  aside), the empty one when there is none.\<close>

definition data_state :: "string option option \<Rightarrow> auth_storage_state" where
  "data_state d =
     (case d of
        Some (Some contents) \<Rightarrow>
          (case decodeStorageState contents of
             Inl _ \<Rightarrow> empty_state
           | Inr s \<Rightarrow> (case storageState_snapshot s of Inl _ \<Rightarrow> empty_state | Inr st \<Rightarrow> st))
      | _ \<Rightarrow> empty_state)"

definition file_abs :: "world \<Rightarrow> auth_storage_state" where
  "file_abs w = data_state (fs_data (w_fs w))"

definition file_inv :: "world \<Rightarrow> bool" where
  "file_inv w \<longleftrightarrow> clock_ok w \<and> honest w \<and> quiet w"

lemma snapshot_wf: "storageState_snapshot s = Inr st \<Longrightarrow> state_wf st"
  by (auto simp: storageState_snapshot_def storageState_auth_def storageState_pending_def state_wf_def
      validateAuth_def validatePending_def split: sum.splits option.splits if_splits)

lemma parse_uint64_zero: "parse_uint64 ''0'' = Some 0"
  by (simp add: parse_uint64_def all_digits_def is_digit_def byte_def)

lemma put_default_parts:
  "storageState_auth (put_default k_pending v s) = storageState_auth s"
  "storageState_auth (put_default k_generation v s) = storageState_auth s"
  "storageState_pending (put_default k_generation v s) = storageState_pending s"
  "storageState_pending (put_default k_auth v s) = storageState_pending s"
  "storageState_auth (put_default k_auth JNull s) = storageState_auth s"
  "storageState_pending (put_default k_pending JNull s) = storageState_pending s"
  "storageState_generation (put_default k_generation (JNum ''0'') s) = storageState_generation s"
  by (cases "map_of s k_auth"; cases "map_of s k_pending"; cases "map_of s k_generation";
      simp add: storageState_auth_def storageState_pending_def storageState_generation_def
        put_default_def map_of_put parse_uint64_zero)+

lemma decode_snapshot:
  assumes "decodeStorageState data = Inr s"
  shows "\<exists>st. storageState_snapshot s = Inr st"
proof -
  from assms obtain ms where p: "parse_json data = Some (JObj ms)"
    by (auto simp: decodeStorageState_def split: option.splits json.splits)
  define m where "m = dec_map ms []"
  define m2 where "m2 = put_default k_pending JNull (put_default k_auth JNull m)"
  have d: "decodeStorageState data =
      (case storageState_auth m of Inl e \<Rightarrow> Inl e
       | Inr _ \<Rightarrow> (case storageState_pending m of Inl e \<Rightarrow> Inl e
          | Inr _ \<Rightarrow> (case storageState_generation m2 of Inl e \<Rightarrow> Inl e
             | Inr _ \<Rightarrow> Inr (put_default k_generation (JNum ''0'') m2))))"
    unfolding decodeStorageState_def p Let_def m_def m2_def by simp
  obtain a where a: "storageState_auth m = Inr a" using assms d by (cases "storageState_auth m") auto
  obtain q where q: "storageState_pending m = Inr q"
    using assms d a by (cases "storageState_pending m") auto
  obtain g where g: "storageState_generation m2 = Inr g"
    using assms d a q by (cases "storageState_generation m2") auto
  have "s = put_default k_generation (JNum ''0'') m2" using assms d a q g by simp
  with a q g have "storageState_auth s = Inr a" "storageState_pending s = Inr q"
    "storageState_generation s = Inr g"
    by (simp_all add: m2_def put_default_parts)
  then show ?thesis by (simp add: storageState_snapshot_def)
qed

lemma read_data_snapshot:
  assumes "read_data d = Some (state, present)"
  shows "storageState_snapshot state = Inr (data_state d)" "raw_map_ok state"
proof -
  have "storageState_snapshot newStorageState = Inr empty_state"
    by (simp add: storageState_snapshot_def storageState_auth_def storageState_pending_def
        storageState_generation_def newStorageState_def empty_state_def parse_uint64_zero k_auth_def k_pending_def k_generation_def)
  with assms show "storageState_snapshot state = Inr (data_state d)"
    by (auto simp: read_data_def data_state_def dest: decode_snapshot split: option.splits if_splits sum.splits)
  from assms show "raw_map_ok state"
    by (auto simp: read_data_def raw_map_ok_new intro: decodeStorageState_ok
        split: option.splits if_splits sum.splits)
qed

lemma data_state_wf: "state_wf (data_state d)"
proof -
  have "state_wf empty_state" by (simp add: empty_state_def state_wf_def)
  then show ?thesis
    by (auto simp: data_state_def dest: snapshot_wf split: option.splits sum.splits)
qed

section \<open>The callbacks of the operations\<close>

lemma load_update_pure: "update_pure load_update" "absent_safe create load_update"
proof -
  show "update_pure load_update"
    unfolding update_pure_def load_update_def by (auto split: sum.splits)
  show "absent_safe create load_update"
    unfolding absent_safe_def load_update_def by (auto split: sum.split)
qed

lemma clear_update_pure: "update_pure clear_update" "absent_safe create clear_update"
proof -
  show "update_pure clear_update" unfolding update_pure_def clear_update_def by auto
  show "absent_safe create clear_update" unfolding absent_safe_def clear_update_def by auto
qed

text \<open>A run of \<open>transact_update\<close> that does not fail: the callback accepted and the three known
  members are replaced by the prepared state.\<close>

lemma transact_update_run:
  assumes "transact_update ctx f raw present cap w = ((res, raw', cap'), w')" "callback_pure f"
    and "storageState_snapshot raw = Inr st"
  shows "ticks w w' \<and> (\<forall>b. res = Inr b \<longrightarrow>
    (\<exists>s' w1 n t. f cap st w = ((None, cap', s'), w1) \<and>
      prepared_state (unix_milli (w_clock w n)) s' = Inr t \<and>
      raw' = put_session (st_auth t) (st_pending t) (st_generation t) raw \<and>
      b = (marshal_state raw \<noteq> marshal_state raw')))"
proof -
  obtain fe c s' w1 where f: "f cap st w = ((fe, c, s'), w1)" by (metis prod.exhaust_sel)
  with assms(2) have t1: "ticks w w1" by (rule callback_pureD)
  obtain e w2 where e: "contextFailure ctx w1 = (e, w2)" by fastforce
  with t1 have t2: "ticks w w2" by (blast intro: ticks_trans contextFailure_ticks)
  then have t3: "ticks w (tick w2)" by (rule ticks_trans) simp
  have clock: "w_clock w2 = w_clock w" using t2 by (simp add: ticks_def local_step_def)
  let ?p = "prepareStorageSnapshot (unix_milli (w_clock w (w_tick w2))) (Some s')"
  show ?thesis
  proof (cases "fe = None \<and> e = None \<and> is_ok ?p")
    case False
    with assms(1,3) f e t1 t2 t3 clock show ?thesis
      by (cases fe; cases e; cases ?p)
         (auto simp: transact_update_def time_now_def replaceSnapshot_def)
  next
    case True
    then obtain auth pending where p: "?p = Inr (auth, pending)" by (auto elim: is_okE)
    let ?t = "s'\<lparr>st_auth := auth, st_pending := pending\<rparr>"
    from p have "prepared_state (unix_milli (w_clock w (w_tick w2))) s' = Inr ?t"
      by (simp add: prepared_state_def)
    moreover from assms(1,3) f e True p t3 clock
    have "c = cap'" "ticks w w'" "raw' = put_session auth pending (st_generation s') raw"
      "res = Inr (marshal_state raw \<noteq> marshal_state raw')"
      by (auto simp: transact_update_def time_now_def replaceSnapshot_def)
    ultimately show ?thesis using f True by fastforce
  qed
qed

text \<open>What is in the file after a transaction's write is the state it committed.\<close>

lemma data_state_marshal:
  assumes "raw_map_ok raw" "state_text_ok t" "state_wf t"
  shows "data_state (Some (Some (marshal_state
    (put_session (st_auth t) (st_pending t) (st_generation t) raw)))) = t"
proof -
  obtain s' where "decodeStorageState (marshal_state
      (put_session (st_auth t) (st_pending t) (st_generation t) raw)) = Inr s'"
    "storageState_snapshot s' = Inr t"
    using decode_marshal_session [OF assms] by metis
  then show ?thesis by (simp add: data_state_def)
qed

lemma clear_marshal:
  "data_state (Some (Some (marshal_state
     (bumpDeviceAuthGeneration (map_put k_pending JNull (map_put k_auth JNull [])))))) =
   \<lparr>st_auth = None, st_pending = None, st_generation = 1\<rparr>"
proof -
  let ?t = "\<lparr>st_auth = None, st_pending = None, st_generation = 1\<rparr> :: auth_storage_state"
  have "bumpDeviceAuthGeneration (map_put k_pending JNull (map_put k_auth JNull [])) =
      put_session (st_auth ?t) (st_pending ?t) (st_generation ?t) []"
    by (simp add: bumpDeviceAuthGeneration_def storageState_generation_def put_session_def
        nextGeneration_def k_auth_def k_pending_def k_generation_def)
  with data_state_marshal [of "[]" ?t] show ?thesis
    by (simp add: raw_map_ok_def state_text_ok_def state_wf_def)
qed

text \<open>The world in which \<open>Transact\<close> holds the file lock: the gate, the inspection of the file, the
  directory and the lock itself, which is granted after the other processes wrote. \<open>None\<close> when one
  of them fails.\<close>

definition transact_lock :: "string \<Rightarrow> go_context \<Rightarrow> world \<Rightarrow> world option" where
  "transact_lock path ctx w =
     (case storageGate_lock ctx w of
        (Some e, w1) \<Rightarrow> None
      | (None, w1) \<Rightarrow>
          (case lstat w1 of
             (l, w2) \<Rightarrow>
               (if (case l of Inl e \<Rightarrow> errors_Is e OsErrNotExist | Inr regular \<Rightarrow> regular)
                then (case sys CMkdirAll w2 of
                        (Some e, w3) \<Rightarrow> None
                      | (None, w3) \<Rightarrow>
                          (case acquireStorageLock (path @ ''.lock'') ctx (update_fs (\<lambda>fs. fs\<lparr>fs_dir := True\<rparr>) w3) of
                             (Some e, w4) \<Rightarrow> None
                           | (None, w4) \<Rightarrow> Some w4))
                else None)))"

lemma with_lock_split:
  assumes "with_lock path ctx True u c w = ((r, c'), w')"
  obtains (failed) "r \<noteq> None" "c' = c" "meta_step w w'"
    "case sys CMkdirAll w of (Some e, w3) \<Rightarrow> True
     | (None, w3) \<Rightarrow> fst (acquireStorageLock (path @ ''.lock'') ctx (update_fs (\<lambda>fs. fs\<lparr>fs_dir := True\<rparr>) w3)) \<noteq> None"
  | (locked) w3 wl v where "sys CMkdirAll w = (None, w3)"
      "acquireStorageLock (path @ ''.lock'') ctx (update_fs (\<lambda>fs. fs\<lparr>fs_dir := True\<rparr>) w3) = (None, wl)"
      "lock_step w wl" "locked_update path ctx u c wl = ((r, c'), v)" "w' = storageLock_Close v"
proof (cases "sys CMkdirAll w")
  case (Pair e w3)
  have m: "meta_step w w3" by (rule ticks_meta [OF sys_ticks [OF Pair]])
  show thesis
  proof (cases e)
    case (Some x)
    with Pair assms m show thesis by (intro failed) (auto simp: with_lock_def)
  next
    case None
    let ?w = "update_fs (\<lambda>fs. fs\<lparr>fs_dir := True\<rparr>) w3"
    have m2: "meta_step w ?w"
      by (rule meta_step_trans [OF m update_fs_meta]) (simp_all add: fs_data_def)
    obtain f wl where f: "acquireStorageLock (path @ ''.lock'') ctx ?w = (f, wl)" by fastforce
    note o = acquireStorageLock_step [of ctx ?w "path @ ''.lock''", unfolded f lock_outcome_def, simplified]
    show thesis
    proof (cases f)
      case (Some x)
      with Pair None assms f o m2 show thesis
        by (intro failed) (auto simp: with_lock_def intro: meta_step_trans)
    next
      case acquired: None
      obtain q v where q: "locked_update path ctx u c wl = (q, v)" by fastforce
      with Pair None acquired assms f have "q = (r, c')" "w' = storageLock_Close v" by (auto simp: with_lock_def)
      with Pair None acquired f q o m2 show thesis
        by (intro locked [of w3 wl v]) (auto intro: meta_then_lock)
    qed
  qed
qed

text \<open>\<open>Transact\<close> fails before it holds the lock, having written nothing, or is one locked update.\<close>

lemma transact_lock_split:
  assumes "withState path ctx True u c w = ((r, c'), w')"
  shows "case transact_lock path ctx w of
      None \<Rightarrow> r \<noteq> None \<and> c' = c \<and> meta_step w w'
    | Some wl \<Rightarrow> lock_step w wl \<and>
        (\<exists>v. locked_update path ctx u c wl = ((r, c'), v) \<and> w' = storageLock_Close v)"
proof -
  obtain g w1 where g: "storageGate_lock ctx w = (g, w1)" by fastforce
  then have t1: "ticks w w1" by (rule storageGate_lock_ticks)
  obtain l w2 where l: "lstat w1 = (l, w2)" by fastforce
  with t1 have m2: "meta_step w w2" by (blast intro: ticks_meta ticks_trans lstat_ticks)
  let ?go = "case l of Inl e \<Rightarrow> errors_Is e OsErrNotExist | Inr regular \<Rightarrow> regular"
  show ?thesis
  proof (cases "g = None \<and> ?go")
    case False
    with assms g l t1 m2 show ?thesis
      by (cases g; cases l) (auto simp: withState_def transact_lock_def ticks_meta)
  next
    case True
    with assms g l have "with_lock path ctx True u c w2 = ((r, c'), w')"
      by (cases l) (auto simp: withState_def)
    then show ?thesis
    proof (cases rule: with_lock_split)
      case failed
      with True g l m2 show ?thesis
        by (auto simp: transact_lock_def intro: meta_step_trans split: prod.splits option.splits)
    next
      case (locked w3 wl v)
      with True g l m2 show ?thesis by (auto simp: transact_lock_def intro: meta_then_lock)
    qed
  qed
qed

text \<open>The locked part of a transaction: the callback sees the session the lock protects, and what it
  accepted is written whole or not at all.\<close>

lemma transact_update_pure:
  assumes "callback_pure f"
  shows "update_pure (transact_update ctx f)"
  unfolding update_pure_def
proof (intro allI impI)
  fix s p c v q v'
  assume u: "transact_update ctx f s p c v = (q, v')"
  obtain res s' c' where q: "q = (res, s', c')" by (rule prod_cases3)
  show "ticks v v'"
  proof (cases "storageState_snapshot s")
    case (Inl e)
    with u show ?thesis by (simp add: transact_update_def)
  next
    case (Inr st)
    from transact_update_run [OF u [unfolded q] assms this] show ?thesis ..
  qed
qed

lemma locked_transact_outcome:
  assumes "locked_update path ctx (transact_update ctx f) cap wl = ((r, cap'), w')"
    and "callback_pure f" "honest wl"
  obtains (unchanged) e where "r = Some e" "local_step wl w'" "w_mem w' = w_mem wl"
      "fs_data (w_fs w') = fs_data (w_fs wl)"
  | (committed) v s' w1 n t where "meta_step wl v"
      "f cap (file_abs wl) v = ((None, cap', s'), w1)"
      "prepared_state (unix_milli (w_clock wl n)) s' = Inr t"
      "local_step v w'" "w_mem w' = w_mem wl"
      "clock_ok wl \<Longrightarrow> state_text_ok t \<Longrightarrow> file_abs w' = t"
      "r = None \<Longrightarrow> fs_data (w_fs w') \<noteq> fs_data (w_fs wl) \<Longrightarrow>
        fs_dir_synced (w_fs w') \<and> (\<exists>d. fs_file (w_fs w') = Some (Regular d owner_only True))"
  using assms(1,3) transact_update_pure [OF assms(2)]
proof (cases rule: locked_update_cases)
  case refused
  then show thesis using unchanged by (cases r) (auto simp: meta_step_def)
next
  case (ran v state present res state' w2)
  note snap = read_data_snapshot [OF ran(2)]
  have fv: "fs_data (w_fs v) = fs_data (w_fs wl)" "w_clock v = w_clock wl"
    using ran(1) by (simp_all add: meta_step_def local_step_def)
  have same: "fs_data (w_fs w') = fs_data (w_fs wl)" using meta_step_data [OF ran(6)] fv(1) by simp
  show thesis
  proof (cases res)
    case (Inl e)
    with ran(1,5,6) same show thesis
      by (intro unchanged [of e]) (auto simp: meta_step_def intro: local_step_trans)
  next
    case (Inr b)
    with ran(4) have "res = Inr False" by (cases b) auto
    with transact_update_run [OF ran(3) assms(2) snap(1)] obtain s' w1 n t where
      f: "f cap (data_state (fs_data (w_fs v))) v = ((None, cap', s'), w1)"
      and t: "prepared_state (unix_milli (w_clock v n)) s' = Inr t"
      and st: "state' = put_session (st_auth t) (st_pending t) (st_generation t) state"
      and eq: "marshal_state state = marshal_state state'" by auto
    have "file_abs w' = t" if ok: "clock_ok wl" "state_text_ok t"
    proof -
      have wf: "state_wf t"
        using prepared_state_clock [OF ok(1)] t fv(2) by (auto intro: state_ready_wf)
      have "storageState_snapshot state = storageState_snapshot state'"
        unfolding st using snap(2) eq [unfolded st]
        by (intro marshal_snapshot) (auto intro: raw_map_ok_put_session)
      with snap(1) snapshot_put_session [OF ok(2) wf, of state] st fv(1)
      have "data_state (fs_data (w_fs wl)) = t" by simp
      with same show ?thesis by (simp add: file_abs_def)
    qed
    with f t fv same ran(1,6) show thesis
      by (intro committed [of v s' w1 n t]) (auto simp: file_abs_def meta_step_def)
  qed
next
  case (wrote v state present state' w2)
  note snap = read_data_snapshot [OF wrote(2)]
  have fv: "fs_data (w_fs v) = fs_data (w_fs wl)" "w_clock v = w_clock wl" "local_step wl v" "w_mem v = w_mem wl"
    using wrote(1) by (simp_all add: meta_step_def local_step_def)
  from transact_update_run [OF wrote(3) assms(2) snap(1)] obtain s' w1 n t where
    f: "f cap (data_state (fs_data (w_fs v))) v = ((None, cap', s'), w1)"
    and t: "prepared_state (unix_milli (w_clock v n)) s' = Inr t"
    and st: "state' = put_session (st_auth t) (st_pending t) (st_generation t) state" by auto
  have w2: "local_step v w2" "w_mem w2 = w_mem v" "w_fs w2 = w_fs v"
    using wrote(4) by (simp_all add: ticks_def)
  from wrote(5) have o: "local_step w2 w'" "w_mem w' = w_mem w2"
    and alt: "r \<noteq> None \<and> fs_file (w_fs w') = fs_file (w_fs w2) \<or>
      fs_file (w_fs w') = Some (Regular (marshal_state state') owner_only True) \<and>
      (r = None \<longrightarrow> fs_dir_synced (w_fs w'))"
    by (auto simp: write_outcome_def)
  have vw: "local_step v w'" using w2(1) o(1) by (rule local_step_trans)
  show thesis
  proof (cases "fs_file (w_fs w') = Some (Regular (marshal_state state') owner_only True)")
    case True
    have "file_abs w' = t" if ok: "clock_ok wl" "state_text_ok t"
    proof -
      have "state_wf t"
        using prepared_state_clock [OF ok(1)] t fv(2) by (auto intro: state_ready_wf)
      with data_state_marshal [OF snap(2) ok(2)] True st show ?thesis
        by (simp add: file_abs_def fs_data_def)
    qed
    moreover have "r = None \<Longrightarrow> fs_data (w_fs w') \<noteq> fs_data (w_fs wl) \<Longrightarrow> fs_dir_synced (w_fs w')"
      using alt w2 fv(1) by (auto simp: fs_data_def)
    ultimately show thesis using wrote(1) f t fv o w2 vw True
      by (intro committed [of v s' w1 n t]) (auto simp: file_abs_def)
  next
    case False
    with alt have "r \<noteq> None" "fs_data (w_fs w') = fs_data (w_fs wl)"
      using w2(3) fv(1) by (auto simp: fs_data_def)
    with o w2 fv vw show thesis
      by (cases r) (auto intro: unchanged local_step_trans)
  qed
qed

text \<open>Every outcome of a transaction, whatever other processes do.\<close>

lemma FileStorage_Transact_outcome:
  assumes "FileStorage_Transact (Some path) ctx (Some f) cap w = ((r, cap'), w')"
    and "callback_pure f" "honest w"
  obtains (unchanged) e where "r = Some e" "lock_step w w'"
  | (committed) wl s' w1 n t where "lock_step w wl"
      "f cap (file_abs wl) wl = ((None, cap', s'), w1)"
      "prepared_state (unix_milli (w_clock w n)) s' = Inr t"
      "local_step wl w'" "w_mem w' = w_mem w"
      "clock_ok w \<Longrightarrow> state_text_ok t \<Longrightarrow> file_abs w' = t"
      "r = None \<Longrightarrow> fs_data (w_fs w') \<noteq> fs_data (w_fs wl) \<Longrightarrow>
        fs_dir_synced (w_fs w') \<and> (\<exists>d. fs_file (w_fs w') = Some (Regular d owner_only True))"
proof (cases "transact_lock path ctx w")
  case None
  with assms(1) transact_lock_split [of path ctx "transact_update ctx f" cap w r cap' w'] show thesis
    using unchanged by (cases r) (auto simp: FileStorage_Transact_def meta_lock_step)
next
  case (Some wl)
  with assms(1) transact_lock_split [of path ctx "transact_update ctx f" cap w r cap' w'] obtain v where
    l: "lock_step w wl" "locked_update path ctx (transact_update ctx f) cap wl = ((r, cap'), v)"
      "w' = storageLock_Close v"
    by (auto simp: FileStorage_Transact_def)
  have h: "honest wl" "w_clock wl = w_clock w" "w_mem wl = w_mem w"
    using l(1) assms(3) honest_local [of w wl] by (simp_all add: lock_step_def local_step_def)
  have c: "clock_ok wl = clock_ok w" using h(2) by (simp add: clock_ok_def)
  have t: "ticks v w'" unfolding l(3) by (rule storageLock_Close_ticks)
  then have f: "w_fs w' = w_fs v" "w_mem w' = w_mem v" "local_step v w'" by (simp_all add: ticks_def)
  from l(2) assms(2) h(1) show thesis
  proof (cases rule: locked_transact_outcome)
    case (unchanged e)
    with l(1) f show thesis
      by (intro that(1) [of e]) (auto simp: lock_step_def intro: local_step_trans)
  next
    case (committed u s' w1 n t)
    have e: "file_abs u = file_abs wl" "fs_data (w_fs u) = fs_data (w_fs wl)"
      using committed(1) by (simp_all add: file_abs_def meta_step_def)
    from committed(4) f(3) have "local_step u w'" by (rule local_step_trans)
    then show thesis
      using committed l(1) f e h c
      by (intro that(2) [OF lock_then_meta [OF l(1) committed(1)], of s' w1 n t]) (simp_all add: file_abs_def)
  qed
qed

text \<open>A successful load returns the session in the file; no load changes the contents.\<close>

lemma FileStorage_Load_outcome:
  assumes "FileStorage_Load (Some path) ctx w = (r, w')" "honest w"
  shows "lock_step w w' \<and> (\<forall>v. r = Inr v \<longrightarrow> v = Some (file_abs w'))"
proof -
  obtain e s where ws: "withState path ctx False load_update None w = ((e, s), w')"
    and r: "r = (case e of Some e \<Rightarrow> Inl e | None \<Rightarrow> Inr s)"
    using assms(1) by (auto simp: FileStorage_Load_def split: prod.splits option.splits)
  from ws assms(2) load_update_pure(1) load_update_pure(2) show ?thesis
  proof (cases rule: withState_cases)
    case refused
    with r show ?thesis by auto
  next
    case (ran wl state present res state' w2)
    from ran(1) have rd: "read_data (fs_data (w_fs wl)) = Some (state, present)"
      and u: "load_update state present None wl = ((res, state', s), w2)" and l: "lock_step w wl"
      by (simp_all add: state_run_def)
    from u read_data_snapshot(1) [OF rd] have "s = Some (file_abs wl)"
      by (auto simp: load_update_def file_abs_def)
    with ran(3,4) l r show ?thesis
      by (auto simp: file_abs_def meta_step_data intro: lock_then_meta split: option.splits)
  next
    case (wrote wl state present state' w2)
    then show ?thesis by (auto simp: state_run_def load_update_def split: sum.splits)
  qed
qed

lemma FileStorage_Clear_outcome:
  assumes "FileStorage_Clear (Some path) ctx w = (r, w')" "honest w"
  obtains (unchanged) e where "r = Some e" "lock_step w w'"
  | (absent) "r = None" "lock_step w w'" "fs_data (w_fs w') = None"
  | (cleared) wl where "lock_step w wl" "fs_data (w_fs wl) \<noteq> None" "local_step w w'"
      "w_mem w' = w_mem w" "file_abs w' = \<lparr>st_auth = None, st_pending = None, st_generation = 1\<rparr>"
proof -
  obtain c where ws: "withState path ctx False clear_update () w = ((r, c), w')"
    using assms(1) by (auto simp: FileStorage_Clear_def split: prod.splits)
  from ws assms(2) clear_update_pure(1) clear_update_pure(2) show thesis
  proof (cases rule: withState_cases)
    case refused
    then show thesis using unchanged by blast
  next
    case (ran wl state present res state' w2)
    then have "\<not> present" "res = Inr False" by (auto simp: state_run_def clear_update_def split: if_splits)
    moreover from this ran(1) have "fs_data (w_fs wl) = None"
      by (auto simp: state_run_def read_data_def split: option.splits if_splits sum.splits)
    ultimately show thesis
      using ran absent by (auto simp: state_run_def meta_step_data intro: lock_then_meta)
  next
    case (wrote wl state present state' w2)
    from wrote(1) have p: "present" and l: "lock_step w wl" and t: "ticks wl w2"
      and s: "state' = bumpDeviceAuthGeneration (map_put k_pending JNull (map_put k_auth JNull []))"
      and rd: "read_data (fs_data (w_fs wl)) = Some (state, present)"
      by (auto simp: state_run_def clear_update_def split: if_splits)
    from rd p have d: "fs_data (w_fs wl) \<noteq> None" by (cases "fs_data (w_fs wl)") (auto simp: read_data_def)
    have w2: "local_step wl w2" "w_mem w2 = w_mem wl" "w_fs w2 = w_fs wl"
      using t by (simp_all add: ticks_def)
    have ll: "local_step w w'" "w_mem w' = w_mem w"
      using l w2 wrote(2) by (auto simp: lock_step_def write_outcome_def intro: local_step_trans)
    show thesis
    proof (cases "fs_file (w_fs w') = Some (Regular (marshal_state state') owner_only True)")
      case True
      with cleared [OF l d ll] clear_marshal s show thesis by (simp add: file_abs_def fs_data_def)
    next
      case False
      with wrote(2) w2 have "r \<noteq> None" "fs_file (w_fs w') = fs_file (w_fs wl)"
        by (auto simp: write_outcome_def)
      with l ll unchanged show thesis by (cases r) (auto simp: lock_step_def fs_data_def)
    qed
  qed
qed

section \<open>The contract\<close>

lemma quiet_local: "local_step w w' \<Longrightarrow> quiet w' = quiet w"
  by (simp add: quiet_def local_step_def)

lemma file_inv_local: "local_step w w' \<Longrightarrow> file_inv w' = file_inv w"
  by (simp add: file_inv_def clock_ok_local honest_local quiet_local)

lemma quiet_lock_step: "file_inv w \<Longrightarrow> lock_step w w' \<Longrightarrow> local_step w w' \<and> file_inv w' \<and> file_abs w' = file_abs w"
  using quiet_locked [of w] by (auto simp: lock_step_def file_inv_local file_abs_def) (auto simp: file_inv_def)

lemma FileStorage_ops [simp]:
  "as_load (FileStorage p) = FileStorage_Load p" "as_transact (FileStorage p) = FileStorage_Transact p"
  "as_clear (FileStorage p) = FileStorage_Clear p"
  by (simp_all add: FileStorage_def)

lemma file_Transact_outcome:
  assumes "FileStorage_Transact (Some path) ctx (Some f) cap w = ((r, cap'), w')"
    and "callback_pure f" "file_inv w"
  shows "local_step w w' \<and> file_inv w' \<and>
    (r \<noteq> None \<and> file_abs w' = file_abs w \<or>
     (\<exists>t. commits f cap (file_abs w) w cap' t \<and> (state_text_ok t \<longrightarrow> file_abs w' = t)))"
proof -
  have h: "honest w" "clock_ok w" using assms(3) by (simp_all add: file_inv_def)
  from assms(1,2) h(1) show ?thesis
  proof (cases rule: FileStorage_Transact_outcome)
    case (unchanged e)
    with quiet_lock_step [OF assms(3)] show ?thesis by simp
  next
    case (committed wl s' w1 n t)
    from quiet_lock_step [OF assms(3) committed(1)]
    have l: "local_step w wl" "file_abs wl = file_abs w" by simp_all
    with committed(2,3) have "commits f cap (file_abs w) w cap' t"
      unfolding commits_def by metis
    moreover have "local_step w w'" using l(1) committed(4) by (rule local_step_trans)
    ultimately show ?thesis using committed(6) [OF h(2)] assms(3) file_inv_local by blast
  qed
qed

lemma file_Clear_outcome:
  assumes "FileStorage_Clear (Some path) ctx w = (r, w')" "file_inv w"
  shows "local_step w w' \<and> file_inv w' \<and>
    (r \<noteq> None \<and> file_abs w' = file_abs w \<or> st_auth (file_abs w') = None \<and> st_pending (file_abs w') = None)"
proof -
  have h: "honest w" using assms(2) by (simp add: file_inv_def)
  from assms(1) h show ?thesis
  proof (cases rule: FileStorage_Clear_outcome)
    case (unchanged e)
    with quiet_lock_step [OF assms(2)] show ?thesis by simp
  next
    case absent
    with quiet_lock_step [OF assms(2)] show ?thesis
      by (simp add: file_abs_def data_state_def empty_state_def)
  next
    case (cleared wl)
    with assms(2) show ?thesis by (simp add: file_inv_local)
  qed
qed

interpretation disk: auth_storage_contract "FileStorage (Some path)" file_abs file_inv for path
proof unfold_locales
  fix w w' assume "outside_step w w'"
  then show "file_abs w' = file_abs w \<and> file_inv w' = file_inv w"
    by (simp add: file_abs_def file_inv_def clock_ok_def honest_def quiet_def outside_step_def)
next
  fix w assume "file_inv w"
  then show "clock_ok w" by (simp add: file_inv_def)
next
  fix w show "state_wf (file_abs w)" by (simp add: file_abs_def data_state_wf)
next
  fix w w' ctx r
  assume "as_load (FileStorage (Some path)) ctx w = (r, w')" "file_inv w"
  then show "local_step w w' \<and> file_inv w' \<and> file_abs w' = file_abs w"
    using FileStorage_Load_outcome [of path ctx w r w'] quiet_lock_step [of w w'] by (simp add: file_inv_def)
next
  fix w w' ctx s
  assume "as_load (FileStorage (Some path)) ctx w = (Inr s, w')" "file_inv w"
  then show "s = Some (file_abs w)"
    using FileStorage_Load_outcome [of path ctx w "Inr s" w'] quiet_lock_step [of w w'] by (simp add: file_inv_def)
next
  fix w w' ctx f cap rt
  assume "as_transact (FileStorage (Some path)) ctx (Some f) cap w = (rt, w')" "callback_pure f" "file_inv w"
  then show "local_step w w' \<and> file_inv w'"
    using file_Transact_outcome [of path ctx f cap w "fst rt" "snd rt" w'] by simp
next
  fix w w' ctx f cap cap'
  assume "as_transact (FileStorage (Some path)) ctx (Some f) cap w = ((None, cap'), w')"
    "callback_pure f" "file_inv w"
  then show "\<exists>t. commits f cap (file_abs w) w cap' t \<and> (state_text_ok t \<longrightarrow> file_abs w' = t)"
    using file_Transact_outcome [of path ctx f cap w None cap' w'] by simp
next
  fix w w' ctx f cap e cap'
  assume "as_transact (FileStorage (Some path)) ctx (Some f) cap w = ((Some e, cap'), w')"
    "callback_pure f" "file_inv w"
  then show "file_abs w' = file_abs w \<or>
      (\<exists>t. commits f cap (file_abs w) w cap' t \<and> (state_text_ok t \<longrightarrow> file_abs w' = t))"
    using file_Transact_outcome [of path ctx f cap w "Some e" cap' w'] by simp
next
  fix w w' ctx rc
  assume "as_clear (FileStorage (Some path)) ctx w = (rc, w')" "file_inv w"
  then show "local_step w w' \<and> file_inv w'"
    using file_Clear_outcome [of path ctx w rc w'] by simp
next
  fix w w' ctx
  assume "as_clear (FileStorage (Some path)) ctx w = (None, w')" "file_inv w"
  then show "st_auth (file_abs w') = None \<and> st_pending (file_abs w') = None"
    using file_Clear_outcome [of path ctx w None w'] by simp
next
  fix w w' ctx e
  assume "as_clear (FileStorage (Some path)) ctx w = (Some e, w')" "file_inv w"
  then show "file_abs w' = file_abs w \<or> st_auth (file_abs w') = None \<and> st_pending (file_abs w') = None"
    using file_Clear_outcome [of path ctx w "Some e" w'] by simp
qed

end
