(* ===== verification/MemoryStorage.thy ===== *)
theory MemoryStorage
  imports AuthStorage
begin

text \<open>
  \<open>MemoryStorage\<close> (memory_storage.go): the state is \<open>w_mem\<close>, \<open>None\<close> for a nil receiver. It meets
  the \<open>AuthStorage\<close> contract with the stored fields themselves as the abstract state.
\<close>

section \<open>Operations\<close>

definition MemoryStorage_Load ::
  "go_context \<Rightarrow> world \<Rightarrow> (go_error, auth_storage_state option) result \<times> world" where
  "MemoryStorage_Load ctx w =
     (case w_mem w of
        None \<Rightarrow> (Inl invalidStorageReceiver, w)
      | Some _ \<Rightarrow>
          (case storageGate_lock ctx w of
             (Some e, w1) \<Rightarrow> (Inl e, w1)
           | (None, w1) \<Rightarrow> (Inr (w_mem w1), w1)))"

definition MemoryStorage_Transact ::
  "go_context \<Rightarrow> callback option \<Rightarrow> captures \<Rightarrow> world \<Rightarrow> (go_error option \<times> captures) \<times> world" where
  "MemoryStorage_Transact ctx update cap w =
     (case w_mem w of
        None \<Rightarrow> ((Some invalidStorageReceiver, cap), w)
      | Some s \<Rightarrow>
          (case update of
             None \<Rightarrow> ((Some callback_required, cap), w)
           | Some f \<Rightarrow>
               (case storageGate_lock ctx w of
                  (Some e, w1) \<Rightarrow> ((Some e, cap), w1)
                | (None, w1) \<Rightarrow>
                    (case f cap s w1 of
                       ((Some e, cap', s'), w2) \<Rightarrow> ((Some e, cap'), w2)
                     | ((None, cap', s'), w2) \<Rightarrow>
                         (case contextFailure ctx w2 of
                            (Some e, w3) \<Rightarrow> ((Some e, cap'), w3)
                          | (None, w3) \<Rightarrow>
                              (case time_now w3 of
                                 (t, w4) \<Rightarrow>
                                   (case prepareStorageSnapshot (unix_milli t) (Some s') of
                                      Inl e \<Rightarrow> ((Some e, cap'), w4)
                                    | Inr (auth, pending) \<Rightarrow>
                                        ((None, cap'),
                                         w4\<lparr>w_mem := Some \<lparr>st_auth = auth, st_pending = pending,
                                              st_generation = st_generation s'\<rparr>\<rparr>))))))))"

definition MemoryStorage_Clear :: "go_context \<Rightarrow> world \<Rightarrow> go_error option \<times> world" where
  "MemoryStorage_Clear ctx w =
     (case w_mem w of
        None \<Rightarrow> (Some invalidStorageReceiver, w)
      | Some s \<Rightarrow>
          (case storageGate_lock ctx w of
             (Some e, w1) \<Rightarrow> (Some e, w1)
           | (None, w1) \<Rightarrow>
               (None, w1\<lparr>w_mem := Some \<lparr>st_auth = None, st_pending = None,
                                         st_generation = nextGeneration (st_generation s)\<rparr>\<rparr>)))"

definition MemoryStorage :: auth_storage where
  "MemoryStorage = \<lparr>as_load = MemoryStorage_Load, as_transact = MemoryStorage_Transact,
     as_clear = MemoryStorage_Clear\<rparr>"

section \<open>The contract\<close>

definition mem_abs :: "world \<Rightarrow> auth_storage_state" where
  "mem_abs w = (case w_mem w of None \<Rightarrow> empty_state | Some s \<Rightarrow> s)"

definition mem_inv :: "world \<Rightarrow> bool" where
  "mem_inv w \<longleftrightarrow> clock_ok w \<and> (\<exists>s. w_mem w = Some s \<and> state_wf s)"

lemma prepared_state_snapshot:
  "prepareStorageSnapshot now (Some s) = Inr (auth, pending) \<Longrightarrow>
   prepared_state now s = Inr \<lparr>st_auth = auth, st_pending = pending, st_generation = st_generation s\<rparr>"
  by (simp add: prepared_state_def)

text \<open>A transaction of the memory store, from its outcome.\<close>

lemma MemoryStorage_Transact_cases:
  assumes "MemoryStorage_Transact ctx (Some f) cap w = ((e, cap'), w')" "callback_pure f"
    and "w_mem w = Some s"
  obtains (unchanged) err where "e = Some err" "ticks w w'"
  | (committed) w1 w2 s' n t where "e = None" "ticks w w1" "f cap s w1 = ((None, cap', s'), w2)"
      "prepared_state (unix_milli (w_clock w n)) s' = Inr t" "local_step w w'" "w_mem w' = Some t"
proof -
  obtain g w1 where g: "storageGate_lock ctx w = (g, w1)" by fastforce
  then have t1: "ticks w w1" by (rule storageGate_lock_ticks)
  show thesis
  proof (cases g)
    case (Some err)
    with assms g t1 show thesis by (intro unchanged) (auto simp: MemoryStorage_Transact_def)
  next
    case None
    obtain fe c s' w2 where f: "f cap s w1 = ((fe, c, s'), w2)" by (metis prod.exhaust_sel)
    with assms(2) t1 have t2: "ticks w w2" by (blast dest: callback_pureD intro: ticks_trans)
    show thesis
    proof (cases fe)
      case (Some err)
      with assms g None f t2 show thesis by (intro unchanged) (auto simp: MemoryStorage_Transact_def)
    next
      case fe: None
      obtain ce w3 where c: "contextFailure ctx w2 = (ce, w3)" by fastforce
      with t2 have t3: "ticks w w3" by (blast dest: contextFailure_ticks intro: ticks_trans)
      show thesis
      proof (cases ce)
        case (Some err)
        with assms g None f fe c t3 show thesis
          by (intro unchanged) (auto simp: MemoryStorage_Transact_def)
      next
        case ce: None
        have t4: "ticks w (tick w3)" using t3 by (rule ticks_trans) simp
        show thesis
        proof (cases "prepareStorageSnapshot (unix_milli (w_clock w3 (w_tick w3))) (Some s')")
          case (Inl err)
          with assms g None f fe c ce t4 show thesis
            by (intro unchanged) (auto simp: MemoryStorage_Transact_def time_now_def)
        next
          case (Inr ap)
          obtain auth pending where ap: "ap = (auth, pending)" by fastforce
          let ?t = "\<lparr>st_auth = auth, st_pending = pending, st_generation = st_generation s'\<rparr>"
          from assms g None f fe c ce Inr ap
          have r: "e = None" "c = cap'" "w' = (tick w3)\<lparr>w_mem := Some ?t\<rparr>"
            by (auto simp: MemoryStorage_Transact_def time_now_def)
          have "w_clock w3 = w_clock w" using t3 by (simp add: ticks_def local_step_def)
          then have "prepared_state (unix_milli (w_clock w (w_tick w3))) s' = Inr ?t"
            using prepared_state_snapshot [OF Inr [unfolded ap]] by simp
          moreover have "local_step w w'"
            using t4 r(3) by (simp add: ticks_def local_step_def)
          ultimately show thesis using r f fe t1 by (intro committed [of w1 s' w2]) auto
        qed
      qed
    qed
  qed
qed

lemma MemoryStorage_Load_cases:
  assumes "MemoryStorage_Load ctx w = (r, w')" "w_mem w = Some s"
  shows "ticks w w' \<and> (\<forall>v. r = Inr v \<longrightarrow> v = Some s)"
  using assms storageGate_lock_ticks [of ctx w]
  by (auto simp: MemoryStorage_Load_def ticksD split: prod.splits option.splits)

lemma MemoryStorage_Clear_cases:
  assumes "MemoryStorage_Clear ctx w = (r, w')" "w_mem w = Some s"
  obtains (unchanged) err where "r = Some err" "ticks w w'"
  | (cleared) "r = None" "local_step w w'"
      "w_mem w' = Some \<lparr>st_auth = None, st_pending = None, st_generation = nextGeneration (st_generation s)\<rparr>"
proof -
  obtain g w1 where g: "storageGate_lock ctx w = (g, w1)" by fastforce
  then have t1: "ticks w w1" by (rule storageGate_lock_ticks)
  show thesis
    using assms g t1 that
    by (cases g) (auto simp: MemoryStorage_Clear_def ticks_def local_step_def)
qed

lemma mem_outside: "outside_step w w' \<Longrightarrow> mem_abs w' = mem_abs w \<and> mem_inv w' = mem_inv w"
  by (simp add: mem_abs_def mem_inv_def clock_ok_def outside_step_def)

lemma mem_ticks: "ticks w w' \<Longrightarrow> mem_abs w' = mem_abs w \<and> mem_inv w' = mem_inv w"
  by (intro mem_outside ticks_outside)

lemma MemoryStorage_ops [simp]:
  "as_load MemoryStorage = MemoryStorage_Load" "as_transact MemoryStorage = MemoryStorage_Transact"
  "as_clear MemoryStorage = MemoryStorage_Clear"
  by (simp_all add: MemoryStorage_def)

lemma mem_commits:
  "ticks w w1 \<Longrightarrow> f cap (mem_abs w) w1 = ((None, cap', s'), w2) \<Longrightarrow>
   prepared_state (unix_milli (w_clock w n)) s' = Inr t \<Longrightarrow> commits f cap (mem_abs w) w cap' t"
  unfolding commits_def by (blast intro: ticks_local)

lemma mem_Transact_outcome:
  assumes "MemoryStorage_Transact ctx (Some f) cap w = ((e, cap'), w')" "callback_pure f" "mem_inv w"
  shows "local_step w w' \<and> mem_inv w' \<and>
    (case e of Some _ \<Rightarrow> mem_abs w' = mem_abs w
     | None \<Rightarrow> commits f cap (mem_abs w) w cap' (mem_abs w'))"
proof -
  from assms(3) obtain s where s: "w_mem w = Some s" and wf: "state_wf s" and clk: "clock_ok w"
    by (auto simp: mem_inv_def)
  from assms(1,2) s show ?thesis
  proof (cases rule: MemoryStorage_Transact_cases)
    case (unchanged err)
    with mem_ticks assms(3) show ?thesis by (auto simp: ticks_local)
  next
    case (committed w1 w2 s' n t)
    moreover have "state_wf t"
      using prepared_state_clock [OF clk committed(4)] by (rule state_ready_wf)
    moreover have "mem_abs w = s" "mem_abs w' = t" using s committed by (simp_all add: mem_abs_def)
    ultimately show ?thesis
      using mem_commits [of w w1 f cap cap' s' w2 n t] clk by (auto simp: mem_inv_def clock_ok_local)
  qed
qed

lemma mem_Clear_outcome:
  assumes "MemoryStorage_Clear ctx w = (r, w')" "mem_inv w"
  shows "local_step w w' \<and> mem_inv w' \<and>
    (case r of Some _ \<Rightarrow> mem_abs w' = mem_abs w
     | None \<Rightarrow> st_auth (mem_abs w') = None \<and> st_pending (mem_abs w') = None)"
proof -
  from assms(2) obtain s where s: "w_mem w = Some s" and clk: "clock_ok w" by (auto simp: mem_inv_def)
  from assms(1) s show ?thesis
  proof (cases rule: MemoryStorage_Clear_cases)
    case (unchanged err)
    with mem_ticks assms(2) show ?thesis by (auto simp: ticks_local)
  next
    case cleared
    with clk show ?thesis by (auto simp: mem_inv_def mem_abs_def state_wf_def clock_ok_local)
  qed
qed

interpretation mem: auth_storage_contract MemoryStorage mem_abs mem_inv
proof unfold_locales
  fix w w' ctx r
  assume "as_load MemoryStorage ctx w = (r, w')" "mem_inv w"
  then show "local_step w w' \<and> mem_inv w' \<and> mem_abs w' = mem_abs w"
    using MemoryStorage_Load_cases [of ctx w r w'] mem_ticks [of w w']
    by (auto simp: mem_inv_def ticks_local)
next
  fix w w' ctx s
  assume "as_load MemoryStorage ctx w = (Inr s, w')" "mem_inv w"
  then show "s = Some (mem_abs w)"
    using MemoryStorage_Load_cases [of ctx w "Inr s" w'] by (auto simp: mem_inv_def mem_abs_def)
next
  fix w assume "mem_inv w"
  then show "state_wf (mem_abs w)" by (auto simp: mem_inv_def mem_abs_def)
next
  fix w w' ctx f cap e cap'
  assume "as_transact MemoryStorage ctx (Some f) cap w = ((Some e, cap'), w')" "callback_pure f" "mem_inv w"
  then show "mem_abs w' = mem_abs w \<or>
      (\<exists>t. commits f cap (mem_abs w) w cap' t \<and> (state_text_ok t \<longrightarrow> mem_abs w' = t))"
    using mem_Transact_outcome [of ctx f cap w "Some e" cap' w'] by simp
next
  fix w w' ctx f cap cap'
  assume "as_transact MemoryStorage ctx (Some f) cap w = ((None, cap'), w')" "callback_pure f" "mem_inv w"
  then show "\<exists>t. commits f cap (mem_abs w) w cap' t \<and> (state_text_ok t \<longrightarrow> mem_abs w' = t)"
    using mem_Transact_outcome [of ctx f cap w None cap' w'] by auto
next
  fix w w' ctx f cap rt
  assume "as_transact MemoryStorage ctx (Some f) cap w = (rt, w')" "callback_pure f" "mem_inv w"
  then show "local_step w w' \<and> mem_inv w'"
    using mem_Transact_outcome [of ctx f cap w "fst rt" "snd rt" w'] by simp
next
  fix w w' ctx rc
  assume "as_clear MemoryStorage ctx w = (rc, w')" "mem_inv w"
  then show "local_step w w' \<and> mem_inv w'"
    using mem_Clear_outcome [of ctx w rc w'] by simp
next
  fix w w' ctx e
  assume "as_clear MemoryStorage ctx w = (Some e, w')" "mem_inv w"
  then show "mem_abs w' = mem_abs w \<or> st_auth (mem_abs w') = None \<and> st_pending (mem_abs w') = None"
    using mem_Clear_outcome [of ctx w "Some e" w'] by simp
next
  fix w w' ctx
  assume "as_clear MemoryStorage ctx w = (None, w')" "mem_inv w"
  then show "st_auth (mem_abs w') = None \<and> st_pending (mem_abs w') = None"
    using mem_Clear_outcome [of ctx w None w'] by simp
qed (erule mem_outside, simp add: mem_inv_def)

end
