(* ===== verification/SampleWorlds.thy ===== *)
theory SampleWorlds
  imports FileStorageSpec MemoryStorage
begin

text \<open>
  Concrete worlds at which the theorems are applied: a quiet machine whose clock advances by one
  nanosecond per reading, an empty memory store, no credential file, no network. The equations
  below evaluate the storage operations there.
\<close>

definition no_files :: fsys where
  "no_files = \<lparr>fs_file = None, fs_temps = [], fs_lock = None, fs_dir = False, fs_dir_synced = False\<rparr>"

definition file_with :: "string \<Rightarrow> fsys" where
  "file_with contents = no_files\<lparr>fs_file := Some (Regular contents 420 True), fs_dir := True\<rparr>"

definition sample_world :: world where
  "sample_world = \<lparr>w_tick = 0, w_clock = (\<lambda>n. 1700000000000000000 + int n), w_mem = Some empty_state,
     w_fs = no_files, w_fault = (\<lambda>_ _. None), w_busy = (\<lambda>_. 0), w_rival = (\<lambda>_ fs. fs),
     w_http = (\<lambda>_ _. Inl (Msg ''no network'')), w_sent = [], w_log = [], w_hostname = Inr ''host'',
     w_choose = (\<lambda>_. True), w_timers = []\<rparr>"

definition sample_auth :: auth_tokens where
  "sample_auth = \<lparr>at_access_token = ''A'', at_refresh_token = ''R'', at_expires_in = 3600,
     at_token_type = ''Bearer'', at_expires_at = 1700000003600000\<rparr>"

text \<open>A callback that stores \<open>sample_auth\<close>.\<close>

definition sample_login :: callback where
  "sample_login cap s w = ((None, cap, s\<lparr>st_auth := Some sample_auth\<rparr>), w)"

lemma sample_login_pure: "callback_pure sample_login"
  by (simp add: callback_pure_def sample_login_def)

lemma sample_auth_ok: "auth_wf sample_auth" "auth_text_ok sample_auth"
  by (simp_all add: sample_auth_def auth_wf_def auth_fields_ok_def auth_text_ok_def in_int64_def
      min_int64_def max_int64_def valid_utf8_ascii byte_def)

lemma sample_world_env [simp]:
  "w_clock sample_world n = 1700000000000000000 + int n" "w_fault sample_world = (\<lambda>_ _. None)"
  "w_busy sample_world = (\<lambda>_. 0)" "w_rival sample_world = (\<lambda>_ fs. fs)"
  "w_mem sample_world = Some empty_state" "w_fs sample_world = no_files"
  by (simp_all add: sample_world_def)

lemma honest_sample: "w_fault w = (\<lambda>_ _. None) \<Longrightarrow> honest w"
  by (simp add: honest_def)

text \<open>The same machine with a clock that stands at the epoch.\<close>

definition early_world :: world where
  "early_world = sample_world\<lparr>w_clock := (\<lambda>_. 0)\<rparr>"

lemma early_world_ok: "clock_ok early_world" "honest early_world" "quiet early_world"
  by (simp_all add: clock_ok_def honest_def quiet_def early_world_def unix_milli_def max_int64_def)

text \<open>Evaluation without entering the branches not taken.\<close>

lemma on_err_weak: "r = r' \<Longrightarrow> on_err r h k = on_err r' h k"
  by simp

lemma sys_quiet: "w_fault w = (\<lambda>_ _. None) \<Longrightarrow> sys call w = (None, tick w)"
  by (simp add: sys_def)

lemma contextFailure_background: "contextFailure (Some background) w = (None, tick w)"
  by (rule contextFailure_never) (simp add: background_def)

lemma storageGate_background: "storageGate_lock (Some background) w = (None, tick (tick w))"
  by (simp add: storageGate_lock_def contextFailure_background)

lemma update_fs_env [simp]:
  "w_fault (update_fs f w) = w_fault w" "w_busy (update_fs f w) = w_busy w"
  "w_rival (update_fs f w) = w_rival w" "w_clock (update_fs f w) = w_clock w"
  by (simp_all add: update_fs_def)

lemma lock_loop_free:
  "w_fault w = (\<lambda>_ _. None) \<Longrightarrow> lock_loop 0 ctx w = (None, tick w)"
  by (simp add: lock_loop.simps flock_try_def sys_quiet Let_def)

lemmas file_eval = on_err_simps sys_quiet contextFailure_background storageGate_background lock_loop_free
  withState_def with_lock_def locked_update_def acquireStorageLock_def lock_open_def lstat_def
  readStorageState_def openCredentialFile_def storageLock_Close_def maxAuthFileBytes_def
  writeStorageState_def replace_file_def validateStorageDestination_def update_temp_def
  syncDirectoryRaw_def rename_temp_def new_temp_def set_mode_def set_data_def set_synced_def

end
