(* ===== verification/StorageTheorems.thy ===== *)
theory StorageTheorems
  imports SampleWorlds
begin

text \<open>
  The properties of the storage layer: preparation of sessions, the file format, and the
  operations of both stores. Each is followed by an application to a concrete input.
\<close>

section \<open>Preparation\<close>

text \<open>\<open>nextGeneration\<close> never returns 0, the value of a session that has never reserved a
  generation, and always differs from its argument, the wrap-around at the top of \<open>uint64\<close>
  included.\<close>

theorem nextGeneration_fresh: "nextGeneration g \<noteq> 0 \<and> nextGeneration g \<noteq> g"
  using nextGeneration_nonzero nextGeneration_neq by blast

text \<open>C20: the overflow check of \<open>prepareAuth\<close> is exact: for valid tokens without an absolute
  expiry, at any instant in the \<open>int64\<close> range, the expiry \<open>now + 1000 * expires_in\<close> is stored when
  it fits an \<open>int64\<close>, and the call fails with \<open>ErrInvalidArgument\<close> when it does not.\<close>

theorem prepareAuth_exact:
  assumes "auth_fields_ok a" "at_expires_at a = 0" "0 \<le> now" "now \<le> max_int64"
  shows "prepareAuth now (Some a) =
    (if now + at_expires_in a * 1000 \<le> max_int64
     then Inr (a\<lparr>at_expires_at := now + at_expires_in a * 1000\<rparr>)
     else Inl (invalid_argument ''auth token expiry overflows epoch milliseconds''))"
proof -
  let ?d = "max_int64 - now" and ?e = "at_expires_in a"
  have pos: "0 < ?e" using assms(1) by (simp add: auth_fields_ok_def)
  have d: "wrap64 ?d = ?d"
    using assms(3,4) by (intro wrap64_id) (simp add: in_int64_def min_int64_def max_int64_def)
  have "go_div (wrap64 ?d) 1000 = ?d div 1000" unfolding d using assms(4) by (intro go_div_pos) auto
  then have g: "go_div (wrap64 ?d) 1000 < ?e \<longleftrightarrow> max_int64 < now + ?e * 1000" by linarith
  show ?thesis
  proof (cases "max_int64 < now + ?e * 1000")
    case False
    with pos assms(3) have "in_int64 (?e * 1000)" "in_int64 (now + ?e * 1000)"
      by (auto simp: in_int64_def min_int64_def max_int64_def)
    with False g assms(1,2) show ?thesis by (simp add: prepareAuth_def validateAuth_def wrap64_id)
  qed (use g assms(1,2) in \<open>simp add: prepareAuth_def validateAuth_def\<close>)
qed

theorem prepareAuth_exact_witness:
  "prepareAuth 1000 (Some (sample_auth\<lparr>at_expires_at := 0\<rparr>)) =
   Inr (sample_auth\<lparr>at_expires_at := 3601000\<rparr>)"
  by (subst prepareAuth_exact) (simp_all add: sample_auth_def auth_fields_ok_def max_int64_def)

section \<open>The file format\<close>

lemma prepared_text_ok:
  assumes "prepared_state now st = Inr t" "state_text_ok st" "0 \<le> now" "now \<le> max_int64"
  shows "state_text_ok t"
proof -
  have auth: "auth_text_ok b" if p: "prepareAuth now (Some a) = Inr b" and "auth_text_ok a" for a b
  proof (cases "at_expires_at a = 0")
    case True
    note e = prepareAuth_expiry [OF p True assms(3,4)]
    from p True obtain x where "b = a\<lparr>at_expires_at := x\<rparr>"
      by (auto simp: prepareAuth_def validateAuth_def split: if_splits)
    with e(2,3) that(2) show ?thesis
      by (auto simp: auth_text_ok_def in_int64_def min_int64_def max_int64_def)
  next
    case False
    with that show ?thesis by (auto simp: prepareAuth_def validateAuth_def split: if_splits)
  qed
  obtain a p where s: "prepareStorageSnapshot now (Some st) = Inr (a, p)" "t = st\<lparr>st_auth := a, st_pending := p\<rparr>"
    using assms(1) by (auto simp: prepared_state_def split: sum.splits)
  then have "\<forall>b. a = Some b \<longrightarrow> auth_text_ok b" "\<forall>q. p = Some q \<longrightarrow> pending_text_ok q"
    using assms(2) auth
    by (auto simp: prepareStorageSnapshot_def state_text_ok_def preparePending_def validatePending_def
        map_sum_def split: sum.splits option.splits if_splits)
  with s(2) show ?thesis by (simp add: state_text_ok_def)
qed

text \<open>C12: writing a session into a decoded credential file and decoding the written bytes gives
  back the prepared session, and every member of the file this program does not know survives
  with its value (its string literals rewritten by \<open>json.Marshal\<close>'s HTML escaping only).\<close>

theorem session_file_roundtrip:
  assumes "decodeStorageState data = Inr s" "replaceSnapshot now st s = Inr m"
    and "state_text_ok st" "0 \<le> now" "now \<le> max_int64"
  shows "\<exists>t s'. prepared_state now st = Inr t \<and> decodeStorageState (marshal_state m) = Inr s' \<and>
    storageState_snapshot s' = Inr t \<and>
    (\<forall>k. k \<in> {k_auth, k_pending, k_generation} \<or> map_of s' k = map_option html_tree (map_of s k))"
proof -
  from assms(2) obtain a p where prep: "prepareStorageSnapshot now (Some st) = Inr (a, p)"
    and m: "m = put_session a p (st_generation st) s"
    by (auto simp: replaceSnapshot_def split: sum.splits)
  let ?t = "st\<lparr>st_auth := a, st_pending := p\<rparr>"
  from prep have t: "prepared_state now st = Inr ?t" by (simp add: prepared_state_def)
  have "state_text_ok ?t" by (rule prepared_text_ok [OF t assms(3-5)])
  moreover have "state_wf ?t" using prepared_state_wf [OF t assms(4,5)] by (rule state_ready_wf)
  ultimately obtain s' where "decodeStorageState (marshal_state m) = Inr s'" "storageState_snapshot s' = Inr ?t"
    "\<And>k. k \<notin> {k_auth, k_pending, k_generation} \<Longrightarrow> map_of s' k = map_option html_tree (map_of s k)"
    using decode_marshal_session [OF decodeStorageState_ok [OF assms(1)], of ?t] m by auto
  with t show ?thesis by blast
qed

lemma decode_extra_member:
  "decodeStorageState ''{\"x\":1}'' =
   Inr [(''x'', JNum ''1''), (k_auth, JNull), (k_pending, JNull), (k_generation, JNum ''0'')]"
  by code_simp

theorem session_file_roundtrip_witness:
  "\<exists>s' m. replaceSnapshot 0 \<lparr>st_auth = Some sample_auth, st_pending = None, st_generation = 3\<rparr>
      [(''x'', JNum ''1''), (k_auth, JNull), (k_pending, JNull), (k_generation, JNum ''0'')] = Inr m \<and>
    decodeStorageState (marshal_state m) = Inr s' \<and> map_of s' ''x'' = Some (JNum ''1'')"
proof -
  let ?st = "\<lparr>st_auth = Some sample_auth, st_pending = None, st_generation = 3\<rparr> :: auth_storage_state"
  let ?s = "[(''x'', JNum ''1''), (k_auth, JNull), (k_pending, JNull), (k_generation, JNum ''0'')]"
  have m: "replaceSnapshot 0 ?st ?s = Inr (put_session (Some sample_auth) None 3 ?s)"
    using sample_auth_ok(1) by (simp add: replaceSnapshot_def prepareStorageSnapshot_def prepareAuth_fixed)
  have "state_text_ok ?st" using sample_auth_ok(2) by (simp add: state_text_ok_def)
  note rt = session_file_roundtrip [OF decode_extra_member m this order_refl]
  have "(0::int) \<le> max_int64" by (simp add: max_int64_def)
  from rt [OF this] obtain s' where s':
    "decodeStorageState (marshal_state (put_session (Some sample_auth) None 3 ?s)) = Inr s'"
    "\<forall>k. k \<in> {k_auth, k_pending, k_generation} \<or> map_of s' k = map_option html_tree (map_of ?s k)"
    by blast
  have "''x'' \<notin> {k_auth, k_pending, k_generation}" by (simp add: k_auth_def k_pending_def k_generation_def)
  with s'(2) have "map_of s' ''x'' = map_option html_tree (map_of ?s ''x'')" by blast
  also have "\<dots> = Some (JNum ''1'')" by simp
  finally show ?thesis using m s'(1) by blast
qed

section \<open>Transactions\<close>

text \<open>C2: no update of another process is lost. \<open>FileStorage.Transact\<close> either fails before it holds the
  file lock, without having run its callback or changed the file, or works on exactly the contents
  the file has at the moment the lock is granted, with everything other processes wrote until then:
  it fails and leaves those contents, or its callback accepted the session decoded from them and the
  file holds the complete prepared result.\<close>

theorem file_transact_no_lost_update:
  assumes "FileStorage_Transact (Some path) ctx (Some f) cap w = ((r, cap'), w')"
    and "callback_pure f" "honest w" "clock_ok w"
  shows "case transact_lock path ctx w of
      None \<Rightarrow> r \<noteq> None \<and> cap' = cap \<and> fs_data (w_fs w') = fs_data (w_fs w)
    | Some wl \<Rightarrow>
        r \<noteq> None \<and> fs_data (w_fs w') = fs_data (w_fs wl) \<or>
        (\<exists>v s' w1 n t. meta_step wl v \<and>
           f cap (data_state (fs_data (w_fs wl))) v = ((None, cap', s'), w1) \<and>
           prepared_state (unix_milli (w_clock w n)) s' = Inr t \<and>
           (state_text_ok t \<longrightarrow> data_state (fs_data (w_fs w')) = t))"
proof -
  have ws: "withState path ctx True (transact_update ctx f) cap w = ((r, cap'), w')"
    using assms(1) by (simp add: FileStorage_Transact_def)
  show ?thesis
  proof (cases "transact_lock path ctx w")
    case None
    with transact_lock_split [OF ws] show ?thesis by (simp add: meta_step_data)
  next
    case (Some wl)
    with transact_lock_split [OF ws] obtain u where
      u: "lock_step w wl" "locked_update path ctx (transact_update ctx f) cap wl = ((r, cap'), u)"
      and d: "w_fs w' = w_fs u" using storageLock_Close_ticks by (auto simp: ticks_def)
    have h: "honest wl" "clock_ok wl" "w_clock wl = w_clock w"
      using u(1) assms(3,4) by (auto simp: lock_step_def honest_def clock_ok_def local_step_def)
    from u(2) assms(2) h(1) show ?thesis
    proof (cases rule: locked_transact_outcome)
      case (unchanged e)
      with Some d show ?thesis by simp
    next
      case (committed v s' w1 n t)
      with Some d h show ?thesis by (fastforce simp: file_abs_def)
    qed
  qed
qed

text \<open>Another process rewrites the file just before the lock is granted.\<close>

definition contested :: world where
  "contested = early_world\<lparr>w_rival := (\<lambda>_ fs. fs\<lparr>fs_file := Some (Regular ''{}'' owner_only True)\<rparr>)\<rparr>"

lemma contested_lock:
  "\<exists>wl. transact_lock ''/p'' (Some background) contested = Some wl \<and> fs_data (w_fs wl) = Some (Some ''{}'')"
  by (simp add: transact_lock_def contested_def early_world_def no_files_def file_eval fs_data_def cong: on_err_weak)

theorem file_transact_no_lost_update_witness:
  "\<exists>r cap' w'. FileStorage_Transact (Some ''/p'') (Some background) (Some sample_login) no_captures contested =
     ((r, cap'), w') \<and>
   (r \<noteq> None \<and> fs_data (w_fs w') = Some (Some ''{}'') \<or>
    (\<exists>v s' w1 n t. sample_login no_captures (data_state (Some (Some ''{}''))) v = ((None, cap', s'), w1) \<and>
       prepared_state (unix_milli (w_clock contested n)) s' = Inr t \<and>
       (state_text_ok t \<longrightarrow> data_state (fs_data (w_fs w')) = t)))"
proof -
  obtain r cap' w' where
    t: "FileStorage_Transact (Some ''/p'') (Some background) (Some sample_login) no_captures contested = ((r, cap'), w')"
    by (metis prod.exhaust_sel)
  have "honest contested" "clock_ok contested"
    using early_world_ok(1,2) by (simp_all add: contested_def honest_def clock_ok_def)
  from file_transact_no_lost_update [OF t sample_login_pure this] contested_lock t show ?thesis
    by fastforce
qed

text \<open>C7: replacing the credential file is all or nothing. Whatever system call fails and whenever
  the context is cancelled, \<open>writeStorageState\<close> either reports an error and leaves the credential
  file untouched, or installs the complete new contents, already fsynced and readable by the owner
  only; success also means that the directory entry is fsynced. A temporary copy of the credentials is
  left only by a failed write whose removal of it failed too; then it is one file, readable by the
  owner only.\<close>

theorem writeStorageState_atomic:
  assumes "writeStorageState path ctx state w = (r, w')"
  shows "r \<noteq> None \<and> fs_file (w_fs w') = fs_file (w_fs w) \<and>
      (fs_temps (w_fs w') = fs_temps (w_fs w) \<or>
       (\<exists>n. w_fault w n CRemoveTemp \<noteq> None) \<and>
       (\<exists>d s. fs_temps (w_fs w') = Regular d owner_only s # fs_temps (w_fs w))) \<or>
    fs_file (w_fs w') = Some (Regular (marshal_state state) owner_only True) \<and>
      fs_temps (w_fs w') = fs_temps (w_fs w) \<and> (r = None \<longrightarrow> fs_dir_synced (w_fs w'))"
  using writeStorageState_outcome [of w state path ctx] assms by (auto simp: write_outcome_def left_behind_def)

definition full_disk :: world where
  "full_disk = sample_world\<lparr>w_fs := file_with ''{}'',
     w_fault := (\<lambda>_ c. if c = CWrite then Some (Msg ''no space left on device'') else None)\<rparr>"

theorem writeStorageState_atomic_witness:
  "\<exists>r w'. writeStorageState ''/p'' (Some background) newStorageState full_disk = (r, w') \<and>
     fs_temps (w_fs w') = [] \<and>
     (r \<noteq> None \<and> fs_file (w_fs w') = Some (Regular ''{}'' 420 True) \<or>
      fs_file (w_fs w') = Some (Regular (marshal_state newStorageState) owner_only True) \<and>
      (r = None \<longrightarrow> fs_dir_synced (w_fs w')))"
proof -
  obtain r w' where w: "writeStorageState ''/p'' (Some background) newStorageState full_disk = (r, w')"
    by fastforce
  have "w_fault full_disk n CRemoveTemp = None" for n by (simp add: full_disk_def)
  with writeStorageState_atomic [OF w] w show ?thesis
    by (auto simp: full_disk_def file_with_def no_files_def)
qed

text \<open>C26: what a successful \<open>FileStorage.Transact\<close> commits is what the next successful \<open>Load\<close>
  returns, whatever contexts are used and whatever non-fatal faults occur in between.\<close>

theorem file_load_after_transact:
  assumes "FileStorage_Transact (Some path) ctx (Some f) cap w = ((None, cap'), w1)"
    and "callback_pure f" "file_inv w" "FileStorage_Load (Some path) ctx' w1 = (Inr v, w2)"
  shows "\<exists>t. commits f cap (file_abs w) w cap' t \<and> (state_text_ok t \<longrightarrow> v = Some t)"
  using disk.transact_then_load [of path ctx f cap w cap' w1 ctx' v w2] assms by simp

text \<open>A callback that keeps the session as it is.\<close>

definition sample_keep :: callback where
  "sample_keep cap s w = ((None, cap, s), w)"

lemma load_missing: "fs_file (w_fs w) = None \<Longrightarrow> w_fault w = (\<lambda>_ _. None) \<Longrightarrow>
   FileStorage_Load (Some p) (Some background) w = (Inr (Some empty_state), tick (tick (tick w)))"
  using read_data_snapshot(1) [of None newStorageState False]
  by (simp add: FileStorage_Load_def file_eval load_update_def read_data_def data_state_def cong: on_err_weak)

lemma keep_missing:
  "\<exists>w'. FileStorage_Transact (Some ''/p'') (Some background) (Some sample_keep) no_captures early_world =
     ((None, no_captures), w') \<and> fs_file (w_fs w') = None \<and> w_fault w' = (\<lambda>_ _. None)"
proof -
  have s: "storageState_snapshot newStorageState = Inr empty_state"
    using read_data_snapshot(1) [of None newStorageState False] by (simp add: read_data_def data_state_def)
  have "show_nat 0 = ''0''" by code_simp
  then have "put_session None None 0 newStorageState = newStorageState"
    by (simp add: put_session_def newStorageState_def enc_generation_def
        k_auth_def k_pending_def k_generation_def)
  with s show ?thesis
    by (simp add: FileStorage_Transact_def file_eval early_world_def no_files_def sample_keep_def
        transact_update_def time_now_def replaceSnapshot_def prepareStorageSnapshot_def empty_state_def
        cong: on_err_weak)
qed

theorem file_load_after_transact_witness:
  "\<exists>w1 w2 cap'. FileStorage_Load (Some ''/p'') (Some background) w1 = (Inr (Some empty_state), w2) \<and>
     (\<exists>t. commits sample_keep no_captures (file_abs early_world) early_world cap' t)"
proof -
  obtain w1 where w1: "FileStorage_Transact (Some ''/p'') (Some background) (Some sample_keep) no_captures early_world =
      ((None, no_captures), w1)" "fs_file (w_fs w1) = None" "w_fault w1 = (\<lambda>_ _. None)"
    using keep_missing by blast
  note l = load_missing [OF w1(2,3), of "''/p''"]
  have p: "callback_pure sample_keep" by (simp add: callback_pure_def sample_keep_def)
  have i: "file_inv early_world" using early_world_ok by (simp add: file_inv_def)
  from file_load_after_transact [OF w1(1) p i l] l show ?thesis by blast
qed

text \<open>C27: a transaction of the memory store is all or nothing: it succeeds exactly when the store
  changes to the complete prepared state the accepted callback produced, and fails leaving the old
  state, whatever the context and the clock do.\<close>

theorem memory_transact_atomic:
  assumes "MemoryStorage_Transact ctx (Some f) cap w = ((r, cap'), w')" "callback_pure f" "mem_inv w"
  shows "mem_inv w' \<and>
    (r \<noteq> None \<and> w_mem w' = w_mem w \<or>
     r = None \<and> commits f cap (mem_abs w) w cap' (mem_abs w'))"
proof -
  obtain s where s: "w_mem w = Some s" using assms(3) by (auto simp: mem_inv_def)
  have o: "mem_inv w' \<and> (case r of Some _ \<Rightarrow> mem_abs w' = mem_abs w
      | None \<Rightarrow> commits f cap (mem_abs w) w cap' (mem_abs w'))"
    using mem_Transact_outcome [OF assms] by simp
  then obtain s' where "w_mem w' = Some s'" by (auto simp: mem_inv_def)
  with o s show ?thesis by (auto simp: mem_abs_def split: option.splits)
qed

theorem memory_transact_atomic_witness:
  "\<exists>r cap' w'. MemoryStorage_Transact (Some background) (Some sample_login) no_captures early_world =
      ((r, cap'), w') \<and> mem_inv w'"
proof -
  obtain r cap' w' where
    r: "MemoryStorage_Transact (Some background) (Some sample_login) no_captures early_world = ((r, cap'), w')"
    by (metis prod.exhaust_sel)
  have "mem_inv early_world"
    using early_world_ok(1) by (simp add: mem_inv_def early_world_def empty_state_def state_wf_def)
  from memory_transact_atomic [OF r sample_login_pure this] r show ?thesis by blast
qed

section \<open>Clearing\<close>

text \<open>\<open>MemoryStorage.Clear\<close> removes the session and the pending flow and moves to the next
  device-flow generation, so that every response of an earlier flow is recognised as stale.\<close>

theorem memory_clear_bumps_generation:
  assumes "MemoryStorage_Clear ctx w = (None, w')" "w_mem w = Some s"
  shows "w_mem w' = Some \<lparr>st_auth = None, st_pending = None, st_generation = nextGeneration (st_generation s)\<rparr> \<and>
    st_generation s \<noteq> nextGeneration (st_generation s)"
  using assms nextGeneration_neq [of "st_generation s"]
  by (auto elim!: MemoryStorage_Clear_cases [of ctx w None w' s])

theorem memory_clear_bumps_generation_witness:
  "\<exists>w'. MemoryStorage_Clear (Some background) sample_world = (None, w') \<and>
     w_mem w' = Some \<lparr>st_auth = None, st_pending = None, st_generation = 1\<rparr>"
proof -
  obtain w' where w: "MemoryStorage_Clear (Some background) sample_world = (None, w')"
    by (simp add: MemoryStorage_Clear_def storageGate_background)
  from memory_clear_bumps_generation [OF w, of empty_state] w show ?thesis
    by (simp add: empty_state_def nextGeneration_def)
qed

text \<open>C40: \<open>FileStorage.Clear\<close> does not: whatever generation an existing file holds, clearing it
  resets the generation to 1, because \<open>bumpDeviceAuthGeneration\<close> runs after the member has been
  deleted. A flow that had reserved generation 1 is no longer superseded by the clear.\<close>

theorem file_clear_resets_generation:
  assumes "FileStorage_Clear (Some path) ctx w = (None, w')" "honest w" "quiet w"
    and "fs_file (w_fs w) \<noteq> None"
  shows "file_abs w' = \<lparr>st_auth = None, st_pending = None, st_generation = 1\<rparr>"
  using assms(1,2)
proof (cases rule: FileStorage_Clear_outcome)
  case absent
  then have "fs_data (w_fs w) = None" using quiet_locked [OF assms(3)] by (auto simp: lock_step_def)
  with assms(4) show ?thesis by (auto simp: fs_data_def split: option.splits node.splits)
next
  case (cleared wl)
  then show ?thesis by simp
qed simp

lemma decode_empty_object: "decodeStorageState ''{}'' = Inr newStorageState"
  by code_simp

theorem file_clear_resets_generation_witness:
  "\<exists>w'. FileStorage_Clear (Some ''/p'') (Some background) (sample_world\<lparr>w_fs := file_with ''{}''\<rparr>) = (None, w') \<and>
     st_generation (file_abs w') = 1"
proof -
  let ?w = "sample_world\<lparr>w_fs := file_with ''{}''\<rparr>"
  have "fst (FileStorage_Clear (Some ''/p'') (Some background) ?w) = None"
    by (simp add: FileStorage_Clear_def file_eval file_with_def no_files_def decode_empty_object
        clear_update_def Let_def cong: on_err_weak)
  then obtain w' where w': "FileStorage_Clear (Some ''/p'') (Some background) ?w = (None, w')"
    by (metis prod.collapse)
  have "honest ?w" "quiet ?w" "fs_file (w_fs ?w) \<noteq> None"
    by (simp_all add: honest_def quiet_def file_with_def)
  from file_clear_resets_generation [OF w' this] w' show ?thesis by simp
qed

section \<open>Cancellation and deletion\<close>

text \<open>C28: an operation of either store that is given a context already done fails with the cause
  of the cancellation and changes no file and no session.\<close>

theorem storage_respects_cancellation:
  assumes "cx_done_at c = Some d" "\<forall>n. d \<le> w_clock w n" "w_mem w = Some s"
  shows "FileStorage_Load (Some path) (Some c) w = (Inl (cx_cause c), tick w) \<and>
    FileStorage_Transact (Some path) (Some c) (Some f) cap w = ((Some (cx_cause c), cap), tick w) \<and>
    FileStorage_Clear (Some path) (Some c) w = (Some (cx_cause c), tick w) \<and>
    FileStorage_Delete (Some path) (Some c) w = (Some (cx_cause c), tick w) \<and>
    MemoryStorage_Load (Some c) w = (Inl (cx_cause c), tick w) \<and>
    MemoryStorage_Transact (Some c) (Some f) cap w = ((Some (cx_cause c), cap), tick w) \<and>
    MemoryStorage_Clear (Some c) w = (Some (cx_cause c), tick w)"
proof -
  have g: "storageGate_lock (Some c) w = (Some (cx_cause c), tick w)"
    using assms(1,2) by (simp add: storageGate_lock_def contextFailure_def time_now_def ctx_done_def)
  with assms(3) show ?thesis
    by (simp add: FileStorage_Load_def FileStorage_Transact_def FileStorage_Clear_def
        FileStorage_Delete_def withState_def MemoryStorage_Load_def MemoryStorage_Transact_def
        MemoryStorage_Clear_def)
qed

definition cancelled :: gctx where
  "cancelled = \<lparr>cx_done_at = Some 0, cx_err = ContextCanceled, cx_cause = Sentinel ContextCanceled\<rparr>"

theorem storage_respects_cancellation_witness:
  "FileStorage_Transact (Some ''/p'') (Some cancelled) (Some sample_login) no_captures sample_world =
     ((Some (Sentinel ContextCanceled), no_captures), tick sample_world)"
  using storage_respects_cancellation [of cancelled 0 sample_world empty_state "''/p''" sample_login no_captures]
  by (simp add: cancelled_def)

lemma lock_step_sys: "lock_step u w \<Longrightarrow> sys call w = (r, w') \<Longrightarrow> lock_step u w'"
  by (blast intro: lock_then_meta ticks_meta sys_ticks)

definition delete_outcome :: "world \<Rightarrow> go_error option \<times> world \<Rightarrow> bool" where
  "delete_outcome w rw \<longleftrightarrow> local_step w (snd rw) \<and>
     (fst rw = None \<and> fs_data (w_fs (snd rw)) = None \<or>
      fst rw \<noteq> None \<and> (locked_data w (fs_data (w_fs (snd rw))) \<or> fs_data (w_fs (snd rw)) = None))"

lemma syncDirectory_outcome:
  assumes "local_step w v" "fs_data (w_fs v) = None"
  shows "delete_outcome w (syncDirectory v)"
proof -
  obtain e u where s: "sys CSyncDir v = (e, u)" by fastforce
  then have "local_step v u" "w_fs u = w_fs v" using sys_ticks [OF s] by (simp_all add: ticks_def)
  with assms local_step_trans [of w v u] show ?thesis
    by (cases e) (auto simp: syncDirectory_def syncDirectoryRaw_def s delete_outcome_def fs_data_def)
qed

lemma delete_locked_outcome:
  assumes "lock_step w v" "honest w"
  shows "delete_outcome w (delete_locked path ctx v)"
proof -
  have err: "delete_outcome w (Some e, u)" if "lock_step w u" for e u
    using that by (simp add: delete_outcome_def lock_step_def)
  obtain e v1 where e: "contextFailure ctx v = (e, v1)" by fastforce
  then have l1: "lock_step w v1" using assms(1) by (blast intro: lock_then_meta ticks_meta contextFailure_ticks)
  obtain s v2 where s: "lstat v1 = (s, v2)" by fastforce
  then have l2: "lock_step w v2" using l1 by (blast intro: lock_then_meta ticks_meta lstat_ticks)
  obtain f v3 where f: "sys CRemove v2 = (f, v3)" by fastforce
  then have l3: "lock_step w v3" using l2 by (blast intro: lock_step_sys)
  have "local_step w v1" "local_step w v2" using l1 l2 by (simp_all add: lock_step_def)
  then have h: "honest v1" "honest v2" using assms(2) honest_local by blast+
  have gone: "fs_data (w_fs v2) = None" if "s = Inl x" "errors_Is x OsErrNotExist" for x
    using s that honest_sys [OF h(1), of CLstat]
    by (auto simp: lstat_def fs_data_def ticksD [OF sys_ticks] split: prod.splits option.splits)
  have removed: "delete_outcome w (syncDirectory (update_fs (\<lambda>fs. fs\<lparr>fs_file := None, fs_dir_synced := False\<rparr>) v3))"
    using l3 by (intro syncDirectory_outcome) (auto simp: lock_step_def fs_data_def)
  have ok: "delete_outcome w (None, v2)" if "fs_data (w_fs v2) = None"
    using l2 that by (simp add: delete_outcome_def lock_step_def)
  show ?thesis
  proof (cases e)
    case (Some c)
    then show ?thesis by (simp add: delete_locked_def e err [OF l1])
  next
    case None
    show ?thesis
    proof (cases s)
      case (Inl x)
      with None gone ok show ?thesis by (simp add: delete_locked_def e s err [OF l2])
    next
      case (Inr regular)
      with None removed honest_sys [OF h(2), of CRemove] f show ?thesis
        by (cases f) (simp_all add: delete_locked_def e s err [OF l2] err [OF l3])
    qed
  qed
qed

lemma delete_outcome_close: "delete_outcome w (r, v) \<Longrightarrow> delete_outcome w (r, storageLock_Close v)"
  using storageLock_Close_ticks [of v]
  by (auto simp: delete_outcome_def ticks_def intro: local_step_trans)

text \<open>C37: when \<open>FileStorage.Delete\<close> succeeds there is no credential file; when it fails the file
  is as it was found under the lock or is gone (only the sync of the directory failed).\<close>

theorem file_delete_removes:
  assumes "FileStorage_Delete (Some path) ctx w = (r, w')" "honest w"
  shows "r = None \<and> fs_data (w_fs w') = None \<or>
    r \<noteq> None \<and> (locked_data w (fs_data (w_fs w')) \<or> fs_data (w_fs w') = None)"
proof -
  have err: "delete_outcome w (Some e, u)" if "lock_step w u" for e u
    using that by (simp add: delete_outcome_def lock_step_def)
  obtain g w1 where g: "storageGate_lock ctx w = (g, w1)" by fastforce
  then have t1: "ticks w w1" by (rule storageGate_lock_ticks)
  obtain s w2 where s: "lstat w1 = (s, w2)" by fastforce
  with t1 have t2: "ticks w w2" by (blast intro: ticks_trans lstat_ticks)
  have h: "honest w1" using assms(2) honest_local [OF ticks_local [OF t1]] by simp
  have gone: "delete_outcome w (None, w2)" if "s = Inl x" "errors_Is x OsErrNotExist" for x
  proof -
    have "fs_data (w_fs w2) = None"
      using s that honest_sys [OF h, of CLstat]
      by (auto simp: lstat_def fs_data_def ticksD [OF sys_ticks] split: prod.splits option.splits)
    then show ?thesis using ticks_local [OF t2] by (simp add: delete_outcome_def)
  qed
  obtain a w3 where a: "acquireStorageLock (path @ ''.lock'') ctx w2 = (a, w3)" by fastforce
  with acquireStorageLock_step [of ctx w2 "path @ ''.lock''"] have "lock_step w2 w3"
    by (simp add: lock_outcome_def)
  with t2 have l3: "lock_step w w3" by (blast intro: meta_then_lock ticks_meta)
  have l12: "lock_step w w1" "lock_step w w2" using t1 t2 by (auto intro: meta_lock_step ticks_meta)
  obtain q w4 where q: "delete_locked path ctx w3 = (q, w4)" by fastforce
  with delete_locked_outcome [OF l3 assms(2), of path ctx] have "delete_outcome w (q, storageLock_Close w4)"
    by (simp add: delete_outcome_close)
  with g s a q l12 l3 gone have "delete_outcome w (FileStorage_Delete (Some path) ctx w)"
    by (cases g; cases s; cases a) (auto simp: FileStorage_Delete_def intro: err)
  with assms(1) show ?thesis by (simp add: delete_outcome_def)
qed

theorem file_delete_removes_witness:
  "\<exists>r w'. FileStorage_Delete (Some ''/p'') (Some background) (sample_world\<lparr>w_fs := file_with ''{}''\<rparr>) = (r, w') \<and>
    r = None \<and> fs_data (w_fs w') = None"
proof -
  let ?w = "sample_world\<lparr>w_fs := file_with ''{}''\<rparr>"
  have "fst (FileStorage_Delete (Some ''/p'') (Some background) ?w) = None"
    by (simp add: FileStorage_Delete_def file_eval file_with_def no_files_def delete_locked_def
        syncDirectory_def Let_def cong: on_err_weak)
  then obtain w' where w': "FileStorage_Delete (Some ''/p'') (Some background) ?w = (None, w')"
    by (metis prod.collapse)
  have "honest ?w" by (simp add: honest_def)
  from file_delete_removes [OF w' this] w' show ?thesis by simp
qed

section \<open>Oversized sessions\<close>

lemma FileStorage_Load_size:
  assumes "FileStorage_Load (Some path) ctx w = (Inr v, w')" "honest w" "quiet w"
    and "fs_data (w_fs w) = Some (Some d)"
  shows "length d \<le> maxAuthFileBytes"
proof -
  obtain s where ws: "withState path ctx False load_update None w = ((None, s), w')"
    using assms(1) by (auto simp: FileStorage_Load_def split: prod.splits option.splits)
  from ws assms(2) load_update_pure(1) load_update_pure(2) show ?thesis
  proof (cases rule: withState_cases)
    case (ran wl state present res state' w2)
    then have "fs_data (w_fs wl) = Some (Some d)" "read_data (fs_data (w_fs wl)) \<noteq> None"
      using quiet_locked [OF assms(3)] assms(4) by (auto simp: state_run_def lock_step_def)
    then show ?thesis by (auto simp: read_data_def split: if_splits)
  next
    case (wrote wl state present state' w2)
    then show ?thesis by (auto simp: state_run_def load_update_def split: sum.splits)
  qed simp
qed

lemma length_commas: "x \<in> set xs \<Longrightarrow> length x \<le> length (commas xs)"
  by (induction xs rule: commas.induct) auto

lemma length_compact_member: "(k, v) \<in> set ms \<Longrightarrow> length (compact v) \<le> length (compact (JObj ms))"
  using length_commas [of "quoted (html_escape k) @ CHR '':'' # compact v"
      "map (\<lambda>m. quoted (html_escape (fst m)) @ CHR '':'' # compact (snd m)) ms"]
  by force

lemma length_marshal_member: "map_of m k = Some v \<Longrightarrow> length (compact v) \<le> length (marshal_state m)"
  unfolding marshal_state_def enc_map_def
  by (rule length_compact_member [of "escape k"]) (force dest: map_of_SomeD)

lemma escape_as: "escape (replicate n (CHR ''a'')) = replicate n (CHR ''a'')"
  by (induction n) (simp_all add: escape.simps escape_ascii_def byte_def)

lemma html_escape_as: "html_escape (replicate n (CHR ''a'')) = replicate n (CHR ''a'')"
  by (induction n) (simp_all add: html_escape_ascii byte_def)

text \<open>A session whose access token is longer than the limit on reads.\<close>

definition long_auth :: auth_tokens where
  "long_auth = sample_auth\<lparr>at_access_token := replicate (Suc maxAuthFileBytes) (CHR ''a'')\<rparr>"

definition store_long :: callback where
  "store_long cap s w = ((None, cap, s\<lparr>st_auth := Some long_auth\<rparr>), w)"

definition long_state :: raw_map where
  "long_state = put_session (Some long_auth) None 0 newStorageState"

lemma long_state_length: "maxAuthFileBytes < length (marshal_state long_state)"
proof -
  have "length (compact (enc_string (at_access_token long_auth))) \<le> length (compact (enc_auth_tokens long_auth))"
    unfolding enc_auth_tokens_def by (rule length_compact_member [of "''access_token''"]) simp
  moreover have "maxAuthFileBytes < length (compact (enc_string (at_access_token long_auth)))"
    unfolding long_auth_def enc_string_def by (simp add: escape_as html_escape_as quoted_def del: replicate_Suc)
  moreover have "length (compact (enc_auth_tokens long_auth)) \<le> length (marshal_state long_state)"
    by (rule length_marshal_member [of _ k_auth]) (simp add: long_state_def map_of_put_session)
  ultimately show ?thesis by linarith
qed

lemma store_long_run:
  "\<exists>w'. FileStorage_Transact (Some ''/p'') (Some background) (Some store_long) no_captures sample_world =
     ((None, no_captures), w') \<and> fs_data (w_fs w') = Some (Some (marshal_state long_state)) \<and>
     w_fault w' = (\<lambda>_ _. None) \<and> w_rival w' = (\<lambda>_ fs. fs)"
proof -
  have s: "storageState_snapshot newStorageState = Inr empty_state"
    using read_data_snapshot(1) [of None newStorageState False] by (simp add: read_data_def data_state_def)
  have "auth_wf long_auth"
    using sample_auth_ok(1) by (simp add: long_auth_def auth_wf_def auth_fields_ok_def)
  then have p: "replaceSnapshot now (empty_state\<lparr>st_auth := Some long_auth\<rparr>) newStorageState = Inr long_state" for now
    by (simp add: replaceSnapshot_def prepareStorageSnapshot_def prepareAuth_fixed empty_state_def long_state_def)
  have "length (marshal_state newStorageState) = 63" by code_simp
  with long_state_length have "marshal_state newStorageState \<noteq> marshal_state long_state"
    by (auto simp: maxAuthFileBytes_def)
  with s p show ?thesis
    by (simp add: FileStorage_Transact_def file_eval [unfolded maxAuthFileBytes_def] no_files_def store_long_def
        transact_update_def time_now_def fs_data_def Let_def cong: on_err_weak)
qed

text \<open>C39: nothing bounds what is written. A transaction that commits a session larger than the
  1 MiB limit on reads succeeds, and afterwards no \<open>Load\<close>, with any context, ever succeeds: the
  store has written a credential file that it refuses to read.\<close>

theorem oversized_session_locks_out:
  "\<exists>w'. FileStorage_Transact (Some ''/p'') (Some background) (Some store_long) no_captures sample_world =
     ((None, no_captures), w') \<and> (\<forall>ctx. \<not> is_ok (fst (FileStorage_Load (Some ''/p'') ctx w')))"
proof -
  obtain w' where w': "FileStorage_Transact (Some ''/p'') (Some background) (Some store_long) no_captures sample_world =
      ((None, no_captures), w')" "fs_data (w_fs w') = Some (Some (marshal_state long_state))"
    "w_fault w' = (\<lambda>_ _. None)" "w_rival w' = (\<lambda>_ fs. fs)"
    using store_long_run by blast
  from w' have env: "honest w'" "quiet w'" by (simp_all add: honest_def quiet_def)
  have "\<not> is_ok (fst (FileStorage_Load (Some ''/p'') ctx w'))" for ctx
  proof
    assume "is_ok (fst (FileStorage_Load (Some ''/p'') ctx w'))"
    then obtain v w2 where "FileStorage_Load (Some ''/p'') ctx w' = (Inr v, w2)"
      by (metis is_okE prod.collapse)
    from FileStorage_Load_size [OF this env w'(2)] long_state_length show False by simp
  qed
  with w'(1) show ?thesis by blast
qed

end
