(* ===== verification/GoUrl.thy ===== *)
theory GoUrl
  imports GoErrors GoText GoJsonText
begin

text \<open>
  \<open>net/url\<close> as the program uses it: \<open>Parse\<close>, \<open>URL.String\<close>, \<open>Hostname\<close>, \<open>PathEscape\<close>,
  \<open>Values.Encode\<close>, and the address parsing of \<open>net\<close> and \<open>net/netip\<close> (\<open>ParseIP\<close>, \<open>IP.String\<close>,
  \<open>IsLoopback\<close>).
\<close>

section \<open>Strings\<close>

fun cut :: "char \<Rightarrow> string \<Rightarrow> string \<times> string option" where
  "cut c [] = ([], None)"
| "cut c (x # xs) =
     (if x = c then ([], Some xs) else (case cut c xs of (a, b) \<Rightarrow> (x # a, b)))"

definition has_prefix :: "string \<Rightarrow> string \<Rightarrow> bool" where
  "has_prefix s p \<longleftrightarrow> take (length p) s = p"

definition has_suffix :: "string \<Rightarrow> string \<Rightarrow> bool" where
  "has_suffix s p \<longleftrightarrow> length p \<le> length s \<and> drop (length s - length p) s = p"

text \<open>\<open>strings.LastIndex\<close> of one byte: the parts before it and after it.\<close>

definition cut_last :: "char \<Rightarrow> string \<Rightarrow> (string \<times> string) option" where
  "cut_last c s =
     (case cut c (rev s) of (_, None) \<Rightarrow> None | (b, Some a) \<Rightarrow> Some (rev a, rev b))"

fun index_of :: "string \<Rightarrow> string \<Rightarrow> nat option" where
  "index_of p [] = (if p = [] then Some 0 else None)"
| "index_of p (c # cs) = (if has_prefix (c # cs) p then Some 0 else map_option Suc (index_of p cs))"

definition to_lower :: "char \<Rightarrow> char" where
  "to_lower c = (if 65 \<le> byte c \<and> byte c \<le> 90 then char_of (byte c + 32) else c)"

definition is_alpha :: "char \<Rightarrow> bool" where
  "is_alpha c \<longleftrightarrow> 97 \<le> byte c \<and> byte c \<le> 122 \<or> 65 \<le> byte c \<and> byte c \<le> 90"

definition trim_suffix :: "string \<Rightarrow> string \<Rightarrow> string" where
  "trim_suffix s p = (if has_suffix s p then take (length s - length p) s else s)"

definition trim_right_slashes :: "string \<Rightarrow> string" where
  "trim_right_slashes s = rev (dropWhile (\<lambda>c. c = CHR ''/'') (rev s))"

definition contains_any :: "string \<Rightarrow> string \<Rightarrow> bool" where
  "contains_any s chars \<longleftrightarrow> list_ex (\<lambda>c. c \<in> set chars) s"

section \<open>Escaping\<close>

datatype url_mode = EPath | EPathSegment | EHost | EZone | EUserPassword | EQuery | EFragment

definition should_escape :: "url_mode \<Rightarrow> char \<Rightarrow> bool" where
  "should_escape m c =
     (if is_alpha c \<or> is_digit c then False
      else if (m = EHost \<or> m = EZone) \<and> c \<in> set ''!$&'' \<union> {CHR 0x27, CHR 0x22} \<union> set ''()*+,;=:[]<>'' then False
      else if c \<in> set ''-_.~'' then False
      else if c \<in> set ''$&+,/:;=?@'' then
        (case m of
           EPath \<Rightarrow> c = CHR ''?''
         | EPathSegment \<Rightarrow> c \<in> set ''/;,?''
         | EUserPassword \<Rightarrow> c \<in> set ''@/?:''
         | EQuery \<Rightarrow> True
         | EFragment \<Rightarrow> False
         | _ \<Rightarrow> True)
      else \<not> (m = EFragment \<and> c \<in> set ''!()*''))"

definition upper_hex :: "nat \<Rightarrow> char" where
  "upper_hex n = char_of (if n < 10 then 48 + n else 55 + n)"

definition escape_byte :: "url_mode \<Rightarrow> char \<Rightarrow> string" where
  "escape_byte m c =
     (if m = EQuery \<and> c = CHR '' '' then ''+''
      else if should_escape m c then [CHR ''%'', upper_hex (byte c div 16), upper_hex (byte c mod 16)]
      else [c])"

definition url_escape :: "url_mode \<Rightarrow> string \<Rightarrow> string" where
  "url_escape m s = concat (map (escape_byte m) s)"

fun url_unescape :: "url_mode \<Rightarrow> string \<Rightarrow> string option" where
  "url_unescape m [] = Some []"
| "url_unescape m (c # cs) =
     (if c = CHR ''%'' then
        (case cs of
           h1 # h2 # r \<Rightarrow>
             (if \<not> (is_hex h1 \<and> is_hex h2) then None
              else if m = EHost \<and> hex_value h1 < 8 \<and> \<not> (h1 = CHR ''2'' \<and> h2 = CHR ''5'') then None
              else if m = EZone \<and> \<not> (h1 = CHR ''2'' \<and> h2 = CHR ''5'') \<and>
                      hex_value h1 * 16 + hex_value h2 \<noteq> 32 \<and>
                      should_escape EHost (char_of (hex_value h1 * 16 + hex_value h2)) then None
              else map_option ((#) (char_of (hex_value h1 * 16 + hex_value h2))) (url_unescape m r))
         | _ \<Rightarrow> None)
      else if c = CHR ''+'' \<and> m = EQuery then map_option ((#) (CHR '' '')) (url_unescape m cs)
      else if (m = EHost \<or> m = EZone) \<and> byte c < 128 \<and> should_escape m c then None
      else map_option ((#) c) (url_unescape m cs))"

section \<open>Addresses\<close>

text \<open>An address is its bytes: 4 for IPv4, 16 for IPv6.\<close>

fun split_on :: "char \<Rightarrow> string \<Rightarrow> string list" where
  "split_on d [] = [[]]"
| "split_on d (c # cs) =
     (if c = d then [] # split_on d cs
      else (case split_on d cs of x # xs \<Rightarrow> (c # x) # xs | [] \<Rightarrow> [[c]]))"

definition dec_octet :: "string \<Rightarrow> nat option" where
  "dec_octet s =
     (if all_digits s \<and> length s \<le> 3 \<and> (length s = 1 \<or> hd s \<noteq> CHR ''0'') \<and> digits_value 0 s \<le> 255
      then Some (digits_value 0 s) else None)"

definition parse_ipv4 :: "string \<Rightarrow> nat list option" where
  "parse_ipv4 s =
     (let parts = map dec_octet (split_on (CHR ''.'') s)
      in if length parts = 4 \<and> list_all (\<lambda>p. p \<noteq> None) parts then Some (map the parts) else None)"

definition hex_field :: "string \<Rightarrow> nat option" where
  "hex_field s =
     (if s \<noteq> [] \<and> length s \<le> 4 \<and> list_all is_hex s
      then Some (foldl (\<lambda>a c. a * 16 + hex_value c) 0 s) else None)"

definition field_bytes :: "nat \<Rightarrow> nat list" where "field_bytes n = [n div 256, n mod 256]"

text \<open>A colon-separated run of fields, the last of which may be a dotted IPv4 address.\<close>

fun hex_fields :: "string list \<Rightarrow> nat list option" where
  "hex_fields [] = Some []"
| "hex_fields [x] =
     (case hex_field x of
        Some n \<Rightarrow> Some (field_bytes n)
      | None \<Rightarrow> parse_ipv4 x)"
| "hex_fields (x # y # r) =
     (case hex_field x of
        None \<Rightarrow> None
      | Some n \<Rightarrow> map_option ((@) (field_bytes n)) (hex_fields (y # r)))"

definition colon_fields :: "string \<Rightarrow> nat list option" where
  "colon_fields s = (if s = [] then Some [] else hex_fields (split_on (CHR '':'') s))"

text \<open>The eight groups of an IPv6 address; \<open>::\<close> stands for at least one group of zeros and occurs
  once. An IPv4 tail must be the end of the address.\<close>

definition no_dots :: "string \<Rightarrow> bool" where
  "no_dots s \<longleftrightarrow> CHR ''.'' \<notin> set s"

definition parse_ipv6 :: "string \<Rightarrow> nat list option" where
  "parse_ipv6 s =
     (case index_of ''::'' s of
        None \<Rightarrow>
          (case colon_fields s of
             Some b \<Rightarrow> (if length b = 16 then Some b else None)
           | None \<Rightarrow> None)
      | Some i \<Rightarrow>
          (let l = take i s; r = drop (i + 2) s
           in if \<not> no_dots l \<or> index_of ''::'' r \<noteq> None then None
              else (case (colon_fields l, colon_fields r) of
                      (Some a, Some b) \<Rightarrow>
                        (if length a + length b < 16
                         then Some (a @ replicate (16 - length a - length b) 0 @ b) else None)
                    | _ \<Rightarrow> None)))"

text \<open>\<open>net.ParseIP\<close>, as 4 or 16 bytes (\<open>To4\<close> applied to IPv4-mapped addresses where it matters).\<close>

definition parse_ip :: "string \<Rightarrow> nat list option" where
  "parse_ip s =
     (if CHR '':'' \<in> set s then parse_ipv6 s
      else parse_ipv4 s)"

definition v4_mapped :: "nat list \<Rightarrow> bool" where
  "v4_mapped b \<longleftrightarrow> length b = 16 \<and> take 12 b = replicate 10 0 @ [255, 255]"

definition to4 :: "nat list \<Rightarrow> nat list option" where
  "to4 b = (if length b = 4 then Some b else if v4_mapped b then Some (drop 12 b) else None)"

definition ip_is_loopback :: "nat list \<Rightarrow> bool" where
  "ip_is_loopback b =
     (case to4 b of Some v \<Rightarrow> hd v = 127 | None \<Rightarrow> b = replicate 15 0 @ [1])"

text \<open>\<open>IP.String\<close>: dotted decimal for IPv4 (and IPv4-mapped) addresses; for IPv6 the longest run
  of at least two zero groups, the first of the longest, is abbreviated.\<close>

fun join :: "string \<Rightarrow> string list \<Rightarrow> string" where
  "join sep [] = []"
| "join sep [x] = x"
| "join sep (x # y # r) = x @ sep @ join sep (y # r)"

fun groups :: "nat list \<Rightarrow> nat list" where
  "groups (a # b # r) = (a * 256 + b) # groups r"
| "groups _ = []"

fun show_hex :: "nat \<Rightarrow> string" where
  "show_hex n = (if n < 16 then [hex_digit n] else show_hex (n div 16) @ [hex_digit (n mod 16)])"

declare show_hex.simps [simp del]

definition zero_run :: "nat list \<Rightarrow> nat" where
  "zero_run gs = length (takeWhile (\<lambda>g. g = 0) gs)"

text \<open>The start and length of the longest run of zero groups.\<close>

definition best_run :: "nat list \<Rightarrow> nat \<times> nat" where
  "best_run gs =
     foldl (\<lambda>(s, l) i. if zero_run (drop i gs) > l then (i, zero_run (drop i gs)) else (s, l))
       (0, 0) [0..<length gs]"

definition show_ip :: "nat list \<Rightarrow> string" where
  "show_ip b =
     (case to4 b of
        Some v \<Rightarrow> join ''.'' (map show_nat v)
      | None \<Rightarrow>
          (let gs = groups b; (s, l) = best_run gs
           in if l < 2 then join '':'' (map show_hex gs)
              else join '':'' (map show_hex (take s gs)) @ ''::'' @
                   join '':'' (map show_hex (drop (s + l) gs))))"

section \<open>URLs\<close>

text \<open>\<open>url.URL\<close>; user information is the user name and the password, if there is one.\<close>

record url =
  u_scheme :: string
  u_opaque :: string
  u_user :: "(string \<times> string option) option"
  u_host :: string
  u_path :: string
  u_raw_path :: string
  u_omit_host :: bool
  u_force_query :: bool
  u_raw_query :: string
  u_fragment :: string
  u_raw_fragment :: string

definition empty_url :: url where
  "empty_url = \<lparr>u_scheme = [], u_opaque = [], u_user = None, u_host = [], u_path = [], u_raw_path = [],
     u_omit_host = False, u_force_query = False, u_raw_query = [], u_fragment = [], u_raw_fragment = []\<rparr>"

definition url_error :: go_error where "url_error = Msg ''parse URL''"

text \<open>\<open>getScheme\<close>: the scheme (empty when there is none) and the rest, or \<open>None\<close> for a missing one.\<close>

fun get_scheme_from :: "string \<Rightarrow> string \<Rightarrow> string \<Rightarrow> (string \<times> string) option" where
  "get_scheme_from whole acc [] = Some ([], whole)"
| "get_scheme_from whole acc (c # cs) =
     (if is_alpha c then get_scheme_from whole (acc @ [c]) cs
      else if is_digit c \<or> c \<in> set ''+-.'' then
        (if acc = [] then Some ([], whole) else get_scheme_from whole (acc @ [c]) cs)
      else if c = CHR '':'' then (if acc = [] then None else Some (acc, cs))
      else Some ([], whole))"

definition get_scheme :: "string \<Rightarrow> (string \<times> string) option" where
  "get_scheme s = get_scheme_from s [] s"

definition valid_optional_port :: "string \<Rightarrow> bool" where
  "valid_optional_port p \<longleftrightarrow> p = [] \<or> hd p = CHR '':'' \<and> list_all is_digit (tl p)"

text \<open>\<open>netip.ParseAddr\<close> accepts an IPv6 address with an optional zone after \<open>%\<close>.\<close>

definition ipv6_literal :: "string \<Rightarrow> bool" where
  "ipv6_literal s =
     (case cut (CHR ''%'') s of
        (a, None) \<Rightarrow> CHR '':'' \<in> set a \<and> parse_ipv6 a \<noteq> None
      | (a, Some z) \<Rightarrow> CHR '':'' \<in> set a \<and> parse_ipv6 a \<noteq> None \<and> z \<noteq> [])"

definition parse_bracketed :: "string \<Rightarrow> string option" where
  "parse_bracketed h =
     (let host = (case index_of ''%25'' h of
                    None \<Rightarrow> url_unescape EHost h
                  | Some i \<Rightarrow>
                      (case (url_unescape EHost (take i h), url_unescape EZone (drop i h)) of
                         (Some a, Some z) \<Rightarrow> Some (a @ z)
                       | _ \<Rightarrow> None))
      in case host of Some a \<Rightarrow> (if ipv6_literal a then Some a else None) | None \<Rightarrow> None)"

definition parse_host :: "string \<Rightarrow> string option" where
  "parse_host host =
     (case cut_last (CHR ''['') host of
        Some (_, _) \<Rightarrow>
          (case cut_last (CHR '']'') host of
             None \<Rightarrow> None
           | Some (front, port) \<Rightarrow>
               (if \<not> valid_optional_port port then None
                else (case cut_last (CHR ''['') front of
                        None \<Rightarrow> None
                      | Some (_, h) \<Rightarrow>
                          (case (parse_bracketed h, url_unescape EHost port) of
                             (Some a, Some p) \<Rightarrow> Some (''['' @ a @ '']'' @ p)
                           | _ \<Rightarrow> None))))
      | None \<Rightarrow>
          (case cut_last (CHR '':'') host of
             Some (_, p) \<Rightarrow> (if list_all is_digit p then url_unescape EHost host else None)
           | None \<Rightarrow> url_unescape EHost host))"

definition valid_userinfo :: "string \<Rightarrow> bool" where
  "valid_userinfo s \<longleftrightarrow>
     list_all (\<lambda>c. is_alpha c \<or> is_digit c \<or> c \<in> set ''-._:~!$&'' \<union> {CHR 0x27} \<union> set ''()*+,;=%@'') s"

definition parse_userinfo :: "string \<Rightarrow> (string \<times> string option) option" where
  "parse_userinfo s =
     (if \<not> valid_userinfo s then None
      else (case cut (CHR '':'') s of
              (u, None) \<Rightarrow> map_option (\<lambda>n. (n, None)) (url_unescape EUserPassword u)
            | (u, Some p) \<Rightarrow>
                (case (url_unescape EUserPassword u, url_unescape EUserPassword p) of
                   (Some n, Some q) \<Rightarrow> Some (n, Some q)
                 | _ \<Rightarrow> None)))"

text \<open>User information and host of an authority.\<close>

definition parse_authority :: "string \<Rightarrow> ((string \<times> string option) option \<times> string) option" where
  "parse_authority a =
     (case cut_last (CHR ''@'') a of
        None \<Rightarrow> map_option (Pair None) (parse_host a)
      | Some (ui, h) \<Rightarrow>
          (case (parse_host h, parse_userinfo ui) of
             (Some host, Some u) \<Rightarrow> Some (Some u, host)
           | _ \<Rightarrow> None))"

definition set_path :: "string \<Rightarrow> url \<Rightarrow> url option" where
  "set_path p u =
     (case url_unescape EPath p of
        None \<Rightarrow> None
      | Some path \<Rightarrow>
          Some (u\<lparr>u_path := path, u_raw_path := (if p = url_escape EPath path then [] else p)\<rparr>))"

definition has_ctl :: "string \<Rightarrow> bool" where
  "has_ctl s \<longleftrightarrow> list_ex (\<lambda>c. byte c < 32 \<or> byte c = 127) s"

definition split_query :: "string \<Rightarrow> string \<times> bool \<times> string" where
  "split_query rest =
     (if has_suffix rest ''?'' \<and> length (filter (\<lambda>c. c = CHR ''?'') rest) = 1
      then (butlast rest, True, [])
      else (case cut (CHR ''?'') rest of (r, q) \<Rightarrow> (r, False, (case q of None \<Rightarrow> [] | Some x \<Rightarrow> x))))"

definition parse_no_fragment :: "string \<Rightarrow> url option" where
  "parse_no_fragment raw =
     (if has_ctl raw then None
      else if raw = ''*'' then Some (empty_url\<lparr>u_path := ''*''\<rparr>)
      else (case get_scheme raw of
              None \<Rightarrow> None
            | Some (scheme, rest0) \<Rightarrow>
                (case split_query rest0 of
                   (rest, force, query) \<Rightarrow>
                     (let u = empty_url\<lparr>u_scheme := map to_lower scheme, u_force_query := force,
                                        u_raw_query := query\<rparr>
                      in if \<not> has_prefix rest ''/'' \<and> scheme \<noteq> [] then Some (u\<lparr>u_opaque := rest\<rparr>)
                         else if \<not> has_prefix rest ''/'' \<and> CHR '':'' \<in> set (fst (cut (CHR ''/'') rest)) then None
                         else if (scheme \<noteq> [] \<or> \<not> has_prefix rest ''///'') \<and> has_prefix rest ''//'' then
                           (let authority = takeWhile (\<lambda>c. c \<noteq> CHR ''/'') (drop 2 rest);
                                path = dropWhile (\<lambda>c. c \<noteq> CHR ''/'') (drop 2 rest)
                            in case parse_authority authority of
                                 None \<Rightarrow> None
                               | Some (user, host) \<Rightarrow> set_path path (u\<lparr>u_user := user, u_host := host\<rparr>))
                         else set_path rest
                                (u\<lparr>u_omit_host := (scheme \<noteq> [] \<and> has_prefix rest ''/'')\<rparr>)))))"

definition set_fragment :: "string \<Rightarrow> url \<Rightarrow> url option" where
  "set_fragment f u =
     (case url_unescape EFragment f of
        None \<Rightarrow> None
      | Some frag \<Rightarrow>
          Some (u\<lparr>u_fragment := frag, u_raw_fragment := (if f = url_escape EFragment frag then [] else f)\<rparr>))"

text \<open>\<open>url.Parse\<close>.\<close>

definition url_parse :: "string \<Rightarrow> url option" where
  "url_parse raw =
     (case cut (CHR ''#'') raw of
        (u, frag) \<Rightarrow>
          (case parse_no_fragment u of
             None \<Rightarrow> None
           | Some v \<Rightarrow>
               (case frag of
                  None \<Rightarrow> Some v
                | Some f \<Rightarrow> (if f = [] then Some v else set_fragment f v))))"

definition url_is_abs :: "url \<Rightarrow> bool" where "url_is_abs u \<longleftrightarrow> u_scheme u \<noteq> []"

definition valid_encoded :: "url_mode \<Rightarrow> string \<Rightarrow> bool" where
  "valid_encoded m s \<longleftrightarrow>
     list_all (\<lambda>c. c \<in> set ''!$&'' \<union> {CHR 0x27} \<union> set ''()*+,;=:@[]%'' \<or> \<not> should_escape m c) s"

definition escaped_path :: "url \<Rightarrow> string" where
  "escaped_path u =
     (if u_raw_path u \<noteq> [] \<and> valid_encoded EPath (u_raw_path u) \<and>
         url_unescape EPath (u_raw_path u) = Some (u_path u) then u_raw_path u
      else if u_path u = ''*'' then ''*''
      else url_escape EPath (u_path u))"

definition escaped_fragment :: "url \<Rightarrow> string" where
  "escaped_fragment u =
     (if u_raw_fragment u \<noteq> [] \<and> valid_encoded EFragment (u_raw_fragment u) \<and>
         url_unescape EFragment (u_raw_fragment u) = Some (u_fragment u) then u_raw_fragment u
      else url_escape EFragment (u_fragment u))"

definition show_userinfo :: "string \<times> string option \<Rightarrow> string" where
  "show_userinfo ui =
     url_escape EUserPassword (fst ui) @
     (case snd ui of None \<Rightarrow> [] | Some p \<Rightarrow> CHR '':'' # url_escape EUserPassword p)"

text \<open>\<open>URL.String\<close>.\<close>

definition url_authority :: "url \<Rightarrow> string" where
  "url_authority u =
     (if u_scheme u = [] \<and> u_host u = [] \<and> u_user u = None then []
      else if u_omit_host u \<and> u_host u = [] \<and> u_user u = None then []
      else (if u_host u \<noteq> [] \<or> u_path u \<noteq> [] \<or> u_user u \<noteq> None then ''//'' else []) @
           (case u_user u of None \<Rightarrow> [] | Some ui \<Rightarrow> show_userinfo ui @ ''@'') @
           url_escape EHost (u_host u))"

definition url_string :: "url \<Rightarrow> string" where
  "url_string u =
     (let scheme = (if u_scheme u = [] then [] else u_scheme u @ '':'');
          path = escaped_path u;
          front = scheme @ url_authority u;
          slash = (if path \<noteq> [] \<and> hd path \<noteq> CHR ''/'' \<and> u_host u \<noteq> [] then ''/'' else []);
          dot = (if front @ slash = [] \<and> CHR '':'' \<in> set (fst (cut (CHR ''/'') path)) then ''./'' else [])
      in (if u_opaque u \<noteq> [] then scheme @ u_opaque u else front @ slash @ dot @ path) @
         (if u_force_query u \<or> u_raw_query u \<noteq> [] then CHR ''?'' # u_raw_query u else []) @
         (if u_fragment u \<noteq> [] then CHR ''#'' # escaped_fragment u else []))"

text \<open>\<open>URL.Hostname\<close>: the host without its port and brackets.\<close>

definition url_hostname :: "url \<Rightarrow> string" where
  "url_hostname u =
     (let host = u_host u;
          h = (case cut_last (CHR '':'') host of
                 Some (a, p) \<Rightarrow> (if list_all is_digit p then a else host)
               | None \<Rightarrow> host)
      in if has_prefix h ''['' \<and> has_suffix h '']'' then butlast (tl h) else h)"

section \<open>Form encoding\<close>

text \<open>\<open>url.Values.Encode\<close> of a form whose keys are single-valued: keys in order, both sides
  query-escaped.\<close>

definition form_pair :: "string \<times> string \<Rightarrow> string" where
  "form_pair kv = url_escape EQuery (fst kv) @ CHR ''='' # url_escape EQuery (snd kv)"

definition form_encode :: "(string \<times> string) list \<Rightarrow> string" where
  "form_encode kvs = join ''&'' (map form_pair (sort_key fst kvs))"

end
