(* ===== verification/Sanitizer.thy ===== *)
theory Sanitizer
  imports GoUrl
begin

text \<open>
  Diagnostic sanitising (transport.go): redaction of credentials in server messages and the bounds
  on what an error may quote. The five regular expressions of the source are terms of a small
  syntax with Go's leftmost-first matching; case folding includes the two non-ASCII code points
  (U+017F and U+212A) that fold to ASCII letters.
\<close>

section \<open>Regular expressions\<close>

text \<open>\<open>Atom f\<close> matches \<open>f s\<close> bytes at the front of \<open>s\<close> (0: no match), \<open>StarA f\<close> is its greedy
  repetition, \<open>Alts\<close> the alternatives in order of preference, \<open>Bound\<close> is \<open>\b\<close>, \<open>Cap\<close> records the
  position (twice for one group).\<close>

datatype rx = Atom "string \<Rightarrow> nat" | StarA "string \<Rightarrow> nat" | Alts "rx list list" | Bound | Cap

definition word_char :: "char \<Rightarrow> bool" where
  "word_char c \<longleftrightarrow> is_alpha c \<or> is_digit c \<or> c = CHR ''_''"

definition is_word :: "char option \<Rightarrow> bool" where
  "is_word c = (case c of None \<Rightarrow> False | Some x \<Rightarrow> word_char x)"

definition head :: "string \<Rightarrow> char option" where
  "head s = (case s of [] \<Rightarrow> None | c # _ \<Rightarrow> Some c)"

definition fits :: "(string \<Rightarrow> nat) \<Rightarrow> string \<Rightarrow> bool" where
  "fits f s \<longleftrightarrow> 0 < f s \<and> f s \<le> length s"

text \<open>The rest of the input and the recorded positions (as lengths of the rest, latest first).\<close>

function rx_match :: "char option \<Rightarrow> rx list \<Rightarrow> nat list \<Rightarrow> string \<Rightarrow> (string \<times> nat list) option" where
  "rx_match prev [] caps s = Some (s, caps)"
| "rx_match prev (Atom f # k) caps s =
     (if fits f s then rx_match (Some (s ! (f s - 1))) k caps (drop (f s) s) else None)"
| "rx_match prev (StarA f # k) caps s =
     (if fits f s then
        (case rx_match (Some (s ! (f s - 1))) (StarA f # k) caps (drop (f s) s) of
           Some r \<Rightarrow> Some r
         | None \<Rightarrow> rx_match prev k caps s)
      else rx_match prev k caps s)"
| "rx_match prev (Alts [] # k) caps s = None"
| "rx_match prev (Alts (a # as) # k) caps s =
     (case rx_match prev (a @ k) caps s of
        Some r \<Rightarrow> Some r
      | None \<Rightarrow> rx_match prev (Alts as # k) caps s)"
| "rx_match prev (Bound # k) caps s =
     (if is_word prev \<noteq> is_word (head s) then rx_match prev k caps s else None)"
| "rx_match prev (Cap # k) caps s = rx_match prev k (length s # caps) s"
  by pat_completeness auto
termination
  by (relation "measures [\<lambda>(p, k, c, s). length s, \<lambda>(p, k, c, s). size_list size k]")
     (auto simp: fits_def)

text \<open>\<open>Regexp.ReplaceAllStringFunc\<close>; the replacement also sees the first group.\<close>

definition group1 :: "string \<Rightarrow> nat list \<Rightarrow> string" where
  "group1 s caps =
     (case rev caps of a # b # _ \<Rightarrow> take (a - b) (drop (length s - a) s) | _ \<Rightarrow> [])"

function rx_replace :: "rx list \<Rightarrow> (string \<Rightarrow> string \<Rightarrow> string) \<Rightarrow> char option \<Rightarrow> string \<Rightarrow> string" where
  "rx_replace p f prev [] = []"
| "rx_replace p f prev (c # cs) =
     (case rx_match prev p [] (c # cs) of
        Some (rest, caps) \<Rightarrow>
          (if length rest \<le> length cs
           then f (take (Suc (length cs) - length rest) (c # cs)) (group1 (c # cs) caps) @
                rx_replace p f (Some ((c # cs) ! (length cs - length rest))) rest
           else c # rx_replace p f (Some c) cs)
      | None \<Rightarrow> c # rx_replace p f (Some c) cs)"
  by pat_completeness auto
termination
  by (relation "measure (length \<circ> snd \<circ> snd \<circ> snd)") auto

subsection \<open>Building blocks\<close>

definition one :: "(char \<Rightarrow> bool) \<Rightarrow> string \<Rightarrow> nat" where
  "one P s = (case s of [] \<Rightarrow> 0 | c # _ \<Rightarrow> if P c then 1 else 0)"

text \<open>A class that contains the ASCII letters, under \<open>(?i)\<close>.\<close>

definition one_folded :: "(char \<Rightarrow> bool) \<Rightarrow> string \<Rightarrow> nat" where
  "one_folded P s =
     (if one P s = 1 then 1
      else if take 2 s = [CHR 0xC5, CHR 0xBF] then 2
      else if take 3 s = [CHR 0xE2, CHR 0x84, CHR 0xAA] then 3 else 0)"

text \<open>A lower-case letter under \<open>(?i)\<close>.\<close>

definition folded :: "char \<Rightarrow> string \<Rightarrow> nat" where
  "folded x s =
     (if one (\<lambda>c. to_lower c = x) s = 1 then 1
      else if x = CHR ''s'' \<and> take 2 s = [CHR 0xC5, CHR 0xBF] then 2
      else if x = CHR ''k'' \<and> take 3 s = [CHR 0xE2, CHR 0x84, CHR 0xAA] then 3 else 0)"

definition lit :: "string \<Rightarrow> rx list" where "lit s = map (\<lambda>x. Atom (folded x)) s"
definition exact :: "string \<Rightarrow> rx list" where "exact s = map (\<lambda>x. Atom (one (\<lambda>c. c = x))) s"
definition opt :: "rx list \<Rightarrow> rx" where "opt r = Alts [r, []]"
definition plus :: "(string \<Rightarrow> nat) \<Rightarrow> rx list" where "plus f = [Atom f, StarA f]"

fun up_to :: "nat \<Rightarrow> (string \<Rightarrow> nat) \<Rightarrow> rx list" where
  "up_to 0 f = []"
| "up_to (Suc n) f = [Alts [Atom f # up_to n f, []]]"

definition rx_space :: "char \<Rightarrow> bool" where
  "rx_space c \<longleftrightarrow> c \<in> {CHR 0x09, CHR 0x0A, CHR 0x0C, CHR 0x0D, CHR '' ''}"

definition value_char :: "char \<Rightarrow> bool" where
  "value_char c \<longleftrightarrow> \<not> rx_space c \<and> c \<notin> {CHR '','', CHR '';'', CHR ''}'', CHR '']''}"

definition quote_opt :: rx where
  "quote_opt = opt [Atom (one (\<lambda>c. c = CHR 0x22 \<or> c = CHR 0x27))]"

definition sep_opt :: rx where
  "sep_opt = opt [Atom (one (\<lambda>c. c = CHR ''_'' \<or> c = CHR '' '' \<or> c = CHR ''-''))]"

definition quoted_value :: "char \<Rightarrow> rx list" where
  "quoted_value q = [Atom (one (\<lambda>c. c = q)), StarA (one (\<lambda>c. c \<noteq> q)), Atom (one (\<lambda>c. c = q))]"

subsection \<open>The patterns\<close>

definition credentialFieldPattern :: "rx list" where
  "credentialFieldPattern =
     [quote_opt, Cap,
      Alts [lit ''authorization'', lit ''cookie'', lit ''access'' @ sep_opt # lit ''token'',
            lit ''refresh'' @ sep_opt # lit ''token'', lit ''device'' @ sep_opt # lit ''code'',
            lit ''user'' @ sep_opt # lit ''code'', lit ''card'' @ [opt (sep_opt # lit ''number'')],
            lit ''number'', lit ''cvc'', lit ''cvv'',
            lit ''shared'' @ sep_opt # lit ''payment'' @ sep_opt # lit ''token'',
            lit ''link'' @ sep_opt # lit ''pay'' @ sep_opt # lit ''token'',
            lit ''signature'' @ [opt (sep_opt # lit ''input'')],
            lit ''payment'' @ sep_opt # lit ''details''],
      Cap, quote_opt, StarA (one rx_space), Atom (one (\<lambda>c. c = CHR '':'' \<or> c = CHR ''='')),
      StarA (one rx_space),
      Alts [quoted_value (CHR 0x22), quoted_value (CHR 0x27), plus (one value_char)]]"

definition bearerPattern :: "rx list" where
  "bearerPattern = Bound # lit ''bearer'' @ plus (one rx_space) @ plus (one value_char)"

definition token_char :: "char \<Rightarrow> bool" where
  "token_char c \<longleftrightarrow> is_alpha c \<or> is_digit c \<or> c \<in> set ''._~+/=-''"

definition knownTokenPattern :: "rx list" where
  "knownTokenPattern =
     [Bound, Alts (map lit [''spt'', ''link_pay'', ''access'', ''refresh'', ''device'', ''tok'', ''sk'', ''rk''])] @
     exact ''_'' @ replicate 6 (Atom (one_folded token_char)) @ [StarA (one_folded token_char)]"

definition signaturePattern :: "rx list" where
  "signaturePattern =
     Bound # exact ''sig'' @ plus (one is_digit) @ exact ''='' @ opt (exact '':'') #
     plus (one (\<lambda>c. c \<noteq> CHR '':'' \<and> \<not> rx_space c)) @ exact '':''"

definition pan_char :: "char \<Rightarrow> bool" where
  "pan_char c \<longleftrightarrow> is_digit c \<or> c = CHR '' '' \<or> c = CHR ''-''"

definition panCandidatePattern :: "rx list" where
  "panCandidatePattern =
     Atom (one is_digit) # replicate 10 (Atom (one pan_char)) @ up_to 13 (one pan_char) @ [Atom (one is_digit)]"

section \<open>Card numbers\<close>

definition digits_of :: "string \<Rightarrow> nat list" where
  "digits_of s = map (\<lambda>c. byte c - 48) (filter is_digit s)"

text \<open>The weight of a digit; every second digit from the right is doubled.\<close>

definition luhn_value :: "nat \<Rightarrow> nat \<Rightarrow> nat \<Rightarrow> nat" where
  "luhn_value parity i d =
     (if i mod 2 = parity then (if d * 2 > 9 then d * 2 - 9 else d * 2) else d)"

definition luhn_sum :: "nat list \<Rightarrow> nat" where
  "luhn_sum ds = sum_list (map (\<lambda>i. luhn_value (length ds mod 2) i (ds ! i)) [0..<length ds])"

definition isPaymentCardNumber :: "string \<Rightarrow> bool" where
  "isPaymentCardNumber candidate =
     (let digits = digits_of candidate
      in if length digits < 12 \<or> length digits > 19 then False
         else luhn_sum digits mod 10 = 0)"

section \<open>Sanitising\<close>

definition maxDiagnosticBytes :: nat where "maxDiagnosticBytes = 512"
definition maxDiagnosticInputBytes :: nat where "maxDiagnosticInputBytes = 4096"

definition redacted :: string where "redacted = ''<redacted>''"

text \<open>A space and U+2026.\<close>

definition ellipsis :: string where "ellipsis = [CHR '' '', CHR 0xE2, CHR 0x80, CHR 0xA6]"

definition isBareCVC :: "string \<Rightarrow> bool" where
  "isBareCVC value =
     (let v = trim_space value
      in if length v < 3 \<or> length v > 4 then False else list_all is_digit v)"

definition rune_start :: "char \<Rightarrow> bool" where
  "rune_start c \<longleftrightarrow> \<not> is_cont c"

fun back_to_rune :: "string \<Rightarrow> nat \<Rightarrow> nat" where
  "back_to_rune v 0 = 0"
| "back_to_rune v (Suc n) = (if rune_start (v ! Suc n) then Suc n else back_to_rune v n)"

definition truncateDiagnostic :: "string \<Rightarrow> string" where
  "truncateDiagnostic value =
     (if length value \<le> maxDiagnosticBytes then value
      else take (back_to_rune value (maxDiagnosticBytes - length ellipsis)) value @ ellipsis)"

fun shrink_valid :: "nat \<Rightarrow> string \<Rightarrow> string" where
  "shrink_valid 0 v = []"
| "shrink_valid (Suc n) v =
     (if valid_utf8 (take (Suc n) v) then take (Suc n) v else shrink_valid n v)"

text \<open>\<open>strings.ToValidUTF8\<close> with U+FFFD: one replacement for each run of invalid bytes.\<close>

function to_valid_utf8 :: "bool \<Rightarrow> string \<Rightarrow> string" where
  "to_valid_utf8 bad [] = []"
| "to_valid_utf8 bad (c # cs) =
     (let n = rune_width (c # cs) in
      if n = 0 then (if bad then [] else rune_error) @ to_valid_utf8 True cs
      else c # take (n - 1) cs @ to_valid_utf8 False (drop (n - 1) cs))"
  by pat_completeness auto
termination
  by (relation "measure (length \<circ> snd)") auto

declare to_valid_utf8.simps(2) [simp del]

text \<open>Control characters (U+0000-1F, U+007F-9F) become spaces.\<close>

fun blank_controls :: "string \<Rightarrow> string" where
  "blank_controls [] = []"
| "blank_controls [c] = [if byte c < 32 \<or> byte c = 127 then CHR '' '' else c]"
| "blank_controls (c # d # r) =
     (if byte c < 32 \<or> byte c = 127 then CHR '' '' # blank_controls (d # r)
      else if c = CHR 0xC2 \<and> 128 \<le> byte d \<and> byte d \<le> 159 then CHR '' '' # blank_controls r
      else c # blank_controls (d # r))"

text \<open>\<open>strings.Fields\<close>: the words between runs of white space.\<close>

function fields_from :: "string \<Rightarrow> string \<Rightarrow> string list" where
  "fields_from acc [] = (if acc = [] then [] else [acc])"
| "fields_from acc (c # cs) =
     (case strip_front space_encodings (c # cs) of
        Some r \<Rightarrow> (if acc = [] then fields_from [] r else acc # fields_from [] r)
      | None \<Rightarrow> fields_from (acc @ [c]) cs)"
  by pat_completeness auto
termination
  by (relation "measure (length \<circ> snd)") (auto dest: strip_front_shorter)

definition redact :: "string \<Rightarrow> string" where
  "redact v =
     (let v1 = rx_replace credentialFieldPattern (\<lambda>m g. g @ CHR ''='' # redacted) None v;
          v2 = rx_replace bearerPattern (\<lambda>m g. ''Bearer '' @ redacted) None v1;
          v3 = rx_replace knownTokenPattern (\<lambda>m g. redacted) None v2;
          v4 = rx_replace signaturePattern (\<lambda>m g. redacted) None v3
      in rx_replace panCandidatePattern (\<lambda>m g. if isPaymentCardNumber m then redacted else m) None v4)"

definition sanitizeDiagnosticText :: "string \<Rightarrow> string \<Rightarrow> string" where
  "sanitizeDiagnosticText value fallback =
     (if value = [] then fallback
      else
        let truncatedInput = length value > maxDiagnosticInputBytes;
            v0 = (if truncatedInput then shrink_valid maxDiagnosticInputBytes value else value);
            v1 = blank_controls (to_valid_utf8 False v0)
        in if isBareCVC v1 then redacted
           else
             let v2 = join '' '' (fields_from [] (redact v1))
             in if v2 = [] then fallback
                else truncateDiagnostic (v2 @ (if truncatedInput then ellipsis else [])))"

end
