(* ===== verification/SanitizerTheorems.thy ===== *)
theory SanitizerTheorems
  imports Sanitizer
begin

text \<open>
  What the sanitiser guarantees of every diagnostic (its length, no control characters), what its
  card detection is (a Luhn check), and the credentials it lets through.
\<close>

section \<open>Length\<close>

lemma back_to_rune_le: "back_to_rune v n \<le> n"
  by (induction n) auto

lemma length_truncateDiagnostic: "length (truncateDiagnostic v) \<le> maxDiagnosticBytes"
proof -
  have "back_to_rune v (maxDiagnosticBytes - length ellipsis) \<le> maxDiagnosticBytes - length ellipsis"
    by (rule back_to_rune_le)
  then show ?thesis
    by (simp add: truncateDiagnostic_def maxDiagnosticBytes_def ellipsis_def)
qed

lemma sanitize_length:
  "length fallback \<le> maxDiagnosticBytes \<Longrightarrow> length (sanitizeDiagnosticText value fallback) \<le> maxDiagnosticBytes"
  using length_truncateDiagnostic
  by (auto simp: sanitizeDiagnosticText_def Let_def redacted_def maxDiagnosticBytes_def)

lemma sanitize_nonempty: "fallback \<noteq> [] \<Longrightarrow> sanitizeDiagnosticText value fallback \<noteq> []"
  by (auto simp: sanitizeDiagnosticText_def Let_def redacted_def truncateDiagnostic_def ellipsis_def)

section \<open>No control characters\<close>

definition no_ctl :: "string \<Rightarrow> bool" where
  "no_ctl s \<longleftrightarrow> list_all (\<lambda>c. 32 \<le> byte c \<and> byte c \<noteq> 127) s"

lemma no_ctl_subset: "no_ctl t \<Longrightarrow> set s \<subseteq> set t \<Longrightarrow> no_ctl s"
  by (auto simp: no_ctl_def list_all_iff)

lemma no_ctl_Cons [simp]: "no_ctl (c # s) \<longleftrightarrow> 32 \<le> byte c \<and> byte c \<noteq> 127 \<and> no_ctl s"
  by (auto simp: no_ctl_def)

lemma no_ctl_append [simp]: "no_ctl (s @ t) \<longleftrightarrow> no_ctl s \<and> no_ctl t"
  by (simp add: no_ctl_def)

lemma rx_match_suffix: "rx_match prev k caps s = Some (r, c) \<Longrightarrow> set r \<subseteq> set s"
proof (induction prev k caps s arbitrary: r c rule: rx_match.induct)
  case (2 prev f k caps s)
  then show ?case using set_drop_subset [of "f s" s] by (auto split: if_splits)
next
  case (3 prev f k caps s)
  show ?case
  proof (cases "fits f s")
    case False
    with "3.prems" have "rx_match prev k caps s = Some (r, c)" by simp
    with False "3.IH"(3) show ?thesis by blast
  next
    case True
    show ?thesis
    proof (cases "rx_match (Some (s ! (f s - 1))) (StarA f # k) caps (drop (f s) s)")
      case None
      with True "3.prems" have "rx_match prev k caps s = Some (r, c)" by simp
      with True None "3.IH"(2) show ?thesis by blast
    next
      case (Some x)
      with True "3.prems" have "x = (r, c)" by simp
      with True Some "3.IH"(1) have "set r \<subseteq> set (drop (f s) s)" by blast
      then show ?thesis by (rule order_trans) (rule set_drop_subset)
    qed
  qed
qed (auto split: option.splits if_splits)

lemma group1_subset: "set (group1 s caps) \<subseteq> set s"
  by (auto simp: group1_def split: list.splits dest: in_set_takeD in_set_dropD)

lemma rx_replace_no_ctl:
  "(\<And>m g. no_ctl m \<Longrightarrow> no_ctl g \<Longrightarrow> no_ctl (f m g)) \<Longrightarrow> no_ctl s \<Longrightarrow> no_ctl (rx_replace p f prev s)"
proof (induction p f prev s rule: rx_replace.induct)
  case (2 p f prev c cs)
  have cs: "no_ctl cs" "32 \<le> byte c" "byte c \<noteq> 127" using "2.prems"(2) by auto
  note f = "2.prems"(1)
  show ?case
  proof (cases "rx_match prev p [] (c # cs)")
    case None
    with "2.IH"(1) f cs show ?thesis by simp
  next
    case (Some x)
    obtain rest caps where x: "x = (rest, caps)" by fastforce
    have rest: "no_ctl rest" using rx_match_suffix Some x "2.prems"(2) no_ctl_subset by blast
    have m: "no_ctl (take n (c # cs))" for n
      using "2.prems"(2) by (rule no_ctl_subset) (auto dest: in_set_takeD)
    have g: "no_ctl (group1 (c # cs) caps)"
      using "2.prems"(2) by (rule no_ctl_subset) (rule group1_subset)
    have fm: "no_ctl (f (take n (c # cs)) (group1 (c # cs) caps))" for n by (rule f [OF m g])
    show ?thesis
    proof (cases "length rest \<le> length cs")
      case True
      with Some x "2.IH"(2) f rest fm show ?thesis by (simp del: take_Suc_Cons)
    next
      case False
      with Some x "2.IH"(3) f cs show ?thesis by simp
    qed
  qed
qed simp

lemma no_ctl_redacted [simp]: "no_ctl redacted" "no_ctl ellipsis" "no_ctl rune_error" "no_ctl []"
  by (simp_all add: no_ctl_def redacted_def ellipsis_def rune_error_def byte_def)

lemma no_ctl_redact: "no_ctl v \<Longrightarrow> no_ctl (redact v)"
  unfolding redact_def Let_def
  by (intro rx_replace_no_ctl) (simp_all add: byte_def)

lemma no_ctl_blank_controls: "no_ctl (blank_controls s)"
  by (induction s rule: blank_controls.induct) (auto simp: no_ctl_def byte_def)

lemma no_ctl_fields:
  "no_ctl acc \<Longrightarrow> no_ctl s \<Longrightarrow> list_all no_ctl (fields_from acc s)"
proof (induction acc s rule: fields_from.induct)
  case (2 acc c cs)
  have "no_ctl r" if "strip_front space_encodings (c # cs) = Some r" for r
    using "2.prems"(2) that
    by (elim no_ctl_subset) (auto simp: strip_front_def dest!: in_set_dropD)
  moreover have "no_ctl cs" "no_ctl [c]" using "2.prems" by auto
  ultimately show ?case using 2 by (auto split: option.splits)
qed auto

lemma no_ctl_join: "no_ctl sep \<Longrightarrow> list_all no_ctl xs \<Longrightarrow> no_ctl (join sep xs)"
  by (induction sep xs rule: join.induct) auto

lemma no_ctl_truncate: "no_ctl v \<Longrightarrow> no_ctl (truncateDiagnostic v)"
  by (auto simp: truncateDiagnostic_def elim: no_ctl_subset dest: in_set_takeD)

lemma sanitize_no_ctl:
  assumes "no_ctl fallback"
  shows "no_ctl (sanitizeDiagnosticText value fallback)"
proof -
  have "no_ctl (join '' '' (fields_from [] (redact (blank_controls s))))" for s
    by (intro no_ctl_join no_ctl_fields no_ctl_redact no_ctl_blank_controls) (simp_all add: byte_def)
  then show ?thesis
    using assms by (auto simp: sanitizeDiagnosticText_def Let_def intro!: no_ctl_truncate)
qed

section \<open>No control characters beyond ASCII\<close>

text \<open>U+0080 to U+009F are encoded as the byte C2 and a byte from 80 to 9F.\<close>

definition c1_byte :: "char \<Rightarrow> bool" where
  "c1_byte d \<longleftrightarrow> 128 \<le> byte d \<and> byte d \<le> 159"

fun no_c1 :: "string \<Rightarrow> bool" where
  "no_c1 (c # d # r) \<longleftrightarrow> \<not> (c = CHR 0xC2 \<and> c1_byte d) \<and> no_c1 (d # r)"
| "no_c1 _ = True"

definition opens :: "string \<Rightarrow> bool" where
  "opens s \<longleftrightarrow> s \<noteq> [] \<and> c1_byte (hd s)"

definition closes :: "string \<Rightarrow> bool" where
  "closes s \<longleftrightarrow> s \<noteq> [] \<and> last s = CHR 0xC2"

lemma no_c1_Cons: "no_c1 (c # s) \<longleftrightarrow> \<not> (c = CHR 0xC2 \<and> opens s) \<and> no_c1 s"
  by (cases s) (auto simp: opens_def)

lemma opens_simps [simp]: "\<not> opens []" "opens (c # s) \<longleftrightarrow> c1_byte c"
  by (simp_all add: opens_def)

lemma opens_append: "opens (s @ t) \<longleftrightarrow> opens s \<or> s = [] \<and> opens t"
  by (cases s) auto

lemma no_c1_append: "no_c1 (s @ t) \<longleftrightarrow> no_c1 s \<and> no_c1 t \<and> \<not> (closes s \<and> opens t)"
  by (induction s) (auto simp: no_c1_Cons opens_append closes_def)

lemma no_c1_take: "no_c1 s \<Longrightarrow> no_c1 (take n s)"
  using no_c1_append [of "take n s" "drop n s"] by simp

lemma no_c1_drop: "no_c1 s \<Longrightarrow> no_c1 (drop n s)"
  using no_c1_append [of "take n s" "drop n s"] by simp

definition ascii :: "string \<Rightarrow> bool" where
  "ascii s \<longleftrightarrow> list_all (\<lambda>c. byte c < 128) s"

lemma ascii_simps [simp]: "ascii []" "ascii (c # s) \<longleftrightarrow> byte c < 128 \<and> ascii s" "ascii (s @ t) \<longleftrightarrow> ascii s \<and> ascii t"
  by (simp_all add: ascii_def)

lemma ascii_ends: "ascii s \<Longrightarrow> \<not> opens s \<and> \<not> closes s"
  by (fastforce simp: opens_def closes_def c1_byte_def ascii_def list_all_iff byte_def dest: hd_in_set last_in_set)

lemma ascii_no_c1: "ascii s \<Longrightarrow> no_c1 s"
  by (induction s) (auto simp: no_c1_Cons byte_def)

lemma no_c1_ellipsis: "no_c1 ellipsis" "\<not> opens ellipsis"
  by (simp_all add: ellipsis_def c1_byte_def byte_def)

text \<open>Blanking leaves no such pair, and each later step keeps it so.\<close>

lemma blank_controls_opens: "opens (blank_controls s) \<Longrightarrow> opens s"
  by (induction s rule: blank_controls.induct) (auto simp: c1_byte_def byte_def split: if_splits)

lemma no_c1_blank_controls: "no_c1 (blank_controls s)"
proof (induction s rule: blank_controls.induct)
  case (3 c d r)
  have "opens (blank_controls (d # r)) \<Longrightarrow> c1_byte d" using blank_controls_opens [of "d # r"] by simp
  with 3 show ?case by (auto simp: no_c1_Cons c1_byte_def)
qed (simp_all add: no_c1_Cons)

lemma rx_match_drop: "rx_match prev k caps s = Some (r, c) \<Longrightarrow> (\<exists>n. r = drop n s) \<and> (\<exists>xs. c = xs @ caps)"
proof (induction prev k caps s arbitrary: r c rule: rx_match.induct)
  case (3 prev f k caps s)
  show ?case
  proof (cases "fits f s")
    case False
    with "3.prems" have "rx_match prev k caps s = Some (r, c)" by simp
    with False "3.IH"(3) show ?thesis by blast
  next
    case True
    show ?thesis
    proof (cases "rx_match (Some (s ! (f s - 1))) (StarA f # k) caps (drop (f s) s)")
      case None
      with True "3.prems" have "rx_match prev k caps s = Some (r, c)" by simp
      with True None "3.IH"(2) show ?thesis by blast
    next
      case (Some x)
      with True "3.prems" have "x = (r, c)" by simp
      with True Some "3.IH"(1) show ?thesis by (auto simp: drop_drop)
    qed
  qed
next
  case (7 prev k caps s)
  then show ?case by fastforce
qed (auto simp: drop_drop split: option.splits if_splits intro: exI [of _ 0])

lemma rx_match_Alts:
  "rx_match prev (Alts as # k) caps s = Some y \<Longrightarrow> \<exists>a \<in> set as. rx_match prev (a @ k) caps s = Some y"
  by (induction as) (auto split: option.splits)

text \<open>The field name a credential match starts with is its first group.\<close>

definition keyword :: "rx list \<Rightarrow> bool" where
  "keyword a \<longleftrightarrow> (\<exists>x r. a = Atom (folded x) # r \<and> byte x < 128)"

lemma folded_opens: "fits (folded x) s \<Longrightarrow> byte x < 128 \<Longrightarrow> \<not> opens s"
  by (cases s) (auto simp: fits_def folded_def one_def to_lower_def c1_byte_def byte_def split: if_splits)

lemma keyword_match:
  assumes "rx_match prev (Cap # Alts as # k) [] s = Some (r, c)" "\<And>a. a \<in> set as \<Longrightarrow> keyword a"
  shows "(\<exists>xs. c = xs @ [length s]) \<and> \<not> opens s"
proof -
  from assms(1) have m: "rx_match prev (Alts as # k) [length s] s = Some (r, c)" by simp
  from rx_match_Alts [OF m] obtain a where a: "a \<in> set as" "rx_match prev (a @ k) [length s] s = Some (r, c)" by blast
  from assms(2) [OF a(1)] obtain x q where "a = Atom (folded x) # q" "byte x < 128" by (auto simp: keyword_def)
  with a(2) have "fits (folded x) s" by (auto split: if_splits)
  with folded_opens \<open>byte x < 128\<close> rx_match_drop [OF m] show ?thesis by blast
qed

definition credential_names :: "rx list list" where
  "credential_names =
     [lit ''authorization'', lit ''cookie'', lit ''access'' @ sep_opt # lit ''token'',
      lit ''refresh'' @ sep_opt # lit ''token'', lit ''device'' @ sep_opt # lit ''code'',
      lit ''user'' @ sep_opt # lit ''code'', lit ''card'' @ [opt (sep_opt # lit ''number'')],
      lit ''number'', lit ''cvc'', lit ''cvv'',
      lit ''shared'' @ sep_opt # lit ''payment'' @ sep_opt # lit ''token'',
      lit ''link'' @ sep_opt # lit ''pay'' @ sep_opt # lit ''token'',
      lit ''signature'' @ [opt (sep_opt # lit ''input'')],
      lit ''payment'' @ sep_opt # lit ''details'']"

lemma credential_keywords: "a \<in> set credential_names \<Longrightarrow> keyword a"
  by (auto simp: credential_names_def keyword_def lit_def byte_def)

lemma opens_take: "opens (take k t) \<Longrightarrow> opens t"
  by (cases k; cases t) auto

lemma drop_suffix: "drop (length s - length (drop n s)) s = drop n s" "take (length s - length (drop n s)) s = take n s"
  by (cases "n \<le> length s"; simp)+

lemma credential_group:
  assumes "rx_match prev credentialFieldPattern [] s = Some (r, c)"
  shows "\<not> opens (group1 s c)"
proof -
  obtain k where k: "credentialFieldPattern = quote_opt # Cap # Alts credential_names # k"
    by (simp add: credentialFieldPattern_def credential_names_def)
  from assms have "rx_match prev (quote_opt # Cap # Alts credential_names # k) [] s = Some (r, c)" by (simp only: k)
  then have "(\<exists>p n. rx_match p (Cap # Alts credential_names # k) [] (drop n s) = Some (r, c)) \<or>
      rx_match prev (Cap # Alts credential_names # k) [] (drop 0 s) = Some (r, c)"
    by (fastforce simp: quote_opt_def opt_def simp del: rx_match.simps(7) split: if_splits option.splits)
  then obtain p n where m: "rx_match p (Cap # Alts credential_names # k) [] (drop n s) = Some (r, c)" by blast
  from keyword_match [OF m credential_keywords] obtain xs where c: "rev c = length (drop n s) # rev xs" "\<not> opens (drop n s)"
    by fastforce
  show ?thesis
  proof (cases "rev xs")
    case Nil
    with c(1) show ?thesis by (simp add: group1_def)
  next
    case (Cons b bs)
    have "group1 s c = take (length (drop n s) - b) (drop (length s - length (drop n s)) s)"
      unfolding group1_def c(1) Cons by simp
    with c(2) opens_take show ?thesis unfolding drop_suffix by metis
  qed
qed

text \<open>Replacing keeps the property when every replacement fits at both of its ends.\<close>

definition keeps_ends :: "rx list \<Rightarrow> (string \<Rightarrow> string \<Rightarrow> string) \<Rightarrow> bool" where
  "keeps_ends p f \<longleftrightarrow> (\<forall>prev s r c n. rx_match prev p [] s = Some (r, c) \<longrightarrow> no_c1 s \<longrightarrow> n \<noteq> 0 \<longrightarrow> s \<noteq> [] \<longrightarrow>
     (let x = f (take n s) (group1 s c) in
      no_c1 x \<and> x \<noteq> [] \<and> (opens x \<longrightarrow> opens s) \<and> (closes x \<longrightarrow> closes (take n s))))"

lemma keeps_endsI:
  assumes "\<And>prev s r c n. rx_match prev p [] s = Some (r, c) \<Longrightarrow> no_c1 s \<Longrightarrow> n \<noteq> 0 \<Longrightarrow> s \<noteq> [] \<Longrightarrow>
    no_c1 (f (take n s) (group1 s c)) \<and> f (take n s) (group1 s c) \<noteq> [] \<and>
    (opens (f (take n s) (group1 s c)) \<longrightarrow> opens s) \<and> (closes (f (take n s) (group1 s c)) \<longrightarrow> closes (take n s))"
  shows "keeps_ends p f"
  using assms unfolding keeps_ends_def Let_def by blast

lemma rx_replace_no_c1:
  "no_c1 s \<Longrightarrow> keeps_ends p f \<Longrightarrow> no_c1 (rx_replace p f prev s) \<and> (opens (rx_replace p f prev s) \<longrightarrow> opens s)"
proof (induction p f prev s rule: rx_replace.induct)
  case (2 p f prev c cs)
  note f = "2.prems"(2)
  have cs: "no_c1 cs" "\<not> (c = CHR 0xC2 \<and> opens cs)" using "2.prems"(1) by (simp_all add: no_c1_Cons)
  show ?case
  proof (cases "\<exists>rest caps. rx_match prev p [] (c # cs) = Some (rest, caps) \<and> length rest \<le> length cs")
    case True
    then obtain rest caps where m: "rx_match prev p [] (c # cs) = Some (rest, caps)" "length rest \<le> length cs" by blast
    let ?n = "Suc (length cs) - length rest" and ?g = "group1 (c # cs) caps"
    let ?out = "rx_replace p f (Some ((c # cs) ! (length cs - length rest))) rest"
    obtain n where n: "rest = drop n (c # cs)" using rx_match_drop [OF m(1)] by blast
    have "take ?n (c # cs) @ rest = c # cs"
      using drop_suffix(2) [of "c # cs" n] append_take_drop_id [of n "c # cs"] unfolding n by (simp del: append_take_drop_id)
    with "2.prems"(1) have rest: "no_c1 rest" "\<not> (closes (take ?n (c # cs)) \<and> opens rest)"
      using no_c1_append [of "take ?n (c # cs)" rest] by auto
    have "?n \<noteq> 0" using m(2) by simp
    with f m(1) "2.prems"(1) have r: "no_c1 (f (take ?n (c # cs)) ?g)" "f (take ?n (c # cs)) ?g \<noteq> []"
      "opens (f (take ?n (c # cs)) ?g) \<Longrightarrow> opens (c # cs)" "closes (f (take ?n (c # cs)) ?g) \<Longrightarrow> closes (take ?n (c # cs))"
      unfolding keeps_ends_def Let_def by blast+
    from "2.IH"(2) [OF m(1) refl m(2) rest(1) f] have out: "no_c1 ?out" "opens ?out \<Longrightarrow> opens rest" by blast+
    have "rx_replace p f prev (c # cs) = f (take ?n (c # cs)) ?g @ ?out" using m by simp
    with r out rest(2) show ?thesis by (auto simp: no_c1_append opens_append)
  next
    case False
    then have e: "rx_replace p f prev (c # cs) = c # rx_replace p f (Some c) cs" by (auto split: option.split)
    have "no_c1 (rx_replace p f (Some c) cs) \<and> (opens (rx_replace p f (Some c) cs) \<longrightarrow> opens cs)"
    proof (cases "rx_match prev p [] (c # cs)")
      case None
      from "2.IH"(1) [OF this cs(1) f] show ?thesis by blast
    next
      case (Some x)
      obtain rest caps where x: "x = (rest, caps)" by fastforce
      with False Some have "\<not> length rest \<le> length cs" by auto
      with "2.IH"(3) [OF Some, of rest caps] x cs(1) f show ?thesis by blast
    qed
    with cs(2) show ?thesis unfolding e by (auto simp: no_c1_Cons)
  qed
qed simp

lemma no_c1_redact:
  assumes "no_c1 v"
  shows "no_c1 (redact v)"
proof -
  have a: "ascii redacted" "ascii (CHR ''='' # redacted)" "ascii (''Bearer '' @ redacted)"
    by (simp_all add: redacted_def byte_def)
  have ne: "redacted \<noteq> []" by (simp add: redacted_def)
  have group: "no_c1 (group1 s c)" if "no_c1 s" for s c
    using that by (auto simp: group1_def intro: no_c1_take no_c1_drop split: list.split)
  note g = ascii_no_c1 ascii_ends
  have field: "keeps_ends credentialFieldPattern (\<lambda>m g. g @ CHR ''='' # redacted)"
    using g [OF a(2)] group credential_group
    by (intro keeps_endsI) (fastforce simp: no_c1_append opens_append closes_def)
  have flat: "keeps_ends p (\<lambda>m g. x)" if "ascii x" "x \<noteq> []" for p x
    using g [OF that(1)] that(2) by (intro keeps_endsI) simp
  have pan: "keeps_ends p (\<lambda>m g. if P m then redacted else m)" for p P
    using g [OF a(1)] ne by (intro keeps_endsI) (auto intro: no_c1_take dest: opens_take)
  note r = rx_replace_no_c1 [THEN conjunct1]
  note rf = r [OF _ flat [OF a(1) ne]] and rb = r [OF _ flat [OF a(3)]]
  show ?thesis
    unfolding redact_def Let_def using assms by (intro r [OF _ pan] rf rb r [OF _ field]) simp_all
qed

lemma no_c1_fields: "no_c1 (acc @ s) \<Longrightarrow> list_all no_c1 (fields_from acc s)"
proof (induction acc s rule: fields_from.induct)
  case (2 acc c cs)
  show ?case
  proof (cases "strip_front space_encodings (c # cs)")
    case None
    with "2.IH" "2.prems" show ?thesis by simp
  next
    case (Some r)
    then obtain n where "r = drop n (c # cs)" by (auto simp: strip_front_def split: option.splits)
    then have r: "no_c1 r" using "2.prems" no_c1_drop [of "c # cs" n] by (simp add: no_c1_append)
    moreover have "no_c1 acc" using "2.prems" by (simp add: no_c1_append)
    ultimately show ?thesis using Some "2.IH" by simp
  qed
qed (simp add: no_c1_append)

lemma no_c1_join_space: "list_all no_c1 xs \<Longrightarrow> no_c1 (join '' '' xs)"
proof (induction "'' ''" xs rule: join.induct)
  case (3 x y ys)
  then show ?case by (auto simp: no_c1_append no_c1_Cons c1_byte_def byte_def)
qed simp_all

lemma no_c1_truncate: "no_c1 v \<Longrightarrow> no_c1 (truncateDiagnostic v)"
  by (simp add: truncateDiagnostic_def no_c1_append no_c1_take no_c1_ellipsis)

lemma sanitize_no_c1:
  assumes "no_c1 fallback"
  shows "no_c1 (sanitizeDiagnosticText value fallback)"
proof -
  have "no_c1 (join '' '' (fields_from [] (redact (blank_controls s))))" for s
    using no_c1_redact [OF no_c1_blank_controls] by (intro no_c1_join_space no_c1_fields) simp
  moreover have "ascii redacted" by (simp add: redacted_def byte_def)
  ultimately show ?thesis
    using assms ascii_no_c1
    by (auto simp: sanitizeDiagnosticText_def Let_def no_c1_append no_c1_ellipsis intro!: no_c1_truncate)
qed

section \<open>Card numbers\<close>

lemma luhn_value_inject:
  assumes "d < 10" "e < 10" "luhn_value p i d mod 10 = luhn_value p i e mod 10"
  shows "d = e"
proof (cases "i mod 2 = p")
  case False
  with assms show ?thesis by (simp add: luhn_value_def)
next
  case True
  have v: "luhn_value p i x = (if 9 < x * 2 then x * 2 - 9 else x * 2)" for x
    using True by (simp add: luhn_value_def)
  have "(if 9 < x * 2 then x * 2 - 9 else x * 2) < 10" if "x < 10" for x :: nat
    using that by auto
  with assms have eq: "(if 9 < d * 2 then d * 2 - 9 else d * 2) = (if 9 < e * 2 then e * 2 - 9 else e * 2)"
    unfolding v by simp
  have odd: "x * 2 - 9 \<noteq> y * 2" if "9 < x * 2" for x y :: nat using that by presburger
  show ?thesis
  proof (cases "9 < d * 2")
    case True
    with eq odd [of d e] show ?thesis by (cases "9 < e * 2") auto
  next
    case False
    with eq odd [of e d] show ?thesis by (cases "9 < e * 2") auto
  qed
qed

lemma mod_add_cancel10: "(x + s) mod 10 = (y + s) mod (10::nat) \<Longrightarrow> x mod 10 = y mod 10"
proof -
  assume "(x + s) mod 10 = (y + s) mod 10"
  then have "((x + s) + 9 * s) mod 10 = ((y + s) + 9 * s) mod 10" by (metis mod_add_left_eq)
  moreover have "(z + s) + 9 * s = z + 10 * s" for z by simp
  ultimately show ?thesis by simp
qed

lemma luhn_sum_split:
  "luhn_sum (xs @ d # ys) =
   luhn_value (Suc (length xs + length ys) mod 2) (length xs) d +
   (\<Sum>i\<leftarrow>[0..<length xs]. luhn_value (Suc (length xs + length ys) mod 2) i (xs ! i)) +
   (\<Sum>i\<leftarrow>[0..<length ys]. luhn_value (Suc (length xs + length ys) mod 2) (Suc (length xs) + i) (ys ! i))"
proof -
  let ?p = "Suc (length xs + length ys) mod 2" and ?n = "length xs" and ?l = "xs @ d # ys"
  have "[0..<Suc (?n + length ys)] = [0..<?n] @ [?n..<Suc (?n + length ys)]"
    using upt_add_eq_append [of 0 ?n "Suc (length ys)"] by simp
  also have "[?n..<Suc (?n + length ys)] = ?n # [Suc ?n..<Suc (?n + length ys)]"
    by (rule upt_conv_Cons) simp
  also have "[Suc ?n..<Suc (?n + length ys)] = map (\<lambda>i. Suc ?n + i) [0..<length ys]"
    using map_add_upt [of "Suc ?n" "length ys"] by (simp add: add.commute del: upt_Suc)
  finally have u: "[0..<Suc (?n + length ys)] = [0..<?n] @ ?n # map (\<lambda>i. Suc ?n + i) [0..<length ys]" .
  have a: "map (\<lambda>i. luhn_value ?p i (?l ! i)) [0..<?n] = map (\<lambda>i. luhn_value ?p i (xs ! i)) [0..<?n]"
    by (rule map_cong) (simp_all add: nth_append)
  have b: "map (\<lambda>i. luhn_value ?p (Suc ?n + i) (?l ! (Suc ?n + i))) [0..<length ys] =
      map (\<lambda>i. luhn_value ?p (Suc ?n + i) (ys ! i)) [0..<length ys]"
    by (simp add: nth_append)
  have "luhn_sum ?l = sum_list (map (\<lambda>i. luhn_value ?p i (?l ! i)) [0..<Suc (?n + length ys)])"
    by (simp add: luhn_sum_def del: upt_Suc)
  also have "\<dots> = sum_list (map (\<lambda>i. luhn_value ?p i (?l ! i)) [0..<?n]) +
      (luhn_value ?p ?n (?l ! ?n) +
       sum_list (map (\<lambda>i. luhn_value ?p (Suc ?n + i) (?l ! (Suc ?n + i))) [0..<length ys]))"
    unfolding u by (simp only: map_append list.map map_map comp_def sum_list.append sum_list.Cons)
  finally show ?thesis unfolding a b by simp
qed

text \<open>the card detector is a check digit test: a card number in which any one digit is changed
  is not taken for a card number.\<close>

theorem card_number_single_error:
  assumes "isPaymentCardNumber (a @ c # b)" "is_digit c" "is_digit d" "c \<noteq> d"
  shows "\<not> isPaymentCardNumber (a @ d # b)"
proof
  assume d: "isPaymentCardNumber (a @ d # b)"
  let ?v = "\<lambda>x. byte x - 48"
  have ds: "digits_of (a @ x # b) = digits_of a @ ?v x # digits_of b" if "is_digit x" for x
    using that by (simp add: digits_of_def)
  have "luhn_sum (digits_of a @ ?v c # digits_of b) mod 10 = luhn_sum (digits_of a @ ?v d # digits_of b) mod 10"
    using assms(1) d ds assms(2,3) by (auto simp: isPaymentCardNumber_def Let_def split: if_splits)
  then have "luhn_value p i (?v c) mod 10 = luhn_value p i (?v d) mod 10"
    if "p = Suc (length (digits_of a) + length (digits_of b)) mod 2" "i = length (digits_of a)" for p i
    unfolding luhn_sum_split that add.assoc by (rule mod_add_cancel10)
  from luhn_value_inject [OF _ _ this [OF refl refl]] have "?v c = ?v d"
    using assms(2,3) unfolding is_digit_def by linarith
  then have "byte c = byte d" using assms(2,3) unfolding is_digit_def by linarith
  with assms(4) show False by (simp add: byte_inject)
qed

theorem card_number_single_error_witness:
  "isPaymentCardNumber ''4242424242424242'' \<and> \<not> isPaymentCardNumber ''4242424242434242''"
proof -
  have y: "isPaymentCardNumber (''42424242424'' @ CHR ''2'' # ''4242'')" by code_simp
  have n: "is_digit (CHR ''2'')" "is_digit (CHR ''3'')" "CHR ''2'' \<noteq> CHR ''3''" by code_simp+
  show ?thesis using y card_number_single_error [OF y n] by simp
qed

section \<open>What gets through\<close>

text \<open>An \<open>Authorization\<close> header quoted in a server message is not redacted: the field pattern
  takes only the word \<open>Bearer\<close> as the value of the field, and once that word is gone the bearer
  pattern no longer applies to the token that follows it.\<close>

theorem authorization_header_leaks:
  "sanitizeDiagnosticText ''authorization: Bearer a1b2'' ''failed'' = ''authorization=<redacted> a1b2''"
  by code_simp

text \<open>a valid card number is redacted on its own, but not when a space and five digits follow
  it: the candidate pattern joins both into one candidate of more than 19 digits.\<close>

theorem card_number_leaks:
  "sanitizeDiagnosticText ''4242424242424242'' ''failed'' = ''<redacted>'' \<and>
   sanitizeDiagnosticText ''4242424242424242 12345'' ''failed'' = ''4242424242424242 12345''"
  by (rule conjI; code_simp)

end
