(* ===== verification/Transport.thy ===== *)
theory Transport
  imports AuthStorage Sanitizer
begin

text \<open>
  The request engine of transport.go: \<open>core.do\<close> with bearer injection and the single replay of safe
  reads after a 401, \<open>doAttempt\<close>, the bounded read of bodies, redirect refusal, metadata-only
  logging, and the construction of API errors. The HTTP peer is the function \<open>w_http\<close> of the world;
  every request that leaves the process is recorded in \<open>w_sent\<close>, every log record in \<open>w_log\<close>.
\<close>

section \<open>Requests\<close>

type_synonym headers = "(string \<times> string) list"

record api_request =
  ar_method :: string
  ar_url :: string
  ar_header :: headers
  ar_body :: "string option"
  ar_authenticated :: bool
  ar_retryOnUnauthorized :: bool

text \<open>\<open>AccessTokenRequest\<close> (client.go).\<close>

record access_token_request =
  tr_ForceRefresh :: bool
  tr_RejectedToken :: string

definition first_request :: access_token_request where
  "first_request = \<lparr>tr_ForceRefresh = False, tr_RejectedToken = []\<rparr>"

type_synonym token_func =
  "go_context \<Rightarrow> access_token_request \<Rightarrow> world \<Rightarrow> (go_error, string) result \<times> world"

text \<open>The configured \<open>http.Client\<close>: the headers its transport adds (client.go).\<close>

record http_client =
  hc_default_headers :: headers

record core =
  c_clientName :: string
  c_httpClient :: "http_client option"
  c_getAccessToken :: "token_func option"
  c_storage :: auth_storage
  c_authBaseURL :: string
  c_apiBaseURL :: string
  c_spendRequestBaseURL :: string
  c_verbose :: bool
  c_managesSession :: bool
  c_maxResponseBodyBytes :: int

section \<open>The HTTP client\<close>

definition header_set :: "string \<Rightarrow> string \<Rightarrow> headers \<Rightarrow> headers" where
  "header_set k v h = filter (\<lambda>e. fst e \<noteq> k) h @ [(k, v)]"

text \<open>Names are compared as \<open>strings.EqualFold\<close> compares them when one is ASCII.\<close>

definition headerPresent :: "headers \<Rightarrow> string \<Rightarrow> bool" where
  "headerPresent h name \<longleftrightarrow> list_ex (\<lambda>e. fold_name (fst e) = fold_name name) h"

definition add_default_headers :: "headers \<Rightarrow> headers \<Rightarrow> headers" where
  "add_default_headers defaults h =
     foldl (\<lambda>acc e. if headerPresent acc (fst e) then acc else acc @ [e]) h defaults"

definition peer :: "http_request \<Rightarrow> world \<Rightarrow> http_reply \<times> world" where
  "peer rq w = (w_http w (w_tick w) rq, (tick w)\<lparr>w_sent := w_sent w @ [rq]\<rparr>)"

text \<open>\<open>http.Client.Do\<close> through \<open>defaultHeaderTransport\<close>; redirects are refused, so one call sends
  one request.\<close>

definition RoundTrip :: "headers \<Rightarrow> http_request \<Rightarrow> world \<Rightarrow> http_reply \<times> world" where
  "RoundTrip defaults rq w = peer (rq\<lparr>rq_headers := add_default_headers defaults (rq_headers rq)\<rparr>) w"

definition httpClient_Do :: "http_client \<Rightarrow> http_request \<Rightarrow> world \<Rightarrow> http_reply \<times> world" where
  "httpClient_Do hc rq w =
     (if hc_default_headers hc = [] then peer rq w else RoundTrip (hc_default_headers hc) rq w)"

section \<open>Constructing a request\<close>

definition method_char :: "char \<Rightarrow> bool" where
  "method_char c \<longleftrightarrow> is_alpha c \<or> is_digit c \<or> c \<in> set ''!#$%&'' \<union> {CHR 0x27, CHR 0x60} \<union> set ''*+-.^_|~''"

definition remove_empty_port :: "string \<Rightarrow> string" where
  "remove_empty_port h =
     (case cut_last (CHR '':'') h of
        Some (a, []) \<Rightarrow> a
      | _ \<Rightarrow> h)"

text \<open>\<open>http.NewRequestWithContext\<close>: the method and the parsed URL.\<close>

definition new_request :: "string \<Rightarrow> string \<Rightarrow> (go_error, string \<times> url) result" where
  "new_request method raw =
     (let m = (if method = [] then ''GET'' else method)
      in if \<not> list_all method_char m then Inl (Msg ''net/http: invalid method'')
         else (case url_parse raw of
                 None \<Rightarrow> Inl url_error
               | Some u \<Rightarrow> Inr (m, u\<lparr>u_host := remove_empty_port (u_host u)\<rparr>)))"

section \<open>Diagnostics\<close>

definition sanitizeURLForLog :: "url \<Rightarrow> string" where
  "sanitizeURLForLog u =
     url_string (u\<lparr>u_user := None, u_raw_query := [], u_force_query := False, u_fragment := [],
                   u_raw_fragment := []\<rparr>)"

definition safeURLDiagnostic :: "string \<Rightarrow> string" where
  "safeURLDiagnostic raw =
     (case url_parse raw of
        None \<Rightarrow> ''<invalid-url>''
      | Some u \<Rightarrow>
          (if \<not> url_is_abs u \<or> u_host u = [] \<or> u_opaque u \<noteq> [] then ''<invalid-url>''
           else if length (sanitizeURLForLog u) > maxDiagnosticBytes then ''<redacted-url>''
           else sanitizeURLForLog u))"

definition sortedHeaderNames :: "headers \<Rightarrow> string list" where
  "sortedHeaderNames h = sort (remdups (map fst h))"

definition newTransportError :: "string \<Rightarrow> string \<Rightarrow> go_error \<Rightarrow> go_error" where
  "newTransportError method rawURL cause = TransportErr ''transport_error'' method rawURL cause"

definition write_log :: "bool \<Rightarrow> log_entry \<Rightarrow> world \<Rightarrow> world" where
  "write_log verbose e w = (if verbose then w\<lparr>w_log := w_log w @ [e]\<rparr> else w)"

section \<open>Bodies\<close>

text \<open>\<open>io.ReadAll(io.LimitReader(body, limit))\<close>: the stream's own error is only met when the limit
  is not reached first.\<close>

definition read_limited :: "int \<Rightarrow> http_body \<Rightarrow> (go_error, string) result" where
  "read_limited limit b =
     (if int (length (hb_data b)) \<ge> limit then Inr (take (nat limit) (hb_data b))
      else (case hb_read_err b of Some e \<Rightarrow> Inl e | None \<Rightarrow> Inr (hb_data b)))"

definition readBoundedAndClose :: "http_body option \<Rightarrow> int \<Rightarrow> (go_error, string) result" where
  "readBoundedAndClose body maximum =
     (case body of
        None \<Rightarrow> Inr []
      | Some b \<Rightarrow>
          (let readLimit = (if maximum < max_int64 then maximum + 1 else maximum)
           in case read_limited readLimit b of
                Inl e \<Rightarrow> Inl e
              | Inr contents \<Rightarrow>
                  (if int (length contents) > maximum then Inl (Sentinel ErrResponseTooLarge)
                   else (case hb_close_err b of Some e \<Rightarrow> Inl e | None \<Rightarrow> Inr contents))))"

section \<open>One attempt\<close>

type_synonym attempt_result = "(go_error, int \<times> string) result"

definition request_log :: "string \<Rightarrow> string \<Rightarrow> nat \<Rightarrow> headers \<Rightarrow> log_entry" where
  "request_log m u n h = \<lparr>lg_message = ''stripelink HTTP request'', lg_method = m, lg_url = u,
     lg_attempt = n, lg_header_names = sortedHeaderNames h, lg_status = None, lg_body_bytes = None\<rparr>"

definition failure_log :: "string \<Rightarrow> string \<Rightarrow> nat \<Rightarrow> log_entry" where
  "failure_log m u n = \<lparr>lg_message = ''stripelink HTTP request failed'', lg_method = m, lg_url = u,
     lg_attempt = n, lg_header_names = [], lg_status = None, lg_body_bytes = None\<rparr>"

definition response_log :: "string \<Rightarrow> string \<Rightarrow> nat \<Rightarrow> http_response \<Rightarrow> nat \<Rightarrow> log_entry" where
  "response_log m u n r bytes = \<lparr>lg_message = ''stripelink HTTP response'', lg_method = m, lg_url = u,
     lg_attempt = n, lg_header_names = sortedHeaderNames (rs_headers r), lg_status = Some (rs_status r),
     lg_body_bytes = Some bytes\<rparr>"

definition wire_request :: "api_request \<Rightarrow> string \<Rightarrow> string \<Rightarrow> http_request" where
  "wire_request req method token =
     \<lparr>rq_method = method, rq_url = ar_url req,
      rq_headers = (if ar_authenticated req
                    then header_set ''Authorization'' (''Bearer '' @ token) (ar_header req)
                    else ar_header req),
      rq_body = ar_body req\<rparr>"

text \<open>What the response becomes once its body is read.\<close>

definition attempt_outcome ::
  "string \<Rightarrow> string \<Rightarrow> http_response \<Rightarrow> (go_error, string) result \<Rightarrow> attempt_result" where
  "attempt_outcome method rawURL response body =
     (case body of
        Inl e \<Rightarrow> Inl (if e = Sentinel ErrResponseTooLarge then e else newTransportError method rawURL e)
      | Inr b \<Rightarrow>
          (if rs_status response \<ge> 300 \<and> rs_status response < 400
           then Inl (newTransportError method rawURL (Sentinel ErrRedirect))
           else Inr (rs_status response, b)))"

definition doAttempt :: "core \<Rightarrow> http_client \<Rightarrow> api_request \<Rightarrow> string \<Rightarrow> nat \<Rightarrow> world \<Rightarrow> attempt_result \<times> world" where
  "doAttempt c hc req token attempt w =
     (case new_request (ar_method req) (ar_url req) of
        Inl e \<Rightarrow> (Inl (Wrapf ''construct HTTP request'' [Sentinel ErrInvalidArgument, e]), w)
      | Inr (method, u) \<Rightarrow>
          (let rq = wire_request req method token;
               safe = sanitizeURLForLog u;
               w1 = write_log (c_verbose c) (request_log method safe attempt (rq_headers rq)) w
           in case httpClient_Do hc rq w1 of
                (Inl e, w2) \<Rightarrow>
                  (Inl (newTransportError method (ar_url req) e),
                   write_log (c_verbose c) (failure_log method safe attempt) w2)
              | (Inr response, w2) \<Rightarrow>
                  (let body = readBoundedAndClose (rs_body response) (c_maxResponseBodyBytes c);
                       bytes = (case body of Inl _ \<Rightarrow> 0 | Inr b \<Rightarrow> length b)
                   in (attempt_outcome method (ar_url req) response body,
                       write_log (c_verbose c) (response_log method safe attempt response bytes) w2))))"

section \<open>do\<close>

function do_loop ::
  "core \<Rightarrow> http_client \<Rightarrow> token_func option \<Rightarrow> go_context \<Rightarrow> api_request \<Rightarrow> nat \<Rightarrow> string \<Rightarrow> nat \<Rightarrow> world \<Rightarrow>
   attempt_result \<times> world" where
  "do_loop c hc get ctx req maximumAttempts token attempt w =
     (case doAttempt c hc req token attempt w of
        (Inl e, w1) \<Rightarrow> (Inl e, w1)
      | (Inr (status, body), w1) \<Rightarrow>
          (if status \<noteq> 401 \<or> attempt \<ge> maximumAttempts then (Inr (status, body), w1)
           else (case get of
                   None \<Rightarrow> (Inl (Sentinel ErrNotAuthenticated), w1)
                 | Some g \<Rightarrow>
                     (case g ctx \<lparr>tr_ForceRefresh = True, tr_RejectedToken = token\<rparr> w1 of
                        (Inl e, w2) \<Rightarrow> (Inl e, w2)
                      | (Inr refreshed, w2) \<Rightarrow>
                          (if refreshed = [] then (Inl (Sentinel ErrNotAuthenticated), w2)
                           else do_loop c hc get ctx req maximumAttempts refreshed (Suc attempt) w2)))))"
  by pat_completeness auto
termination
  by (relation "measure (\<lambda>(c, hc, get, ctx, req, m, token, attempt, w). m - attempt)") auto

declare do_loop.simps [simp del]

definition maximum_attempts :: "api_request \<Rightarrow> nat" where
  "maximum_attempts req =
     (if ar_authenticated req \<and> ar_retryOnUnauthorized req \<and> ar_method req = ''GET'' then 2 else 1)"

definition core_do :: "core option \<Rightarrow> go_context \<Rightarrow> api_request \<Rightarrow> world \<Rightarrow> attempt_result \<times> world" where
  "core_do co ctx req w =
     (if ctx = None then (Inl (invalid_argument ''context must not be nil''), w)
      else case co of
        None \<Rightarrow> (Inl (Wrapf ''client transport is not configured'' [Sentinel ErrInvalidConfiguration]), w)
      | Some c \<Rightarrow>
          (case c_httpClient c of
             None \<Rightarrow> (Inl (Wrapf ''client transport is not configured'' [Sentinel ErrInvalidConfiguration]), w)
           | Some hc \<Rightarrow>
               (if c_maxResponseBodyBytes c \<le> 0
                then (Inl (Wrapf ''response body bound is not configured'' [Sentinel ErrInvalidConfiguration]), w)
                else if \<not> ar_authenticated req
                then do_loop c hc (c_getAccessToken c) ctx req (maximum_attempts req) [] 1 w
                else (case c_getAccessToken c of
                        None \<Rightarrow> (Inl (Sentinel ErrNotAuthenticated), w)
                      | Some g \<Rightarrow>
                          (case g ctx first_request w of
                             (Inl e, w1) \<Rightarrow> (Inl e, w1)
                           | (Inr token, w1) \<Rightarrow>
                               (if token = [] then (Inl (Sentinel ErrNotAuthenticated), w1)
                                else do_loop c hc (c_getAccessToken c) ctx req (maximum_attempts req) token 1 w1))))))"

section \<open>API errors\<close>

definition validJSONCopy :: "string \<Rightarrow> string option" where
  "validJSONCopy body = (if json_valid body then Some body else None)"

text \<open>\<open>json.Unmarshal\<close> into a string and into a struct with one string field: the value when
  there was no error.\<close>

definition unmarshal_string :: "json \<Rightarrow> string option" where
  "unmarshal_string v = (case v of JStr raw \<Rightarrow> Some (unquote raw) | JNull \<Rightarrow> Some [] | _ \<Rightarrow> None)"

definition unmarshal_message :: "json \<Rightarrow> string option" where
  "unmarshal_message v =
     (case v of
        JObj ms \<Rightarrow> (if snd (get_string ''message'' ms) then Some (fst (get_string ''message'' ms)) else None)
      | JNull \<Rightarrow> Some []
      | _ \<Rightarrow> None)"

definition remote_failed :: string where "remote_failed = ''remote API request failed''"

definition nonempty :: "string option \<Rightarrow> string option" where
  "nonempty m = (case m of Some s \<Rightarrow> (if s = [] then None else Some s) | None \<Rightarrow> None)"

definition first_some :: "'a option \<Rightarrow> 'a option \<Rightarrow> 'a option" where
  "first_some a b = (case a of Some x \<Rightarrow> Some x | None \<Rightarrow> b)"

definition error_field_message :: "raw_map \<Rightarrow> string option" where
  "error_field_message obj =
     first_some
       (case map_of obj ''error'' of
          None \<Rightarrow> None
        | Some raw \<Rightarrow> first_some (nonempty (unmarshal_message raw)) (nonempty (unmarshal_string raw)))
       (case map_of obj ''message'' of
          None \<Rightarrow> None
        | Some raw \<Rightarrow> nonempty (unmarshal_string raw))"

definition extractAPIErrorMessage :: "string \<Rightarrow> string" where
  "extractAPIErrorMessage body =
     (case (case parse_json body of Some (JObj ms) \<Rightarrow> error_field_message (dec_map ms []) | _ \<Rightarrow> None) of
        Some message \<Rightarrow> sanitizeDiagnosticText message remote_failed
      | None \<Rightarrow>
          (if trim_space body \<noteq> [] then
             (if json_valid body then ''remote API returned an error response''
              else ''remote API returned a non-JSON error'')
           else ''remote API returned an empty error response''))"

definition newAPIError :: "int \<Rightarrow> string \<Rightarrow> api_error" where
  "newAPIError status body =
     \<lparr>ae_code = ''api_error'', ae_message = extractAPIErrorMessage body, ae_status = status,
      ae_raw_body = body, ae_details = validJSONCopy body\<rparr>"

definition doJSON ::
  "(json \<Rightarrow> 'a \<times> bool) \<Rightarrow> core option \<Rightarrow> go_context \<Rightarrow> api_request \<Rightarrow> world \<Rightarrow> (go_error, 'a) result \<times> world" where
  "doJSON dec co ctx req w =
     (case core_do co ctx req w of
        (Inl e, w1) \<Rightarrow> (Inl e, w1)
      | (Inr (status, body), w1) \<Rightarrow>
          (if status < 200 \<or> status \<ge> 300 then (Inl (APIErr (newAPIError status body)), w1)
           else (case parse_json body of
                   None \<Rightarrow> (Inl (Wrapf ''stripelink: decode successful response'' [json_error]), w1)
                 | Some v \<Rightarrow>
                     (if snd (dec v) then (Inr (fst (dec v)), w1)
                      else (Inl (Wrapf ''stripelink: decode successful response'' [json_error]), w1)))))"

end
