(* ===== verification/TransportTheorems.thy ===== *)
theory TransportTheorems
  imports Transport SanitizerTheorems SampleWorlds
begin

text \<open>
  What \<open>core.do\<close> sends and returns: how often a request can reach the wire, with which
  credentials, how large a returned body can be, and that logging changes nothing else.
\<close>

section \<open>What is sent\<close>

definition sent_as :: "http_client \<Rightarrow> http_request \<Rightarrow> http_request" where
  "sent_as hc rq = rq\<lparr>rq_headers := add_default_headers (hc_default_headers hc) (rq_headers rq)\<rparr>"

lemma httpClient_Do_sent:
  "httpClient_Do hc rq w = (r, w') \<Longrightarrow> w_sent w' = w_sent w @ [sent_as hc rq]"
  by (auto simp: httpClient_Do_def RoundTrip_def peer_def sent_as_def add_default_headers_def split: if_splits)

lemma write_log_sent [simp]: "w_sent (write_log v e w) = w_sent w"
  by (simp add: write_log_def)

definition wire_method :: "api_request \<Rightarrow> string" where
  "wire_method req = (if ar_method req = [] then ''GET'' else ar_method req)"

lemma new_request_method: "new_request (ar_method req) u = Inr (m, v) \<Longrightarrow> m = wire_method req"
  by (auto simp: new_request_def wire_method_def Let_def split: if_splits option.splits)

lemma doAttempt_sent:
  assumes "doAttempt c hc req token n w = (r, w')"
  shows "w_sent w' = w_sent w \<and> (\<exists>e. r = Inl e) \<or>
    w_sent w' = w_sent w @ [sent_as hc (wire_request req (wire_method req) token)]"
proof (cases "new_request (ar_method req) (ar_url req)")
  case (Inl e)
  with assms show ?thesis by (auto simp: doAttempt_def)
next
  case (Inr mu)
  obtain m u where mu: "mu = (m, u)" by fastforce
  let ?w = "write_log (c_verbose c) (request_log m (sanitizeURLForLog u) n (rq_headers (wire_request req m token))) w"
  obtain x w2 where x: "httpClient_Do hc (wire_request req m token) ?w = (x, w2)" by fastforce
  have m: "m = wire_method req" using Inr mu new_request_method by blast
  have "w_sent w' = w_sent w2"
    using assms Inr mu x by (cases x) (auto simp: doAttempt_def Let_def)
  with httpClient_Do_sent [OF x] m show ?thesis by simp
qed

text \<open>The requests that went to one URL.\<close>

definition sent_to :: "string \<Rightarrow> world \<Rightarrow> http_request list" where
  "sent_to u w = filter (\<lambda>rq. rq_url rq = u) (w_sent w)"

lemma sent_as_url [simp]: "rq_url (sent_as hc (wire_request req m t)) = ar_url req"
  by (simp add: sent_as_def wire_request_def)

lemma write_log_outside: "outside_step w w' \<Longrightarrow> outside_step w (write_log v e w')"
  by (simp add: write_log_def outside_step_def)

lemma httpClient_Do_outside: "httpClient_Do hc rq w = (r, w') \<Longrightarrow> outside_step w w'"
  by (auto simp: httpClient_Do_def RoundTrip_def peer_def outside_step_def split: if_splits)

lemma doAttempt_outside:
  assumes "doAttempt c hc req t n w = (r, w')"
  shows "outside_step w w'"
proof (cases "new_request (ar_method req) (ar_url req)")
  case (Inl e)
  with assms show ?thesis by (auto simp: doAttempt_def)
next
  case (Inr mu)
  obtain m u where mu: "mu = (m, u)" by fastforce
  let ?w = "write_log (c_verbose c) (request_log m (sanitizeURLForLog u) n (rq_headers (wire_request req m t))) w"
  obtain x w2 where x: "httpClient_Do hc (wire_request req m t) ?w = (x, w2)" by fastforce
  have "outside_step w w2"
    using httpClient_Do_outside [OF x] write_log_outside by (blast intro: outside_step_trans)
  with assms Inr mu x show ?thesis
    by (cases x) (auto simp: doAttempt_def Let_def intro: write_log_outside)
qed

text \<open>The loop as the code unrolls it.\<close>

lemma do_loop_last:
  "maximumAttempts \<le> attempt \<Longrightarrow>
   do_loop c hc get ctx req maximumAttempts token attempt w = doAttempt c hc req token attempt w"
  by (subst do_loop.simps) (auto split: prod.splits sum.splits)

definition replay ::
  "core \<Rightarrow> http_client \<Rightarrow> token_func \<Rightarrow> go_context \<Rightarrow> api_request \<Rightarrow> string \<Rightarrow> world \<Rightarrow> attempt_result \<times> world" where
  "replay c hc g ctx req token w =
     (case doAttempt c hc req token 1 w of
        (Inr (status, body), w1) \<Rightarrow>
          (if status \<noteq> 401 then (Inr (status, body), w1)
           else (case g ctx \<lparr>tr_ForceRefresh = True, tr_RejectedToken = token\<rparr> w1 of
                   (Inr refreshed, w2) \<Rightarrow>
                     (if refreshed = [] then (Inl (Sentinel ErrNotAuthenticated), w2)
                      else doAttempt c hc req refreshed 2 w2)
                 | (Inl e, w2) \<Rightarrow> (Inl e, w2)))
      | (Inl e, w1) \<Rightarrow> (Inl e, w1))"

lemma do_loop_two: "do_loop c hc (Some g) ctx req 2 token 1 w = replay c hc g ctx req token w"
  unfolding replay_def
  by (subst do_loop.simps) (auto simp: do_loop_last numeral_2_eq_2 split: prod.splits sum.splits)

text \<open>Where the bearers of one authenticated call come from: the source's first token, and, once the
  server answered 401 to it and the call may be replayed, the token the source returns when it is
  asked to replace exactly that one.\<close>

definition bearers_of ::
  "core \<Rightarrow> http_client \<Rightarrow> token_func \<Rightarrow> go_context \<Rightarrow> api_request \<Rightarrow> world \<Rightarrow> string list \<Rightarrow> bool" where
  "bearers_of c hc g ctx req w ts \<longleftrightarrow> [] \<notin> set ts \<and>
     (ts = [] \<or>
      (\<exists>t w1. g ctx first_request w = (Inr t, w1) \<and>
         (ts = [t] \<or>
          (\<exists>b w2 t2 w3. maximum_attempts req = 2 \<and> doAttempt c hc req t 1 w1 = (Inr (401, b), w2) \<and>
             g ctx \<lparr>tr_ForceRefresh = True, tr_RejectedToken = t\<rparr> w2 = (Inr t2, w3) \<and> ts = [t, t2]))))"

lemma doAttempt_sent_to:
  assumes "doAttempt c hc req t n w = (r, w')"
  shows "sent_to (ar_url req) w' = sent_to (ar_url req) w \<and> (\<exists>e. r = Inl e) \<or>
    sent_to (ar_url req) w' = sent_to (ar_url req) w @ [sent_as hc (wire_request req (wire_method req) t)]"
  using doAttempt_sent [OF assms] by (auto simp: sent_to_def)

definition sends :: "string \<Rightarrow> http_client \<Rightarrow> api_request \<Rightarrow> nat \<Rightarrow> world \<Rightarrow> world \<Rightarrow> bool" where
  "sends u hc req n w w' \<longleftrightarrow> (\<exists>ts. sent_to u w' =
     sent_to u w @ filter (\<lambda>rq. rq_url rq = u) (map (\<lambda>t. sent_as hc (wire_request req (wire_method req) t)) ts) \<and> length ts \<le> n \<and>
     (ar_authenticated req \<longrightarrow> [] \<notin> set ts))"

lemma sends_refl: "sent_to u w' = sent_to u w \<Longrightarrow> sends u hc req n w w'"
  unfolding sends_def by (intro exI [of _ "[]"]) simp

lemma doAttempt_sends:
  assumes "doAttempt c hc req t n w = (r, w')" "ar_authenticated req \<longrightarrow> t \<noteq> []" "0 < k"
  shows "sends u hc req k w w'"
  using doAttempt_sent [OF assms(1)]
proof
  assume "w_sent w' = w_sent w @ [sent_as hc (wire_request req (wire_method req) t)]"
  with assms(2,3) show ?thesis unfolding sends_def sent_to_def by (intro exI [of _ "[t]"]) auto
qed (auto simp: sent_to_def intro!: sends_refl)

text \<open>The interface of an \<open>AccessTokenFunc\<close> as the request engine relies on it: in worlds of the class
  \<open>P\<close>, which requests do not leave, the source stays in the class and sends requests only to the URLs
  \<open>used\<close> (a refresh goes to the auth server).\<close>

locale token_source =
  fixes g :: token_func
    and P :: "world \<Rightarrow> bool"
    and used :: "string set"
  assumes outside_keep: "outside_step w w' \<Longrightarrow> P w \<Longrightarrow> P w'"
    and source_keep: "g ctx rq w = (x, w') \<Longrightarrow> P w \<Longrightarrow> P w'"
    and source_apart: "g ctx rq w = (x, w') \<Longrightarrow> P w \<Longrightarrow> u \<notin> used \<Longrightarrow> sent_to u w' = sent_to u w"
begin

text \<open>A call does not leave the class either.\<close>

lemma attempt_keep: "doAttempt c hc req t n w = (r, w') \<Longrightarrow> P w \<Longrightarrow> P w'"
  by (rule outside_keep [OF doAttempt_outside])

lemma do_loop_keep:
  "do_loop c hc (Some g) ctx req m t n w = (r, w') \<Longrightarrow> P w \<Longrightarrow> P w'"
proof (induction "m - n" arbitrary: t n w rule: less_induct)
  case less
  obtain x w1 where x: "doAttempt c hc req t n w = (x, w1)" by fastforce
  have w1: "P w1" by (rule attempt_keep [OF x less.prems(2)])
  show ?case
  proof (cases "\<exists>b. x = Inr (401, b) \<and> \<not> m \<le> n")
    case True
    then obtain b where b: "x = Inr (401, b)" "\<not> m \<le> n" by blast
    obtain y w2 where y: "g ctx \<lparr>tr_ForceRefresh = True, tr_RejectedToken = t\<rparr> w1 = (y, w2)" by fastforce
    have w2: "P w2" by (rule source_keep [OF y w1])
    show ?thesis
    proof (cases "\<exists>t'. y = Inr t' \<and> t' \<noteq> []")
      case False
      with less.prems(1) x b y w2 show ?thesis by (subst (asm) do_loop.simps) (auto split: sum.splits if_splits)
    next
      case t: True
      then obtain t' where t': "y = Inr t'" "t' \<noteq> []" by blast
      with less.prems(1) x b y have "do_loop c hc (Some g) ctx req m t' (Suc n) w2 = (r, w')"
        by (subst (asm) do_loop.simps) simp
      moreover have "m - Suc n < m - n" using b(2) by linarith
      ultimately show ?thesis using less.hyps w2 by blast
    qed
  next
    case False
    with less.prems(1) x w1 show ?thesis by (subst (asm) do_loop.simps) (auto split: sum.splits if_splits)
  qed
qed

lemma core_do_keep:
  assumes "core_do (Some c) ctx req w = (r, w')" "c_getAccessToken c = Some g" "P w"
  shows "P w'"
  using assms
  by (auto simp: core_do_def intro: do_loop_keep source_keep split: option.splits if_splits sum.splits prod.splits)

lemma replay_sends:
  assumes "replay c hc g ctx req token w = (r, w')" "P w" "u \<notin> used" "token \<noteq> []"
  shows "sends u hc req 2 w w'"
proof -
  obtain x w1 where x: "doAttempt c hc req token 1 w = (x, w1)" by fastforce
  note s1 = doAttempt_sends [OF x, of 2 u] doAttempt_sends [OF x, of 1 u]
  show ?thesis
  proof (cases "\<exists>b. x = Inr (401, b)")
    case False
    with assms(1,4) x s1 show ?thesis
      by (auto simp: replay_def split: sum.splits if_splits)
  next
    case True
    obtain y w2 where y: "g ctx \<lparr>tr_ForceRefresh = True, tr_RejectedToken = token\<rparr> w1 = (y, w2)" by fastforce
    have "P w1" by (rule outside_keep [OF doAttempt_outside [OF x] assms(2)])
    then have w2: "sent_to u w2 = sent_to u w1" by (rule source_apart [OF y _ assms(3)])
    show ?thesis
    proof (cases "\<exists>t. y = Inr t \<and> t \<noteq> []")
      case False
      with assms(1,4) x y True s1 w2 show ?thesis
        by (auto simp: replay_def sends_def split: sum.splits if_splits)
    next
      case t: True
      then obtain t where t: "y = Inr t" "t \<noteq> []" by blast
      with assms(1) x y True have d: "doAttempt c hc req t 2 w2 = (r, w')" by (auto simp: replay_def)
      from s1(2) assms(4) obtain ts where ts: "sent_to u w1 =
          sent_to u w @ filter (\<lambda>rq. rq_url rq = u) (map (\<lambda>t. sent_as hc (wire_request req (wire_method req) t)) ts)" "length ts \<le> 1"
          "ar_authenticated req \<longrightarrow> [] \<notin> set ts"
        by (auto simp: sends_def)
      from doAttempt_sends [OF d, of 1 u] t obtain us where us: "sent_to u w' =
          sent_to u w2 @ filter (\<lambda>rq. rq_url rq = u) (map (\<lambda>t. sent_as hc (wire_request req (wire_method req) t)) us)" "length us \<le> 1"
          "ar_authenticated req \<longrightarrow> [] \<notin> set us"
        by (auto simp: sends_def)
      from ts us w2 show ?thesis unfolding sends_def by (intro exI [of _ "ts @ us"]) auto
    qed
  qed
qed

lemma do_loop_sends:
  assumes "do_loop c hc (Some g) ctx req (maximum_attempts req) token 1 w = (r, w')" "P w" "u \<notin> used"
    and "ar_authenticated req \<longrightarrow> token \<noteq> []"
  shows "sends u hc req (maximum_attempts req) w w'"
proof (cases "maximum_attempts req = 2")
  case True
  then have "ar_authenticated req" by (simp add: maximum_attempts_def split: if_splits)
  with True assms replay_sends [of c hc ctx req token w r w' u] show ?thesis
    by (simp add: do_loop_two del: One_nat_def)
next
  case False
  then have "maximum_attempts req = 1" by (simp add: maximum_attempts_def split: if_splits)
  with assms doAttempt_sends show ?thesis by (fastforce simp: do_loop_last)
qed

lemma core_do_sends:
  assumes "core_do (Some c) ctx req w = (r, w')" "c_httpClient c = Some hc"
    and "c_getAccessToken c = Some g" "P w" "u \<notin> used"
  shows "sends u hc req (maximum_attempts req) w w'"
proof (cases "ctx = None \<or> c_maxResponseBodyBytes c \<le> 0")
  case True
  with assms(1,2) show ?thesis by (auto simp: core_do_def intro!: sends_refl split: if_splits)
next
  case ok: False
  show ?thesis
  proof (cases "ar_authenticated req")
    case False
    with assms ok have "do_loop c hc (Some g) ctx req (maximum_attempts req) [] 1 w = (r, w')"
      by (auto simp: core_do_def)
    with False assms(4,5) show ?thesis by (intro do_loop_sends) auto
  next
    case True
    obtain x w1 where x: "g ctx first_request w = (x, w1)" by fastforce
    have w1: "sent_to u w1 = sent_to u w" "P w1" using source_apart [OF x assms(4,5)] source_keep [OF x assms(4)] by simp_all
    show ?thesis
    proof (cases "\<exists>t. x = Inr t \<and> t \<noteq> []")
      case False
      with True assms ok x w1 show ?thesis
        by (auto simp: core_do_def intro!: sends_refl split: sum.splits if_splits)
    next
      case t: True
      then obtain t where t: "x = Inr t" "t \<noteq> []" by blast
      with True assms ok x have "do_loop c hc (Some g) ctx req (maximum_attempts req) t 1 w1 = (r, w')"
        by (auto simp: core_do_def)
      with t w1 assms(5) have "sends u hc req (maximum_attempts req) w1 w'" by (intro do_loop_sends) auto
      with w1 show ?thesis by (simp add: sends_def)
    qed
  qed
qed

lemma replay_bearers:
  assumes "replay c hc g ctx req t w1 = (r, w')" "P w1" "ar_url req \<notin> used" "t \<noteq> []"
    and "g ctx first_request w = (Inr t, w1)" "maximum_attempts req = 2"
  shows "\<exists>ts. sent_to (ar_url req) w' =
      sent_to (ar_url req) w1 @ map (\<lambda>t. sent_as hc (wire_request req (wire_method req) t)) ts \<and>
    bearers_of c hc g ctx req w ts"
proof -
  let ?u = "ar_url req" and ?rq = "\<lambda>t. sent_as hc (wire_request req (wire_method req) t)"
  obtain x w2 where x: "doAttempt c hc req t 1 w1 = (x, w2)" by fastforce
  note s1 = doAttempt_sent_to [OF x]
  have quit: ?thesis if "sent_to ?u w' = sent_to ?u w2"
    using s1
  proof
    assume "sent_to ?u w2 = sent_to ?u w1 \<and> (\<exists>e. x = Inl e)"
    with that show ?thesis by (intro exI [of _ "[]"]) (simp add: bearers_of_def)
  next
    assume "sent_to ?u w2 = sent_to ?u w1 @ [?rq t]"
    with that assms(4,5) show ?thesis by (intro exI [of _ "[t]"]) (simp add: bearers_of_def)
  qed
  show ?thesis
  proof (cases "\<exists>b. x = Inr (401, b)")
    case False
    with assms(1) x have "w' = w2" by (auto simp: replay_def split: sum.splits if_splits)
    then show ?thesis by (intro quit) simp
  next
    case True
    then obtain b where b: "x = Inr (401, b)" by blast
    obtain y w3 where y: "g ctx \<lparr>tr_ForceRefresh = True, tr_RejectedToken = t\<rparr> w2 = (y, w3)" by fastforce
    have "P w2" by (rule attempt_keep [OF x assms(2)])
    then have w3: "sent_to ?u w3 = sent_to ?u w2" by (rule source_apart [OF y _ assms(3)])
    show ?thesis
    proof (cases "\<exists>t2. y = Inr t2 \<and> t2 \<noteq> []")
      case False
      with assms(1) x b y have "w' = w3" by (auto simp: replay_def split: sum.splits if_splits)
      with w3 show ?thesis by (intro quit) simp
    next
      case True
      then obtain t2 where t2: "y = Inr t2" "t2 \<noteq> []" by blast
      with assms(1) x b y have d: "doAttempt c hc req t2 2 w3 = (r, w')" by (simp add: replay_def)
      from s1 b have "sent_to ?u w2 = sent_to ?u w1 @ [?rq t]" by simp
      moreover have "bearers_of c hc g ctx req w [t, t2]" "bearers_of c hc g ctx req w [t]"
        using assms(4-6) t2 x b y unfolding bearers_of_def by auto
      ultimately show ?thesis
        using doAttempt_sent_to [OF d] w3 by (elim disjE) (auto intro: exI [of _ "[t]"] exI [of _ "[t, t2]"])
    qed
  qed
qed

lemma core_do_bearers:
  assumes "core_do (Some c) ctx req w = (r, w')" "c_httpClient c = Some hc" "c_getAccessToken c = Some g"
    and "ar_authenticated req" "P w" "ar_url req \<notin> used"
  shows "\<exists>ts. sent_to (ar_url req) w' =
      sent_to (ar_url req) w @ map (\<lambda>t. sent_as hc (wire_request req (wire_method req) t)) ts \<and>
    bearers_of c hc g ctx req w ts"
proof -
  let ?u = "ar_url req"
  have quit: ?thesis if "sent_to ?u w' = sent_to ?u w"
    using that by (intro exI [of _ "[]"]) (simp add: bearers_of_def)
  obtain x w1 where x: "g ctx first_request w = (x, w1)" by fastforce
  have w1: "sent_to ?u w1 = sent_to ?u w" "P w1" using source_apart [OF x assms(5,6)] source_keep [OF x assms(5)] by simp_all
  show ?thesis
  proof (cases "ctx \<noteq> None \<and> 0 < c_maxResponseBodyBytes c \<and> (\<exists>t. x = Inr t \<and> t \<noteq> [])")
    case False
    with assms(1-4) x have "w' = w \<or> w' = w1"
      by (auto simp: core_do_def split: sum.splits if_splits)
    with w1(1) quit show ?thesis by auto
  next
    case True
    then obtain t where t: "x = Inr t" "t \<noteq> []" by blast
    with True assms(1-4) x have loop: "do_loop c hc (Some g) ctx req (maximum_attempts req) t 1 w1 = (r, w')"
      by (auto simp: core_do_def)
    show ?thesis
    proof (cases "maximum_attempts req = 2")
      case two: True
      with loop have "replay c hc g ctx req t w1 = (r, w')" by (simp add: do_loop_two del: One_nat_def)
      from replay_bearers [OF this w1(2) assms(6) t(2) x [unfolded t(1)] two] show ?thesis unfolding w1(1) .
    next
      case False
      then have "maximum_attempts req = 1" by (simp add: maximum_attempts_def split: if_splits)
      with loop have d: "doAttempt c hc req t 1 w1 = (r, w')" by (simp add: do_loop_last)
      have "bearers_of c hc g ctx req w [t]" using x t by (simp add: bearers_of_def)
      with doAttempt_sent_to [OF d] w1(1) quit show ?thesis by (elim disjE) (auto intro: exI [of _ "[t]"])
    qed
  qed
qed

end

lemma sends_url:
  "sends u hc req n w w' \<Longrightarrow> \<exists>ts. sent_to u w' = sent_to u w @
     (if u = ar_url req then map (\<lambda>t. sent_as hc (wire_request req (wire_method req) t)) ts else []) \<and>
   length ts \<le> n \<and> (ar_authenticated req \<longrightarrow> [] \<notin> set ts)"
  by (auto simp: sends_def filter_map comp_def)

text \<open>C1: one call of \<open>core.do\<close> puts at most one request on the wire, and at most two (the second
  only a replay of the same method, URL and body) when it is an authenticated GET that permits it;
  in particular no POST is ever replayed. The requests go to the URL of the call and nowhere else,
  and an authenticated one carries a non-empty bearer token. The token source may use the network
  too, as the refreshing one does: the statement is about each URL it does not use.\<close>

theorem do_never_replays_mutations:
  assumes "core_do (Some c) ctx req w = (r, w')" "c_httpClient c = Some hc"
    and "c_getAccessToken c = Some g" "token_source g P used" "P w" "u \<notin> used"
  shows "\<exists>ts. sent_to u w' = sent_to u w @
      (if u = ar_url req then map (\<lambda>t. sent_as hc (wire_request req (wire_method req) t)) ts else []) \<and>
    length ts \<le> (if ar_authenticated req \<and> ar_retryOnUnauthorized req \<and> ar_method req = ''GET'' then 2 else 1) \<and>
    (ar_authenticated req \<longrightarrow> [] \<notin> set ts)"
  using sends_url [OF token_source.core_do_sends [OF assms(4,1-3,5,6)]] by (simp add: maximum_attempts_def)

text \<open>A configuration with a fixed token, and a POST.\<close>

definition static_token :: token_func where
  "static_token ctx rq w = (Inr ''tok'', w)"

definition sample_core :: core where
  "sample_core = \<lparr>c_clientName = ''App'', c_httpClient = Some \<lparr>hc_default_headers = []\<rparr>,
     c_getAccessToken = Some static_token, c_storage = MemoryStorage,
     c_authBaseURL = ''https://login.link.com'', c_apiBaseURL = ''https://api.link.com'',
     c_spendRequestBaseURL = ''https://api.link.com'', c_verbose = False, c_managesSession = False,
     c_maxResponseBodyBytes = 1048576\<rparr>"

definition sample_post :: api_request where
  "sample_post = \<lparr>ar_method = ''POST'', ar_url = ''https://api.link.com/x'', ar_header = [],
     ar_body = Some ''{}'', ar_authenticated = True, ar_retryOnUnauthorized = True\<rparr>"

interpretation static_source: token_source static_token "\<lambda>_. True" "{}"
  by unfold_locales (simp_all add: static_token_def)

theorem do_never_replays_mutations_witness:
  "\<exists>r w' ts. core_do (Some sample_core) (Some background) sample_post sample_world = (r, w') \<and>
     sent_to ''https://api.link.com/x'' w' =
       map (\<lambda>t. sent_as \<lparr>hc_default_headers = []\<rparr> (wire_request sample_post (wire_method sample_post) t)) ts \<and>
     length ts \<le> 1"
proof -
  obtain r w' where r: "core_do (Some sample_core) (Some background) sample_post sample_world = (r, w')" by fastforce
  have "c_httpClient sample_core = Some \<lparr>hc_default_headers = []\<rparr>" "c_getAccessToken sample_core = Some static_token"
    by (simp_all add: sample_core_def)
  from do_never_replays_mutations [OF r this static_source.token_source_axioms, of "''https://api.link.com/x''"]
  show ?thesis using r by (auto simp: sample_core_def sample_post_def sample_world_def sent_to_def)
qed

text \<open>A request without a bearer is never replayed.\<close>

lemma core_do_sends_plain:
  assumes "core_do (Some c) ctx req w = (r, w')" "c_httpClient c = Some hc" "\<not> ar_authenticated req"
  shows "sends u hc req 1 w w'"
proof -
  have "maximum_attempts req = 1" using assms(3) by (simp add: maximum_attempts_def)
  with assms show ?thesis
    by (auto simp: core_do_def do_loop_last intro: sends_refl doAttempt_sends split: if_splits)
qed

section \<open>What is returned\<close>

lemma read_limited_length: "read_limited l b = Inr s \<Longrightarrow> 0 \<le> l \<Longrightarrow> int (length s) \<le> max l 0"
  by (auto simp: read_limited_def split: if_splits option.splits)

text \<open>for every bound below the largest \<open>int64\<close>, a body is read exactly when it fits the bound
  and neither reading nor closing it failed; a longer one is \<open>ErrResponseTooLarge\<close> even if its
  stream would fail later.\<close>

theorem readBounded_exact:
  assumes "0 < maximum" "maximum < max_int64"
  shows "readBoundedAndClose (Some b) maximum =
    (if int (length (hb_data b)) > maximum then Inl (Sentinel ErrResponseTooLarge)
     else case hb_read_err b of Some e \<Rightarrow> Inl e
        | None \<Rightarrow> (case hb_close_err b of Some e \<Rightarrow> Inl e | None \<Rightarrow> Inr (hb_data b)))"
  using assms by (auto simp: readBoundedAndClose_def read_limited_def Let_def split: option.splits)

theorem readBounded_exact_witness:
  "readBoundedAndClose (Some \<lparr>hb_data = ''abcd'', hb_read_err = Some (Msg ''reset''), hb_close_err = None\<rparr>) 3 =
     Inl (Sentinel ErrResponseTooLarge)"
  by (subst readBounded_exact) (simp_all add: max_int64_def)

lemma readBounded_length:
  "readBoundedAndClose body maximum = Inr s \<Longrightarrow> 0 < maximum \<Longrightarrow> int (length s) \<le> maximum"
  by (auto simp: readBoundedAndClose_def Let_def split: option.splits sum.splits if_splits)

text \<open>A reply the engine hands on: bounded, and not a redirect.\<close>

definition good_reply :: "core \<Rightarrow> attempt_result \<Rightarrow> bool" where
  "good_reply c r \<longleftrightarrow> (\<forall>status body. r = Inr (status, body) \<longrightarrow>
     int (length body) \<le> c_maxResponseBodyBytes c \<and> \<not> (300 \<le> status \<and> status < 400))"

lemma good_reply_Inl [simp]: "good_reply c (Inl e)"
  by (simp add: good_reply_def)

lemma attempt_outcome_good:
  "readBoundedAndClose b (c_maxResponseBodyBytes c) = x \<Longrightarrow> 0 < c_maxResponseBodyBytes c \<Longrightarrow>
   good_reply c (attempt_outcome m u rs x)"
  by (cases x) (auto simp: good_reply_def attempt_outcome_def dest!: readBounded_length split: if_splits)

lemma doAttempt_good:
  assumes "doAttempt c hc req t n w = (r, w')" "0 < c_maxResponseBodyBytes c"
  shows "good_reply c r"
proof (cases "new_request (ar_method req) (ar_url req)")
  case (Inl e)
  with assms show ?thesis by (auto simp: doAttempt_def)
next
  case (Inr mu)
  obtain m u where mu: "mu = (m, u)" by fastforce
  let ?w = "write_log (c_verbose c) (request_log m (sanitizeURLForLog u) n (rq_headers (wire_request req m t))) w"
  obtain x w2 where x: "httpClient_Do hc (wire_request req m t) ?w = (x, w2)" by fastforce
  from assms Inr mu x show ?thesis
    by (cases x) (auto simp: doAttempt_def Let_def attempt_outcome_good [OF refl])
qed

lemma do_loop_good:
  "do_loop c hc get ctx req m t n w = (r, w') \<Longrightarrow> 0 < c_maxResponseBodyBytes c \<Longrightarrow> good_reply c r"
proof (induction c hc get ctx req m t n w rule: do_loop.induct)
  case (1 c hc get ctx req m t n w)
  obtain x w1 where x: "doAttempt c hc req t n w = (x, w1)" by fastforce
  note g = doAttempt_good [OF x 1(3)]
  show ?case
  proof (cases x)
    case (Inl e)
    with 1(2) x show ?thesis by (subst (asm) do_loop.simps) auto
  next
    case (Inr sb)
    obtain st b where sb: "sb = (st, b)" by fastforce
    show ?thesis
    proof (cases "st \<noteq> 401 \<or> m \<le> n")
      case True
      with 1(2) x Inr sb g show ?thesis by (subst (asm) do_loop.simps) auto
    next
      case again: False
      show ?thesis
      proof (cases get)
        case None
        with 1(2) x Inr sb again show ?thesis by (subst (asm) do_loop.simps) auto
      next
        case (Some h)
        obtain y w2 where y: "h ctx \<lparr>tr_ForceRefresh = True, tr_RejectedToken = t\<rparr> w1 = (y, w2)" by fastforce
        show ?thesis
        proof (cases "\<exists>u. y = Inr u \<and> u \<noteq> []")
          case False
          with 1(2) x Inr sb again Some y show ?thesis
            by (subst (asm) do_loop.simps) (auto split: sum.splits if_splits)
        next
          case True
          then obtain u where u: "y = Inr u" "u \<noteq> []" by blast
          with 1(2) x Inr sb again Some y have "do_loop c hc get ctx req m u (Suc n) w2 = (r, w')"
            by (subst (asm) do_loop.simps) auto
          from 1(1) [OF x [symmetric] Inr sb [symmetric] again Some y [symmetric] u this 1(3)] show ?thesis .
        qed
      qed
    qed
  qed
qed

lemma core_do_good:
  assumes "core_do (Some c) ctx req w = (r, w')"
  shows "good_reply c r"
proof (cases "ctx = None \<or> c_httpClient c = None \<or> c_maxResponseBodyBytes c \<le> 0")
  case True
  with assms show ?thesis by (auto simp: core_do_def split: option.splits if_splits)
next
  case False
  then obtain hc where hc: "c_httpClient c = Some hc" and m: "0 < c_maxResponseBodyBytes c" by auto
  note good = do_loop_good [OF _ m]
  show ?thesis
  proof (cases "ar_authenticated req \<and> c_getAccessToken c \<noteq> None")
    case True
    then obtain g where g: "ar_authenticated req" "c_getAccessToken c = Some g" by auto
    obtain x w1 where x: "g ctx first_request w = (x, w1)" by fastforce
    from assms False hc g x show ?thesis
      by (auto simp: core_do_def split: sum.splits if_splits intro: good)
  next
    case no: False
    with assms False hc show ?thesis by (auto simp: core_do_def split: if_splits intro: good)
  qed
qed

text \<open>C29: every reply the engine returns has a body within \<open>maxResponseBodyBytes\<close> and is not a
  redirect: oversized bodies and 3xx statuses are errors, on every attempt, whatever the peer and
  the token source do.\<close>

theorem do_returns_bounded:
  assumes "core_do (Some c) ctx req w = (Inr (status, body), w')"
  shows "int (length body) \<le> c_maxResponseBodyBytes c \<and> (status < 300 \<or> 400 \<le> status)"
  using core_do_good [OF assms] by (auto simp: good_reply_def)

definition ok_reply :: http_reply where
  "ok_reply = Inr \<lparr>rs_status = 200, rs_headers = [],
     rs_body = Some \<lparr>hb_data = ''{}'', hb_read_err = None, hb_close_err = None\<rparr>\<rparr>"

lemma parse_sample_url: "\<exists>u. url_parse ''https://api.link.com/x'' = Some u"
proof -
  have "url_parse ''https://api.link.com/x'' \<noteq> None" by code_simp
  then show ?thesis by simp
qed

lemma post_method: "list_all method_char ''POST''" by code_simp

theorem do_returns_bounded_witness:
  "\<exists>w'. core_do (Some sample_core) (Some background) sample_post (sample_world\<lparr>w_http := \<lambda>_ _. ok_reply\<rparr>) =
     (Inr (200, ''{}''), w') \<and> int (length ''{}'') \<le> c_maxResponseBodyBytes sample_core"
proof -
  obtain u where u: "url_parse ''https://api.link.com/x'' = Some u" using parse_sample_url by blast
  let ?w = "sample_world\<lparr>w_http := \<lambda>_ _. ok_reply\<rparr>"
  obtain w' where r: "core_do (Some sample_core) (Some background) sample_post ?w = (Inr (200, ''{}''), w')"
    using u post_method
    by (auto simp: core_do_def sample_core_def sample_post_def background_def static_token_def maximum_attempts_def
        do_loop_last doAttempt_def new_request_def httpClient_Do_def peer_def ok_reply_def write_log_def
        readBoundedAndClose_def read_limited_def max_int64_def attempt_outcome_def Let_def)
  with do_returns_bounded [OF r] show ?thesis by blast
qed

text \<open>whatever body an error response has, the message of the \<open>APIError\<close> made of it has between
  1 and 512 bytes and no control character, so it cannot flood or break a log line; status and raw
  body are kept, and the details are the body exactly when it is JSON.\<close>

theorem api_error_message_safe:
  "(let e = newAPIError status body in
      0 < length (ae_message e) \<and> length (ae_message e) \<le> 512 \<and> no_ctl (ae_message e) \<and>
      ae_status e = status \<and> ae_raw_body e = body \<and>
      ae_details e = (if json_valid body then Some body else None))"
proof -
  have f: "remote_failed \<noteq> []" "length remote_failed \<le> maxDiagnosticBytes" "no_ctl remote_failed"
    by (simp_all add: remote_failed_def maxDiagnosticBytes_def byte_def)
  have "m \<noteq> [] \<and> length m \<le> 512 \<and> no_ctl m" if "m = sanitizeDiagnosticText x remote_failed" for m x
    using sanitize_nonempty [OF f(1), of x] sanitize_length [OF f(2), of x] sanitize_no_ctl [OF f(3), of x] that
    by (simp add: maxDiagnosticBytes_def)
  then have "extractAPIErrorMessage body \<noteq> [] \<and> length (extractAPIErrorMessage body) \<le> 512 \<and>
      no_ctl (extractAPIErrorMessage body)"
    by (auto simp: extractAPIErrorMessage_def byte_def split: option.split json.split)
  then show ?thesis by (simp add: newAPIError_def validJSONCopy_def)
qed

section \<open>Logging\<close>

text \<open>Worlds that differ only in the verbose log.\<close>

definition same_but_log :: "world \<Rightarrow> world \<Rightarrow> bool" where
  "same_but_log w1 w2 \<longleftrightarrow> w1\<lparr>w_log := []\<rparr> = w2\<lparr>w_log := []\<rparr>"

definition log_blind :: "(world \<Rightarrow> 'a \<times> world) \<Rightarrow> (world \<Rightarrow> 'a \<times> world) \<Rightarrow> bool" where
  "log_blind f g \<longleftrightarrow> (\<forall>w1 w2. same_but_log w1 w2 \<longrightarrow>
     fst (f w1) = fst (g w2) \<and> same_but_log (snd (f w1)) (snd (g w2)))"

lemma same_but_log_refl [simp]: "same_but_log w w"
  by (simp add: same_but_log_def)

lemma same_but_log_write: "same_but_log w1 w2 \<Longrightarrow> same_but_log (write_log v1 e1 w1) (write_log v2 e2 w2)"
  by (cases w1; cases w2) (auto simp: same_but_log_def write_log_def)

lemma log_blindD:
  "log_blind f g \<Longrightarrow> same_but_log w1 w2 \<Longrightarrow> f w1 = (x, v1) \<Longrightarrow> \<exists>v2. g w2 = (x, v2) \<and> same_but_log v1 v2"
  unfolding log_blind_def by (metis fst_conv snd_conv surj_pair)

lemma log_blindI:
  "(\<And>w1 w2 x v1. same_but_log w1 w2 \<Longrightarrow> f w1 = (x, v1) \<Longrightarrow> \<exists>v2. g w2 = (x, v2) \<and> same_but_log v1 v2) \<Longrightarrow>
   log_blind f g"
  unfolding log_blind_def by (metis fst_conv snd_conv surj_pair)

lemma httpClient_Do_blind: "log_blind (httpClient_Do hc rq) (httpClient_Do hc rq)"
proof (rule log_blindI)
  fix w1 w2 :: world and x v1
  assume s: "same_but_log w1 w2" and d: "httpClient_Do hc rq w1 = (x, v1)"
  from s have w: "w_http w1 = w_http w2" "w_tick w1 = w_tick w2" "w_sent w1 = w_sent w2"
    by (cases w1; cases w2; simp add: same_but_log_def)+
  have "same_but_log ((tick w1)\<lparr>w_sent := l\<rparr>) ((tick w2)\<lparr>w_sent := l\<rparr>)" for l
    using s by (cases w1; cases w2) (simp add: same_but_log_def tick_def)
  with d w show "\<exists>v2. httpClient_Do hc rq w2 = (x, v2) \<and> same_but_log v1 v2"
    by (auto simp: httpClient_Do_def RoundTrip_def peer_def)
qed

lemma doAttempt_blind:
  "log_blind (doAttempt (c\<lparr>c_verbose := a\<rparr>) hc req t n) (doAttempt (c\<lparr>c_verbose := b\<rparr>) hc req t n)"
proof (rule log_blindI)
  fix w1 w2 :: world and r v1
  assume s: "same_but_log w1 w2" and d: "doAttempt (c\<lparr>c_verbose := a\<rparr>) hc req t n w1 = (r, v1)"
  show "\<exists>v2. doAttempt (c\<lparr>c_verbose := b\<rparr>) hc req t n w2 = (r, v2) \<and> same_but_log v1 v2"
  proof (cases "new_request (ar_method req) (ar_url req)")
    case (Inl e)
    with d s show ?thesis by (auto simp: doAttempt_def)
  next
    case (Inr mu)
    obtain m u where mu: "mu = (m, u)" by fastforce
    let ?l = "\<lambda>b w. write_log b (request_log m (sanitizeURLForLog u) n (rq_headers (wire_request req m t))) w"
    obtain x y where x: "httpClient_Do hc (wire_request req m t) (?l a w1) = (x, y)" by fastforce
    from log_blindD [OF httpClient_Do_blind same_but_log_write [OF s] x] obtain z where
      z: "httpClient_Do hc (wire_request req m t) (?l b w2) = (x, z)" "same_but_log y z" by blast
    from d Inr mu x z show ?thesis
      by (cases x) (auto simp: doAttempt_def Let_def intro: same_but_log_write)
  qed
qed

lemma do_loop_final:
  "doAttempt c hc req t n w = (x, w1) \<Longrightarrow> \<not> (\<exists>bo. x = Inr (401, bo) \<and> n < m) \<Longrightarrow>
   do_loop c hc (Some g) ctx req m t n w = (x, w1)"
  by (subst do_loop.simps) (auto split: sum.split)

lemma do_loop_again:
  "doAttempt c hc req t n w = (Inr (401, bo), w1) \<Longrightarrow> n < m \<Longrightarrow>
   g ctx \<lparr>tr_ForceRefresh = True, tr_RejectedToken = t\<rparr> w1 = (y, w2) \<Longrightarrow>
   do_loop c hc (Some g) ctx req m t n w =
     (case y of Inl e \<Rightarrow> (Inl e, w2)
      | Inr u \<Rightarrow> if u = [] then (Inl (Sentinel ErrNotAuthenticated), w2)
                 else do_loop c hc (Some g) ctx req m u (Suc n) w2)"
  by (subst do_loop.simps) (auto split: sum.split)

lemma do_loop_blind:
  assumes g: "\<And>rq. log_blind (g ctx rq) (g ctx rq)"
  shows "same_but_log w w2 \<Longrightarrow>
    do_loop (c\<lparr>c_verbose := a\<rparr>) hc (Some g) ctx req m t n w = (r, v) \<Longrightarrow>
    \<exists>v2. do_loop (c\<lparr>c_verbose := b\<rparr>) hc (Some g) ctx req m t n w2 = (r, v2) \<and> same_but_log v v2"
proof (induction "m - n" arbitrary: n t w w2 rule: less_induct)
  case less
  obtain x w1 where x: "doAttempt (c\<lparr>c_verbose := a\<rparr>) hc req t n w = (x, w1)" by fastforce
  from log_blindD [OF doAttempt_blind less.prems(1) x] obtain w1' where
    x': "doAttempt (c\<lparr>c_verbose := b\<rparr>) hc req t n w2 = (x, w1')" and s1: "same_but_log w1 w1'" by blast
  show ?case
  proof (cases "\<exists>bo. x = Inr (401, bo) \<and> n < m")
    case False
    with less.prems(2) do_loop_final [OF x False] do_loop_final [OF x' False] s1 show ?thesis by simp
  next
    case True
    then obtain bo where bo: "x = Inr (401, bo)" and n: "n < m" by blast
    obtain y z where y: "g ctx \<lparr>tr_ForceRefresh = True, tr_RejectedToken = t\<rparr> w1 = (y, z)" by fastforce
    from log_blindD [OF g s1 y] obtain z' where
      y': "g ctx \<lparr>tr_ForceRefresh = True, tr_RejectedToken = t\<rparr> w1' = (y, z')" and s2: "same_but_log z z'" by blast
    note A = do_loop_again [where g = g and ctx = ctx, OF x [unfolded bo] n y] and B = do_loop_again [where g = g and ctx = ctx, OF x' [unfolded bo] n y']
    show ?thesis
    proof (cases y)
      case (Inl e)
      with less.prems(2) A B s2 show ?thesis by simp
    next
      case (Inr u)
      show ?thesis
      proof (cases "u = []")
        case True
        with Inr less.prems(2) A B s2 show ?thesis by simp
      next
        case False
        with Inr less.prems(2) A have "do_loop (c\<lparr>c_verbose := a\<rparr>) hc (Some g) ctx req m u (Suc n) z = (r, v)"
          by simp
        from less.hyps [OF _ s2 this] n Inr False B show ?thesis by simp
      qed
    qed
  qed
qed

text \<open>C30: verbose logging is inert: for a token source whose behaviour does not depend on the log,
  turning it on or off changes neither the result of a call nor anything it does (requests sent,
  storage, files), only the log itself.\<close>

theorem do_logging_inert:
  assumes "\<And>rq. log_blind (g ctx rq) (g ctx rq)" "c_getAccessToken c = Some g"
    and "core_do (Some (c\<lparr>c_verbose := True\<rparr>)) ctx req w = (r, w1)"
  shows "\<exists>w2. core_do (Some (c\<lparr>c_verbose := False\<rparr>)) ctx req w = (r, w2) \<and> same_but_log w1 w2"
proof (cases "ctx = None \<or> c_httpClient c = None \<or> c_maxResponseBodyBytes c \<le> 0")
  case True
  with assms(3) show ?thesis by (cases ctx; cases "c_httpClient c") (simp_all add: core_do_def)
next
  case False
  then obtain hc where hc: "c_httpClient c = Some hc" and ok: "ctx \<noteq> None" "\<not> c_maxResponseBodyBytes c \<le> 0" by auto
  from ok obtain cx where cx: "ctx = Some cx" by auto
  obtain x w' where x: "g ctx first_request w = (x, w')" by fastforce
  note loop = do_loop_blind [where g = g and ctx = ctx, OF assms(1) same_but_log_refl, unfolded cx]
  show ?thesis
  proof (cases "ar_authenticated req \<and> (\<forall>t. x = Inr t \<longrightarrow> t = [])")
    case True
    with assms(2,3) hc ok x show ?thesis by (cases x) (auto simp: core_do_def)
  next
    case auth: False
    show ?thesis
    proof (cases "ar_authenticated req")
      case True
      with auth obtain t where "x = Inr t" "t \<noteq> []" by blast
      with True assms(2,3) hc ok x cx show ?thesis by (simp add: core_do_def loop)
    next
      case False
      with assms(2,3) hc ok cx show ?thesis by (simp add: core_do_def loop)
    qed
  qed
qed

theorem do_logging_inert_witness:
  "\<exists>r w1 w2. core_do (Some (sample_core\<lparr>c_verbose := True\<rparr>)) (Some background) sample_post sample_world = (r, w1) \<and>
     core_do (Some (sample_core\<lparr>c_verbose := False\<rparr>)) (Some background) sample_post sample_world = (r, w2) \<and>
     same_but_log w1 w2"
proof -
  obtain r w1 where r: "core_do (Some (sample_core\<lparr>c_verbose := True\<rparr>)) (Some background) sample_post sample_world = (r, w1)"
    by fastforce
  have "log_blind (static_token (Some background) rq) (static_token (Some background) rq)" for rq
    by (simp add: log_blind_def static_token_def)
  from do_logging_inert [where g = static_token, OF this _ r] r show ?thesis by (auto simp: sample_core_def)
qed

end
