(* ===== verification/AuthFlow.thy ===== *)
theory AuthFlow
  imports Transport
begin

text \<open>
  The OAuth operations of auth_tokens.go and the device flow of auth.go: form posts, token
  decoding, OAuth error codes, refresh, revocation, logout, and initiation, polling and resumption
  of a device authorization. Transaction callbacks are top-level definitions that assign the
  captured variables of \<open>captures\<close>.
\<close>

section \<open>The resource\<close>

text \<open>\<open>AuthResource\<close>; the second field overrides \<open>os.Hostname\<close>.\<close>

record auth_resource =
  au_core :: core
  au_hostname :: "(go_error, string) result option"

definition clientID :: string where "clientID = ''lwlpk_U7Qy7ThG69STZk''"
definition defaultScope :: string where "defaultScope = ''userinfo:read payment_methods.agentic''"

section \<open>Responses\<close>

definition decodeRequiredJSON :: "(json \<Rightarrow> 'a \<times> bool) \<Rightarrow> string \<Rightarrow> (go_error, 'a) result" where
  "decodeRequiredJSON dec body =
     (if body = [] then Inl (Msg ''response is not valid JSON'')
      else (case parse_json body of
              None \<Rightarrow> Inl (Msg ''response is not valid JSON'')
            | Some v \<Rightarrow> (if snd (dec v) then Inr (fst (dec v)) else Inl json_error)))"

text \<open>\<open>now\<close> in nanoseconds, the result in epoch milliseconds.\<close>

definition absoluteExpiry :: "int \<Rightarrow> int \<Rightarrow> int option" where
  "absoluteExpiry now secs =
     (if secs \<le> 0 \<or> secs > go_div max_int64 (seconds 1) then None
      else Some (unix_milli (now + wrap64 (seconds secs))))"

definition decodeAuthTokens :: "string \<Rightarrow> world \<Rightarrow> (go_error, auth_tokens) result \<times> world" where
  "decodeAuthTokens body w =
     (case decodeRequiredJSON dec_auth_tokens body of
        Inl e \<Rightarrow> (Inl e, w)
      | Inr tokens \<Rightarrow>
          (if at_access_token tokens = [] \<or> at_refresh_token tokens = [] \<or> at_token_type tokens = [] \<or>
              at_expires_in tokens \<le> 0
           then (Inl (Msg ''malformed token response''), w)
           else (case time_now w of
                   (now, w1) \<Rightarrow>
                     (case absoluteExpiry now (at_expires_in tokens) of
                        None \<Rightarrow> (Inl (Msg ''malformed token response''), w1)
                      | Some expiresAt \<Rightarrow> (Inr (tokens\<lparr>at_expires_at := expiresAt\<rparr>), w1)))))"

definition safeOAuthCode :: "string \<Rightarrow> string" where
  "safeOAuthCode code =
     (if code \<in> {''access_denied'', ''authorization_pending'', ''expired_token'', ''invalid_client'',
                  ''invalid_grant'', ''invalid_request'', ''invalid_scope'', ''invalid_token'',
                  ''slow_down'', ''unauthorized_client'', ''unsupported_grant_type''}
      then code else ''api_error'')"

definition oauthError :: "string option \<Rightarrow> string \<times> string" where
  "oauthError data =
     (case data of
        None \<Rightarrow> ([], [])
      | Some body \<Rightarrow>
          (case parse_json body of
             Some (JObj ms) \<Rightarrow> (fst (get_string ''error'' ms), fst (get_string ''error_description'' ms))
           | _ \<Rightarrow> ([], [])))"

definition oauthErrorCode :: "string option \<Rightarrow> string" where
  "oauthErrorCode data = fst (oauthError data)"

definition newAuthAPIError :: "string \<Rightarrow> string \<Rightarrow> int \<Rightarrow> string \<Rightarrow> string option \<Rightarrow> api_error" where
  "newAuthAPIError code message status body data =
     \<lparr>ae_code = safeOAuthCode code, ae_message = message, ae_status = status, ae_raw_body = body,
      ae_details = data\<rparr>"

definition authAPIError :: "string \<Rightarrow> int \<Rightarrow> string \<Rightarrow> string option \<Rightarrow> api_error" where
  "authAPIError prefix status body data =
     (let code = safeOAuthCode (fst (oauthError data))
      in newAuthAPIError code (prefix @ '' ('' @ show_int status @ ''): '' @ code) status body data)"

definition device_code_expired :: string where
  "device_code_expired = ''Device code expired. Please restart the login flow.''"

definition expiredDeviceCodeError :: api_error where
  "expiredDeviceCodeError =
     \<lparr>ae_code = ''expired_token'', ae_message = device_code_expired, ae_status = 400,
      ae_raw_body = [], ae_details = None\<rparr>"

section \<open>Requests\<close>

definition form_header :: headers where
  "form_header = [(''Content-Type'', ''application/x-www-form-urlencoded'')]"

definition form_request :: "auth_resource \<Rightarrow> string \<Rightarrow> (string \<times> string) list \<Rightarrow> api_request" where
  "form_request a path vs =
     \<lparr>ar_method = ''POST'', ar_url = c_authBaseURL (au_core a) @ path, ar_header = form_header,
      ar_body = Some (form_encode vs), ar_authenticated = False, ar_retryOnUnauthorized = False\<rparr>"

definition json_data :: "string \<Rightarrow> string option" where
  "json_data body = (if body \<noteq> [] \<and> json_valid body then Some body else None)"

definition postForm ::
  "auth_resource \<Rightarrow> go_context \<Rightarrow> string \<Rightarrow> (string \<times> string) list \<Rightarrow> world \<Rightarrow>
   (go_error, int \<times> string \<times> string option) result \<times> world" where
  "postForm a ctx path vs w =
     (case requireContext ctx w of
        (Some e, w1) \<Rightarrow> (Inl e, w1)
      | (None, w1) \<Rightarrow>
          (case core_do (Some (au_core a)) ctx (form_request a path vs) w1 of
             (Inl e, w2) \<Rightarrow> (Inl e, w2)
           | (Inr (status, body), w2) \<Rightarrow> (Inr (status, body, json_data body), w2)))"

definition is_2xx :: "int \<Rightarrow> bool" where
  "is_2xx status \<longleftrightarrow> 200 \<le> status \<and> status < 300"

definition refresh_form :: "string \<Rightarrow> (string \<times> string) list" where
  "refresh_form refreshToken =
     [(''grant_type'', ''refresh_token''), (''refresh_token'', refreshToken), (''client_id'', clientID)]"

definition RefreshToken ::
  "auth_resource \<Rightarrow> go_context \<Rightarrow> string \<Rightarrow> world \<Rightarrow> (go_error, auth_tokens) result \<times> world" where
  "RefreshToken a ctx refreshToken w =
     (case requireContext ctx w of
        (Some e, w1) \<Rightarrow> (Inl e, w1)
      | (None, w1) \<Rightarrow>
          (if trim_space refreshToken = []
           then (Inl (invalid_argument ''refresh token must not be empty''), w1)
           else (case postForm a ctx ''/device/token'' (refresh_form refreshToken) w1 of
                   (Inl e, w2) \<Rightarrow> (Inl e, w2)
                 | (Inr (status, body, data), w2) \<Rightarrow>
                     (if \<not> is_2xx status
                      then (Inl (APIErr (authAPIError ''Token refresh failed'' status body data)), w2)
                      else (case decodeAuthTokens body w2 of
                              (Inl e, w3) \<Rightarrow> (Inl (Wrapf ''stripelink: decode token refresh response'' [e]), w3)
                            | (Inr tokens, w3) \<Rightarrow> (Inr tokens, w3))))))"

definition RevokeToken :: "auth_resource \<Rightarrow> go_context \<Rightarrow> string \<Rightarrow> world \<Rightarrow> go_error option \<times> world" where
  "RevokeToken a ctx token w =
     (case requireContext ctx w of
        (Some e, w1) \<Rightarrow> (Some e, w1)
      | (None, w1) \<Rightarrow>
          (if trim_space token = [] then (Some (invalid_argument ''token must not be empty''), w1)
           else (case postForm a ctx ''/device/revoke'' [(''client_id'', clientID), (''token'', token)] w1 of
                   (Inl e, w2) \<Rightarrow> (Some e, w2)
                 | (Inr (status, body, data), w2) \<Rightarrow>
                     (if \<not> is_2xx status
                      then (Some (APIErr (authAPIError ''Token revocation failed'' status body data)), w2)
                      else (None, w2)))))"

text \<open>An error that means the token was revoked before.\<close>

definition already_revoked :: "go_error \<Rightarrow> bool" where
  "already_revoked e =
     (case as_api_error e of None \<Rightarrow> False | Some a \<Rightarrow> ae_code a = ''invalid_token'')"

definition clear_revoked :: "auth_resource \<Rightarrow> go_context \<Rightarrow> world \<Rightarrow> go_error option \<times> world" where
  "clear_revoked a ctx w =
     (case detachedAuthContext ctx w of
        (clearCtx, w1) \<Rightarrow>
          (case as_clear (c_storage (au_core a)) clearCtx w1 of
             (Some e, w2) \<Rightarrow> (Some (Wrapf ''stripelink: clear revoked authentication'' [e]), w2)
           | (None, w2) \<Rightarrow> (None, w2)))"

definition Logout :: "auth_resource \<Rightarrow> go_context \<Rightarrow> world \<Rightarrow> go_error option \<times> world" where
  "Logout a ctx w =
     (case requireContext ctx w of
        (Some e, w1) \<Rightarrow> (Some e, w1)
      | (None, w1) \<Rightarrow>
          (if \<not> c_managesSession (au_core a)
           then (Some (invalid_argument ''logout is unavailable for caller-owned tokens''), w1)
           else (case as_load (c_storage (au_core a)) ctx w1 of
                   (Inl e, w2) \<Rightarrow> (Some (Wrapf ''stripelink: load authentication for logout'' [e]), w2)
                 | (Inr state, w2) \<Rightarrow>
                     (case Option.bind state st_auth of
                        None \<Rightarrow> (Some (Sentinel ErrNotAuthenticated), w2)
                      | Some auth \<Rightarrow>
                          (if at_refresh_token auth = [] then (Some (Sentinel ErrNotAuthenticated), w2)
                           else (case RevokeToken a ctx (at_refresh_token auth) w2 of
                                   (None, w3) \<Rightarrow> clear_revoked a ctx w3
                                 | (Some e, w3) \<Rightarrow>
                                     (if already_revoked e then clear_revoked a ctx w3 else (Some e, w3))))))))"

section \<open>Pending authorizations\<close>

definition clear_pending_callback :: "string \<Rightarrow> callback" where
  "clear_pending_callback deviceCode cap st w =
     (case st_pending st of
        None \<Rightarrow> ((None, cap, st), w)
      | Some p \<Rightarrow>
          (if pd_device_code p \<noteq> deviceCode then ((None, cap, st), w)
           else ((None, cap, st\<lparr>st_pending := None, st_generation := nextGeneration (st_generation st)\<rparr>), w)))"

definition clearTerminalPending ::
  "auth_resource \<Rightarrow> go_context \<Rightarrow> string \<Rightarrow> go_error \<Rightarrow> world \<Rightarrow> go_error \<times> world" where
  "clearTerminalPending a ctx deviceCode terminal w =
     (case as_transact (c_storage (au_core a)) ctx (Some (clear_pending_callback deviceCode)) no_captures w of
        ((Some e, cap), w1) \<Rightarrow> (Joined [terminal, e], w1)
      | ((None, cap), w1) \<Rightarrow> (terminal, w1))"

definition resolveHostname :: "auth_resource \<Rightarrow> world \<Rightarrow> (go_error, string) result" where
  "resolveHostname a w = (case au_hostname a of Some h \<Rightarrow> h | None \<Rightarrow> w_hostname w)"

section \<open>Initiation\<close>

definition reserve_callback :: callback where
  "reserve_callback cap st w =
     (let g = nextGeneration (st_generation st)
      in ((None, cap\<lparr>cap_auth := st_auth st, cap_generation := g\<rparr>, st\<lparr>st_generation := g\<rparr>), w))"

definition store_pending_callback :: "pending_device_auth \<Rightarrow> callback" where
  "store_pending_callback pending cap st w =
     (if st_generation st \<noteq> cap_generation cap \<or> \<not> sameAuthTokens (st_auth st) (cap_auth cap)
      then ((Some (Sentinel ErrDeviceAuthSuperseded), cap, st), w)
      else ((None, cap, st\<lparr>st_pending := Some pending\<rparr>), w))"

record device_wire =
  dw_device_code :: string
  dw_user_code :: string
  dw_verification_uri :: string
  dw_verification_uri_complete :: string
  dw_expires_in :: int
  dw_interval :: int

definition dec_device_wire :: "json \<Rightarrow> device_wire \<times> bool" where
  "dec_device_wire v =
     (case v of
        JObj ms \<Rightarrow>
          (let c = get_string ''device_code'' ms; u = get_string ''user_code'' ms;
               r = get_string ''verification_uri'' ms; k = get_string ''verification_uri_complete'' ms;
               e = get_int64 ''expires_in'' ms; i = get_int64 ''interval'' ms
           in (\<lparr>dw_device_code = fst c, dw_user_code = fst u, dw_verification_uri = fst r,
                dw_verification_uri_complete = fst k, dw_expires_in = fst e, dw_interval = fst i\<rparr>,
               snd c \<and> snd u \<and> snd r \<and> snd k \<and> snd e \<and> snd i))
      | JNull \<Rightarrow> (\<lparr>dw_device_code = [], dw_user_code = [], dw_verification_uri = [],
                   dw_verification_uri_complete = [], dw_expires_in = 0, dw_interval = 0\<rparr>, True)
      | _ \<Rightarrow> (\<lparr>dw_device_code = [], dw_user_code = [], dw_verification_uri = [],
              dw_verification_uri_complete = [], dw_expires_in = 0, dw_interval = 0\<rparr>, False))"

definition wire_complete :: "device_wire \<Rightarrow> bool" where
  "wire_complete x \<longleftrightarrow>
     \<not> (dw_device_code x = [] \<or> dw_user_code x = [] \<or> dw_verification_uri x = [] \<or>
        dw_verification_uri_complete x = [] \<or> dw_expires_in x \<le> 0 \<or> dw_interval x \<le> 0)"

definition device_auth_of :: "device_wire \<Rightarrow> int \<Rightarrow> device_auth" where
  "device_auth_of x expiresAt =
     \<lparr>da_device_code = dw_device_code x, da_user_code = dw_user_code x,
      da_verification_url = dw_verification_uri x,
      da_verification_url_complete = dw_verification_uri_complete x,
      da_expires_in = dw_expires_in x, da_expires_at = expiresAt, da_interval = dw_interval x\<rparr>"

definition pending_of :: "device_auth \<Rightarrow> pending_device_auth" where
  "pending_of da =
     \<lparr>pd_device_code = da_device_code da, pd_interval = da_interval da, pd_expires_at = da_expires_at da,
      pd_verification_url = da_verification_url_complete da, pd_phrase = da_user_code da\<rparr>"

definition malformed_device_auth :: go_error where
  "malformed_device_auth = Msg ''stripelink: malformed device authorization response''"

definition decodeDeviceAuth :: "string \<Rightarrow> world \<Rightarrow> (go_error, device_auth) result \<times> world" where
  "decodeDeviceAuth body w =
     (case decodeRequiredJSON dec_device_wire body of
        Inl e \<Rightarrow> (Inl (Wrapf ''stripelink: decode device authorization response'' [e]), w)
      | Inr x \<Rightarrow>
          (if \<not> wire_complete x then (Inl malformed_device_auth, w)
           else (case time_now w of
                   (now, w1) \<Rightarrow>
                     (case absoluteExpiry now (dw_expires_in x) of
                        None \<Rightarrow> (Inl malformed_device_auth, w1)
                      | Some expiresAt \<Rightarrow> (Inr (device_auth_of x expiresAt), w1)))))"

definition store_pending ::
  "auth_resource \<Rightarrow> go_context \<Rightarrow> captures \<Rightarrow> device_auth \<Rightarrow> world \<Rightarrow> (go_error, device_auth) result \<times> world" where
  "store_pending a ctx cap da w =
     (case as_transact (c_storage (au_core a)) ctx (Some (store_pending_callback (pending_of da))) cap w of
        ((Some e, cap'), w1) \<Rightarrow> (Inl (Wrapf ''stripelink: persist pending device authorization'' [e]), w1)
      | ((None, cap'), w1) \<Rightarrow> (Inr da, w1))"

definition device_form :: "string \<Rightarrow> string \<Rightarrow> (string \<times> string) list" where
  "device_form label effectiveName =
     [(''client_id'', clientID), (''scope'', defaultScope), (''connection_label'', label),
      (''client_hint'', effectiveName)]"

definition connection_label :: "auth_resource \<Rightarrow> string \<Rightarrow> world \<Rightarrow> string" where
  "connection_label a effectiveName w =
     (case resolveHostname a w of
        Inr h \<Rightarrow> (if h \<noteq> [] then effectiveName @ '' on '' @ h else effectiveName)
      | Inl _ \<Rightarrow> effectiveName)"

definition initiate ::
  "auth_resource \<Rightarrow> go_context \<Rightarrow> string \<Rightarrow> world \<Rightarrow> (go_error, device_auth) result \<times> world" where
  "initiate a ctx effectiveName w =
     (case as_transact (c_storage (au_core a)) ctx (Some reserve_callback) no_captures w of
        ((Some e, cap), w1) \<Rightarrow> (Inl (Wrapf ''stripelink: reserve device authorization'' [e]), w1)
      | ((None, cap), w1) \<Rightarrow>
          (case postForm a ctx ''/device/code'' (device_form (connection_label a effectiveName w1) effectiveName) w1 of
             (Inl e, w2) \<Rightarrow> (Inl e, w2)
           | (Inr (status, body, data), w2) \<Rightarrow>
               (if \<not> is_2xx status
                then (Inl (APIErr (authAPIError ''Device auth initiation failed'' status body data)), w2)
                else (case decodeDeviceAuth body w2 of
                        (Inl e, w3) \<Rightarrow> (Inl e, w3)
                      | (Inr da, w3) \<Rightarrow> store_pending a ctx cap da w3))))"

definition InitiateDeviceAuth ::
  "auth_resource \<Rightarrow> go_context \<Rightarrow> string list \<Rightarrow> world \<Rightarrow> (go_error, device_auth) result \<times> world" where
  "InitiateDeviceAuth a ctx names w =
     (case requireContext ctx w of
        (Some e, w1) \<Rightarrow> (Inl e, w1)
      | (None, w1) \<Rightarrow>
          (case names of
             [] \<Rightarrow> initiate a ctx (c_clientName (au_core a)) w1
           | [n] \<Rightarrow>
               (if trim_space n = [] then (Inl (invalid_argument ''client name must not be empty''), w1)
                else initiate a ctx n w1)
           | _ \<Rightarrow> (Inl (invalid_argument ''at most one client name may be supplied''), w1)))"

section \<open>Polling\<close>

definition commit_tokens_callback :: "string \<Rightarrow> auth_tokens \<Rightarrow> callback" where
  "commit_tokens_callback deviceCode tokens cap st w =
     (case st_pending st of
        None \<Rightarrow> ((Some (Sentinel ErrDeviceAuthSuperseded), cap, st), w)
      | Some p \<Rightarrow>
          (if pd_device_code p \<noteq> deviceCode then ((Some (Sentinel ErrDeviceAuthSuperseded), cap, st), w)
           else ((None, cap, st\<lparr>st_auth := Some tokens, st_pending := None,
                               st_generation := nextGeneration (st_generation st)\<rparr>), w)))"

definition commit_tokens ::
  "auth_resource \<Rightarrow> go_context \<Rightarrow> string \<Rightarrow> auth_tokens \<Rightarrow> world \<Rightarrow> (go_error, auth_tokens) result \<times> world" where
  "commit_tokens a ctx deviceCode tokens w =
     (case as_transact (c_storage (au_core a)) ctx (Some (commit_tokens_callback deviceCode tokens)) no_captures w of
        ((Some e, cap), w1) \<Rightarrow> (Inl (Wrapf ''stripelink: commit device authorization'' [e]), w1)
      | ((None, cap), w1) \<Rightarrow> (Inr tokens, w1))"

definition terminal ::
  "auth_resource \<Rightarrow> go_context \<Rightarrow> string \<Rightarrow> api_error \<Rightarrow> world \<Rightarrow> (go_error, auth_tokens) result \<times> world" where
  "terminal a ctx deviceCode e w =
     (case clearTerminalPending a ctx deviceCode (APIErr e) w of (err, w1) \<Rightarrow> (Inl err, w1))"

definition poll_refused ::
  "auth_resource \<Rightarrow> go_context \<Rightarrow> string \<Rightarrow> int \<Rightarrow> string \<Rightarrow> string option \<Rightarrow> world \<Rightarrow>
   (go_error, auth_tokens) result \<times> world" where
  "poll_refused a ctx deviceCode status body data w =
     (let code = oauthErrorCode data in
      if status = 400 \<and> code = ''authorization_pending'' then (Inl (Sentinel ErrAuthorizationPending), w)
      else if status = 400 \<and> code = ''slow_down''
      then (Inl (Joined [Sentinel ErrAuthorizationPending, Sentinel ErrSlowDown]), w)
      else if status = 400 \<and> code = ''expired_token''
      then terminal a ctx deviceCode (newAuthAPIError code device_code_expired status body data) w
      else if status = 400 \<and> code = ''access_denied''
      then terminal a ctx deviceCode
             (newAuthAPIError code ''Authorization denied by user.'' status body data) w
      else (Inl (APIErr (authAPIError ''Token poll failed'' status body data)), w))"

definition poll_form :: "string \<Rightarrow> (string \<times> string) list" where
  "poll_form deviceCode =
     [(''grant_type'', ''urn:ietf:params:oauth:grant-type:device_code''), (''device_code'', deviceCode),
      (''client_id'', clientID)]"

definition PollDeviceAuthOnce ::
  "auth_resource \<Rightarrow> go_context \<Rightarrow> string \<Rightarrow> world \<Rightarrow> (go_error, auth_tokens) result \<times> world" where
  "PollDeviceAuthOnce a ctx deviceCode w =
     (case requireContext ctx w of
        (Some e, w1) \<Rightarrow> (Inl e, w1)
      | (None, w1) \<Rightarrow>
          (if trim_space deviceCode = [] then (Inl (invalid_argument ''device code must not be empty''), w1)
           else (case postForm a ctx ''/device/token'' (poll_form deviceCode) w1 of
                   (Inl e, w2) \<Rightarrow> (Inl e, w2)
                 | (Inr (status, body, data), w2) \<Rightarrow>
                     (if is_2xx status
                      then (case decodeAuthTokens body w2 of
                              (Inl e, w3) \<Rightarrow> (Inl (Wrapf ''stripelink: decode device token response'' [e]), w3)
                            | (Inr tokens, w3) \<Rightarrow> commit_tokens a ctx deviceCode tokens w3)
                      else poll_refused a ctx deviceCode status body data w2))))"

section \<open>The polling loop\<close>

text \<open>\<open>time.Until\<close> saturates at the bounds of a \<open>Duration\<close>.\<close>

definition saturate :: "int \<Rightarrow> int" where
  "saturate d = max min_int64 (min max_int64 d)"

definition time_until :: "int \<Rightarrow> world \<Rightarrow> int \<times> world" where
  "time_until t w = (case time_now w of (now, w1) \<Rightarrow> (saturate (t - now), w1))"

text \<open>\<open>time.UnixMilli\<close>, in nanoseconds.\<close>

definition from_milli :: "int \<Rightarrow> int" where "from_milli ms = ms * 1000000"

text \<open>A timer of the given duration against the context's cancellation: \<open>True\<close> when the timer's
  case was taken. The cancelled case needs a context that is done when the \<open>select\<close> returns.\<close>

definition select_timer :: "gctx \<Rightarrow> int \<Rightarrow> world \<Rightarrow> bool \<times> world" where
  "select_timer c wait w =
     (case time_now (w\<lparr>w_timers := w_timers w @ [wait]\<rparr>) of
        (t, w1) \<Rightarrow> (\<not> (ctx_done c t \<and> w_choose w (w_tick w)), w1))"

definition expired_result ::
  "auth_resource \<Rightarrow> gctx \<Rightarrow> string \<Rightarrow> world \<Rightarrow> (go_error, auth_tokens) result \<times> world" where
  "expired_result a c deviceCode w = terminal a (Some c) deviceCode expiredDeviceCodeError w"

text \<open>What one iteration decides: the result of the call, or the next interval.\<close>

definition poll_failed ::
  "auth_resource \<Rightarrow> gctx \<Rightarrow> string \<Rightarrow> int \<Rightarrow> go_error \<Rightarrow> int \<Rightarrow> world \<Rightarrow>
   ((go_error, auth_tokens) result + int) \<times> world" where
  "poll_failed a c deviceCode expiresAt err interval w =
     (if errors_Is err ErrSlowDown then (Inr (wrap64 (interval + seconds 5)), w)
      else if errors_Is err ErrAuthorizationPending then (Inr interval, w)
      else (case time_now w of
              (t, w1) \<Rightarrow>
                (if ctx_done c t then (Inl (Inl (cx_cause c)), w1)
                 else (case time_now w1 of
                         (t2, w2) \<Rightarrow>
                           (if t2 \<ge> expiresAt
                            then (case expired_result a c deviceCode w2 of (r, w3) \<Rightarrow> (Inl r, w3))
                            else (Inl (Inl err), w2))))))"

definition poll_step ::
  "auth_resource \<Rightarrow> gctx \<Rightarrow> string \<Rightarrow> int \<Rightarrow> int \<Rightarrow> world \<Rightarrow> ((go_error, auth_tokens) result + int) \<times> world" where
  "poll_step a c deviceCode expiresAt interval w =
     (case time_until expiresAt w of
        (remaining, w1) \<Rightarrow>
          (if remaining \<le> 0
           then (case expired_result a c deviceCode w1 of (r, w2) \<Rightarrow> (Inl r, w2))
           else (case select_timer c (min interval remaining) w1 of
                   (False, w2) \<Rightarrow> (Inl (Inl (cx_cause c)), w2)
                 | (True, w2) \<Rightarrow>
                     (case time_now w2 of
                        (t, w3) \<Rightarrow>
                          (if t \<ge> expiresAt
                           then (case expired_result a c deviceCode w3 of (r, w4) \<Rightarrow> (Inl r, w4))
                           else (case PollDeviceAuthOnce a (Some (with_deadline c expiresAt)) deviceCode w3 of
                                   (Inr tokens, w4) \<Rightarrow> (Inl (Inr tokens), w4)
                                 | (Inl err, w4) \<Rightarrow> poll_failed a c deviceCode expiresAt err interval w4))))))"

text \<open>The loop may run for ever; \<open>None\<close> is the call that never returns.\<close>

partial_function (option) poll_loop ::
  "auth_resource \<Rightarrow> gctx \<Rightarrow> string \<Rightarrow> int \<Rightarrow> int \<Rightarrow> world \<Rightarrow> ((go_error, auth_tokens) result \<times> world) option" where
  "poll_loop a c deviceCode expiresAt interval w =
     (case poll_step a c deviceCode expiresAt interval w of
        (Inl r, w1) \<Rightarrow> Some (r, w1)
      | (Inr interval', w1) \<Rightarrow> poll_loop a c deviceCode expiresAt interval' w1)"

declare poll_loop.simps [code]

definition PollDeviceAuth ::
  "auth_resource \<Rightarrow> go_context \<Rightarrow> device_auth option \<Rightarrow> world \<Rightarrow> ((go_error, auth_tokens) result \<times> world) option" where
  "PollDeviceAuth a ctx da w =
     (case requireContext ctx w of
        (Some e, w1) \<Rightarrow> Some (Inl e, w1)
      | (None, w1) \<Rightarrow>
          (case (ctx, da) of
             (Some c, Some d) \<Rightarrow>
               (if trim_space (da_device_code d) = [] \<or> da_expires_at d \<le> 0 \<or> da_interval d \<le> 0
                then Some (Inl (invalid_argument ''invalid device authorization''), w1)
                else poll_loop a c (da_device_code d) (from_milli (da_expires_at d))
                       (wrap64 (seconds (da_interval d))) w1)
           | _ \<Rightarrow> Some (Inl (invalid_argument ''invalid device authorization''), w1)))"

definition resume_callback :: callback where
  "resume_callback cap st w =
     (case st_pending st of
        None \<Rightarrow> ((None, cap\<lparr>cap_pending := None\<rparr>, st), w)
      | Some p \<Rightarrow>
          (case time_now w of
             (t, w1) \<Rightarrow>
               (if unix_milli t \<ge> pd_expires_at p
                then ((None, cap\<lparr>cap_pending := None\<rparr>,
                       st\<lparr>st_pending := None, st_generation := nextGeneration (st_generation st)\<rparr>), w1)
                else ((None, cap\<lparr>cap_pending := Some p\<rparr>, st), w1))))"

definition resumed :: "pending_device_auth \<Rightarrow> int \<Rightarrow> device_auth" where
  "resumed p remaining =
     \<lparr>da_device_code = pd_device_code p, da_user_code = pd_phrase p, da_verification_url = [],
      da_verification_url_complete = pd_verification_url p,
      da_expires_in = go_div (wrap64 (remaining + seconds 1 - 1)) (seconds 1),
      da_expires_at = pd_expires_at p, da_interval = pd_interval p\<rparr>"

definition ResumeDeviceAuth ::
  "auth_resource \<Rightarrow> go_context \<Rightarrow> world \<Rightarrow> ((go_error, auth_tokens) result \<times> world) option" where
  "ResumeDeviceAuth a ctx w =
     (case requireContext ctx w of
        (Some e, w1) \<Rightarrow> Some (Inl e, w1)
      | (None, w1) \<Rightarrow>
          (case as_transact (c_storage (au_core a)) ctx (Some resume_callback) no_captures w1 of
             ((Some e, cap), w2) \<Rightarrow> Some (Inl (Wrapf ''stripelink: load pending device authorization'' [e]), w2)
           | ((None, cap), w2) \<Rightarrow>
               (case cap_pending cap of
                  None \<Rightarrow> Some (Inl (Sentinel ErrNoPendingDeviceAuth), w2)
                | Some p \<Rightarrow>
                    (case time_until (from_milli (pd_expires_at p)) w2 of
                       (remaining, w3) \<Rightarrow> PollDeviceAuth a ctx (Some (resumed p (max remaining 0))) w3))))"

end
