(* ===== verification/AuthFlowSpec.thy ===== *)
theory AuthFlowSpec
  imports AuthFlow TransportTheorems
begin

text \<open>
  What the OAuth operations promise of the stored session, stated as abstract transitions and
  proved once against the storage contract: polling is \<open>poll_spec\<close>, initiation \<open>initiate_spec\<close>,
  logout \<open>logout_spec\<close>.
\<close>

section \<open>Requests leave the storage alone\<close>

lemma core_do_outside:
  assumes "core_do (Some c) ctx req w = (r, w')" "\<not> ar_authenticated req"
  shows "outside_step w w'"
proof -
  have "maximum_attempts req = 1" using assms(2) by (simp add: maximum_attempts_def)
  with assms show ?thesis
    by (auto simp: core_do_def do_loop_last intro: doAttempt_outside split: option.splits if_splits)
qed

lemma postForm_outside:
  assumes "postForm a ctx path vs w = (r, w')"
  shows "outside_step w w'"
proof -
  obtain e w1 where e: "requireContext ctx w = (e, w1)" by fastforce
  then have s1: "outside_step w w1" by (auto simp: requireContext_eq intro: ticks_outside contextFailure_ticks)
  obtain x w2 where x: "core_do (Some (au_core a)) ctx (form_request a path vs) w1 = (x, w2)" by fastforce
  have "outside_step w1 w2" by (rule core_do_outside [OF x]) (simp add: form_request_def)
  with s1 have "outside_step w w2" by (rule outside_step_trans)
  with assms e x s1 show ?thesis by (auto simp: postForm_def split: option.splits sum.splits)
qed

lemma requireContext_outside: "requireContext ctx w = (r, w') \<Longrightarrow> outside_step w w'"
  by (auto simp: requireContext_eq intro: ticks_outside contextFailure_ticks)

lemma time_now_outside: "time_now w = (t, w') \<Longrightarrow> outside_step w w'"
  by (intro ticks_outside time_now_ticks)

section \<open>Decoded credentials\<close>

lemma get_string_valid: "wf_json (JObj ms) \<Longrightarrow> valid_utf8 (fst (get_string name ms))"
proof -
  assume wf: "wf_json (JObj ms)"
  have "valid_utf8 s" if "v \<in> set (field_values name ms)" "as_string v = Some s" for v s
    using field_values_wf [OF wf that(1)] that(2) by (cases v) (auto simp: valid_utf8_unquote)
  with dec_scalar_in [of as_string "[]" "field_values name ms"] show ?thesis by auto
qed

lemma decodeRequired_tokens:
  "decodeRequiredJSON dec_auth_tokens body = Inr t \<Longrightarrow>
   valid_utf8 (at_access_token t) \<and> valid_utf8 (at_refresh_token t) \<and> valid_utf8 (at_token_type t) \<and>
   in_int64 (at_expires_in t)"
  using parse_wf [of body]
  by (auto simp: decodeRequiredJSON_def dec_auth_tokens_def zero_auth_tokens_def Let_def get_string_valid
      get_int64_in in_int64_0 split: if_splits option.splits json.splits)

lemma absoluteExpiry_value:
  assumes "absoluteExpiry now s = Some e"
  shows "e = unix_milli now + s * 1000" "0 < s" "s \<le> 9223372036"
proof -
  from assms have s: "0 < s" "s \<le> 9223372036"
    by (auto simp: absoluteExpiry_def go_div_def max_int64_def seconds_def split: if_splits)
  then have "in_int64 (seconds s)" by (simp add: in_int64_def min_int64_def max_int64_def seconds_def)
  with assms have "e = (now + s * 1000000000) div 1000000"
    by (auto simp: absoluteExpiry_def wrap64_id unix_milli_def seconds_def split: if_splits)
  also have "now + s * 1000000000 = now + (s * 1000) * 1000000" by simp
  finally show "e = unix_milli now + s * 1000" by (simp add: unix_milli_def)
  show "0 < s" "s \<le> 9223372036" by (rule s)+
qed

lemma decodeAuthTokens_outside: "decodeAuthTokens body w = (r, w') \<Longrightarrow> outside_step w w'"
  by (auto simp: decodeAuthTokens_def intro: time_now_outside ticks_outside
      split: sum.splits if_splits option.splits prod.splits)

lemma decodeAuthTokens_ok:
  assumes "decodeAuthTokens body w = (Inr t, w')" "clock_ok w"
  shows "auth_wf t" "auth_text_ok t" "at_expires_at t = unix_milli (w_clock w (w_tick w)) + at_expires_in t * 1000"
proof -
  from assms(1) obtain t0 e where t0: "decodeRequiredJSON dec_auth_tokens body = Inr t0"
    and f: "at_access_token t0 \<noteq> []" "at_refresh_token t0 \<noteq> []" "at_token_type t0 \<noteq> []"
    and e: "absoluteExpiry (w_clock w (w_tick w)) (at_expires_in t0) = Some e"
    and t: "t = t0\<lparr>at_expires_at := e\<rparr>"
    by (auto simp: decodeAuthTokens_def time_now_def split: sum.splits if_splits option.splits)
  note v = absoluteExpiry_value [OF e]
  have r: "0 \<le> unix_milli (w_clock w (w_tick w))" "unix_milli (w_clock w (w_tick w)) \<le> 9223372036854"
    using assms(2) unix_milli_range [of "w_clock w (w_tick w)"] by (auto simp: clock_ok_def)
  from t v show "at_expires_at t = unix_milli (w_clock w (w_tick w)) + at_expires_in t * 1000" by simp
  from v r have "0 < e" "in_int64 e"
    by (auto simp: in_int64_def min_int64_def max_int64_def)
  with t f v decodeRequired_tokens [OF t0] show "auth_wf t" "auth_text_ok t"
    by (auto simp: auth_wf_def auth_fields_ok_def auth_text_ok_def)
qed

section \<open>Polling as a transition\<close>

text \<open>What one poll for \<open>dc\<close> may do to the session, with its result: nothing; store the tokens and
  finish the flow (reported, or not when the storage failed after its commit); or drop the flow.
  Only a session whose pending flow is \<open>dc\<close> changes.\<close>

inductive poll_spec ::
  "string \<Rightarrow> auth_storage_state \<Rightarrow> (go_error, auth_tokens) result \<Rightarrow> auth_storage_state \<Rightarrow> bool" where
  unchanged: "poll_spec dc s (Inl e) s"
| committed: "st_pending s = Some p \<Longrightarrow> pd_device_code p = dc \<Longrightarrow> auth_wf t \<Longrightarrow> auth_text_ok t \<Longrightarrow> r = Inr t \<or> (\<exists>e. r = Inl e) \<Longrightarrow>
    poll_spec dc s r (s\<lparr>st_auth := Some t, st_pending := None, st_generation := nextGeneration (st_generation s)\<rparr>)"
| dropped: "st_pending s = Some p \<Longrightarrow> pd_device_code p = dc \<Longrightarrow>
    poll_spec dc s (Inl e) (s\<lparr>st_pending := None, st_generation := nextGeneration (st_generation s)\<rparr>)"

inductive_cases poll_spec_InrE: "poll_spec dc s (Inr t) s'"
inductive_cases poll_specE: "poll_spec dc s r s'"

lemma poll_spec_superseded:
  "poll_spec dc s r s' \<Longrightarrow> \<forall>p. st_pending s = Some p \<longrightarrow> pd_device_code p \<noteq> dc \<Longrightarrow> s' = s \<and> (\<exists>e. r = Inl e)"
  by (auto elim: poll_specE)

lemma poll_spec_refl: "poll_spec dc s (Inl e) s"
  by (rule unchanged)

text \<open>A failed poll followed by another is one poll.\<close>

lemma poll_spec_again:
  assumes "poll_spec dc s (Inl e) s1" "poll_spec dc s1 r s'"
  shows "poll_spec dc s r s'"
  using assms(1)
proof cases
  case unchanged
  with assms(2) show ?thesis by simp
next
  case (committed p t)
  with poll_spec_superseded [OF assms(2)] obtain e' where "s' = s1" "r = Inl e'" by auto
  with committed show ?thesis by (auto intro: poll_spec.committed)
next
  case (dropped p)
  with poll_spec_superseded [OF assms(2)] obtain e' where "s' = s1" "r = Inl e'" by auto
  with dropped show ?thesis by (auto intro: poll_spec.dropped)
qed

section \<open>The callbacks\<close>

lemma callbacks_pure:
  "callback_pure (clear_pending_callback dc)" "callback_pure (commit_tokens_callback dc t)"
  "callback_pure reserve_callback" "callback_pure (store_pending_callback p)" "callback_pure resume_callback"
  by (auto simp: callback_pure_def clear_pending_callback_def commit_tokens_callback_def reserve_callback_def
      store_pending_callback_def resume_callback_def Let_def time_now_def split: option.splits if_splits)

lemmas callback_defs = clear_pending_callback_def commit_tokens_callback_def reserve_callback_def
  store_pending_callback_def

text \<open>A session that every storage keeps exactly as it is given.\<close>

definition storable :: "auth_storage_state \<Rightarrow> bool" where
  "storable s \<longleftrightarrow> state_ready s \<and> state_text_ok s"

lemma storable_update:
  "storable s \<Longrightarrow> storable (s\<lparr>st_generation := g\<rparr>)"
  "storable s \<Longrightarrow> storable (s\<lparr>st_pending := None, st_generation := g\<rparr>)"
  "storable s \<Longrightarrow> auth_wf t \<Longrightarrow> auth_text_ok t \<Longrightarrow>
   storable (s\<lparr>st_auth := Some t, st_pending := None, st_generation := g\<rparr>)"
  "storable s \<Longrightarrow> pending_fields_ok p \<Longrightarrow> pending_text_ok p \<Longrightarrow> storable (s\<lparr>st_pending := Some p\<rparr>)"
  by (auto simp: storable_def state_ready_def state_text_ok_def)

lemma storable_poll: "poll_spec dc s r s' \<Longrightarrow> storable s \<Longrightarrow> storable s'"
  by (auto simp: storable_update elim!: poll_specE)

text \<open>An error some transaction of the storage returned under this context.\<close>

definition storage_fails :: "auth_storage \<Rightarrow> go_context \<Rightarrow> go_error \<Rightarrow> bool" where
  "storage_fails S ctx e \<longleftrightarrow> (\<exists>f cap w cap' w'. as_transact S ctx (Some f) cap w = ((Some e, cap'), w'))"

lemma storage_failsI: "as_transact S ctx (Some f) cap w = ((Some e, cap'), w') \<Longrightarrow> storage_fails S ctx e"
  unfolding storage_fails_def by blast

text \<open>Whatever \<open>f\<close> accepts from the session \<open>s\<close> is storable and satisfies \<open>Q\<close>.\<close>

definition accepts_only ::
  "callback \<Rightarrow> captures \<Rightarrow> auth_storage_state \<Rightarrow> (captures \<Rightarrow> auth_storage_state \<Rightarrow> bool) \<Rightarrow> bool" where
  "accepts_only f cap s Q \<longleftrightarrow>
     (\<forall>w1 c s' w2. f cap s w1 = ((None, c, s'), w2) \<longrightarrow> storable s' \<and> Q c s')"

lemma accepts_onlyI:
  "(\<And>w1 c s' w2. f cap s w1 = ((None, c, s'), w2) \<Longrightarrow> storable s' \<and> Q c s') \<Longrightarrow> accepts_only f cap s Q"
  unfolding accepts_only_def by blast

context auth_storage_contract
begin

text \<open>A callback whose accepted results are storable commits exactly what it returned. It runs after
  the transaction started.\<close>

lemma transact_within:
  assumes run: "as_transact S ctx (Some f) cap w = ((e, cap'), w')" "callback_pure f" "inv w"
    and f: "\<And>w1 c s' w2. local_step w w1 \<Longrightarrow> f cap (abs w) w1 = ((None, c, s'), w2) \<Longrightarrow> storable s' \<and> Q c s'"
  shows "local_step w w'" "inv w'" "e = None \<Longrightarrow> Q cap' (abs w')"
    "abs w' = abs w \<or> Q cap' (abs w')"
proof -
  show "local_step w w'" "inv w'" using transact_local [OF run] by blast+
  have q: "Q cap' (abs w')" if "commits f cap (abs w) w cap' t" "state_text_ok t \<longrightarrow> abs w' = t" for t
    using that(1)
  proof (rule commitsE)
    fix w1 w2 s' n
    assume c: "local_step w w1" "f cap (abs w) w1 = ((None, cap', s'), w2)"
      "prepared_state (unix_milli (w_clock w n)) s' = Inr t"
    from f [OF c(1,2)] have s: "storable s'" "Q cap' s'" by auto
    with c(3) have "t = s'" by (simp add: storable_def prepared_state_ready)
    with s that(2) show ?thesis by (simp add: storable_def)
  qed
  show "e = None \<Longrightarrow> Q cap' (abs w')"
    using transact_ok [of ctx f cap w cap' w'] run q by blast
  show "abs w' = abs w \<or> Q cap' (abs w')"
    using transact_atomic [OF run] q by blast
qed

lemma transact_exact:
  assumes "as_transact S ctx (Some f) cap w = ((e, cap'), w')" "callback_pure f" "inv w"
    and "accepts_only f cap (abs w) Q"
  shows "local_step w w'" "inv w'" "e = None \<Longrightarrow> Q cap' (abs w')"
    "abs w' = abs w \<or> Q cap' (abs w')"
  using transact_within [OF assms(1-3), of Q] assms(4) unfolding accepts_only_def by blast+

lemma clearTerminalPending_spec:
  assumes "clearTerminalPending a ctx dc e w = (e', w')" "c_storage (au_core a) = S" "inv w" "storable (abs w)"
  shows "inv w' \<and> poll_spec dc (abs w) (Inl x) (abs w') \<and> local_step w w'"
proof -
  obtain oe cap' where t: "as_transact S ctx (Some (clear_pending_callback dc)) no_captures w = ((oe, cap'), w')"
    using assms(1,2) by (auto simp: clearTerminalPending_def split: prod.splits option.splits)
  have "accepts_only (clear_pending_callback dc) no_captures (abs w) (\<lambda>c. poll_spec dc (abs w) (Inl x))"
    using assms(4) by (intro accepts_onlyI) (auto simp: clear_pending_callback_def storable_update
        intro: poll_spec.intros split: option.splits if_splits)
  note x = transact_exact [OF t callbacks_pure(1) assms(3) this]
  from x(1,2,4) poll_spec_refl show ?thesis by fastforce
qed

lemma commit_tokens_spec:
  assumes "commit_tokens a ctx dc t w = (r, w')" "c_storage (au_core a) = S" "inv w" "storable (abs w)"
    and "auth_wf t" "auth_text_ok t"
  shows "inv w' \<and> poll_spec dc (abs w) r (abs w') \<and> local_step w w'"
proof -
  obtain oe cap' where tr: "as_transact S ctx (Some (commit_tokens_callback dc t)) no_captures w = ((oe, cap'), w')"
    and r: "r = (case oe of None \<Rightarrow> Inr t | Some e \<Rightarrow> Inl (Wrapf ''stripelink: commit device authorization'' [e]))"
    using assms(1,2) by (auto simp: commit_tokens_def split: prod.splits option.splits)
  have "accepts_only (commit_tokens_callback dc t) no_captures (abs w)
      (\<lambda>c s'. \<forall>r. r = Inr t \<or> (\<exists>e. r = Inl e) \<longrightarrow> poll_spec dc (abs w) r s')"
    using assms(4-6) by (intro accepts_onlyI) (auto simp: commit_tokens_callback_def storable_update
        intro!: poll_spec.committed split: option.splits if_splits)
  note x = transact_exact [OF tr callbacks_pure(2) assms(3) this]
  show ?thesis
  proof (cases oe)
    case None
    with x(1-3) r show ?thesis by simp
  next
    case (Some e)
    with x(1,2,4) r poll_spec_refl show ?thesis by fastforce
  qed
qed

lemma terminal_spec:
  assumes "terminal a ctx dc e w = (r, w')" "c_storage (au_core a) = S" "inv w" "storable (abs w)"
  shows "inv w' \<and> poll_spec dc (abs w) r (abs w') \<and> local_step w w'"
proof -
  obtain err where "clearTerminalPending a ctx dc (APIErr e) w = (err, w')" "r = Inl err"
    using assms(1) by (auto simp: terminal_def split: prod.splits)
  with clearTerminalPending_spec [OF _ assms(2-4)] show ?thesis by blast
qed

text \<open>One poll refines the transition.\<close>

lemma poll_once_spec:
  assumes "PollDeviceAuthOnce a ctx dc w = (r, w')" "c_storage (au_core a) = S" "inv w" "storable (abs w)"
  shows "inv w' \<and> poll_spec dc (abs w) r (abs w') \<and> w_tick w \<le> w_tick w' \<and> w_clock w' = w_clock w"
proof -
  obtain e w1 where e: "requireContext ctx w = (e, w1)" by fastforce
  obtain x w2 where x: "postForm a ctx ''/device/token'' (poll_form dc) w1 = (x, w2)" by fastforce
  note s1 = requireContext_outside [OF e]
  have s2: "outside_step w w2" using s1 postForm_outside [OF x] by (rule outside_step_trans)
  have un: ?thesis if "outside_step w w'" "r = Inl y" for y
    using outside_keep [OF that(1)] that assms(3) poll_spec_refl by (simp add: outside_step_def)
  note ab2 = outside_keep [OF s2]
  show ?thesis
  proof (cases "e = None \<and> trim_space dc \<noteq> []")
    case False
    with assms(1) e s1 un show ?thesis by (auto simp: PollDeviceAuthOnce_def split: option.splits)
  next
    case go: True
    show ?thesis
    proof (cases x)
      case (Inl y)
      with assms(1) e go x s2 un show ?thesis by (auto simp: PollDeviceAuthOnce_def)
    next
      case (Inr sbd)
      obtain st b d where sbd: "sbd = (st, b, d)" by (cases sbd)
      have fin: ?thesis if "inv w' \<and> poll_spec dc (abs w3) r (abs w') \<and> local_step w3 w'" "outside_step w w3" for w3
        using that outside_keep [OF that(2)] by (simp add: outside_step_def local_step_def)
      show ?thesis
      proof (cases "is_2xx st")
        case False
        with assms(1) e go x Inr sbd have p: "poll_refused a ctx dc st b d w2 = (r, w')"
          by (simp add: PollDeviceAuthOnce_def)
        have "inv w' \<and> poll_spec dc (abs w2) r (abs w') \<and> local_step w2 w'"
          using p terminal_spec [of a ctx dc _ w2 r w'] assms(2-4) ab2
          by (auto simp: poll_refused_def Let_def poll_spec_refl split: if_splits)
        with fin s2 show ?thesis by blast
      next
        case ok: True
        obtain y w3 where y: "decodeAuthTokens b w2 = (y, w3)" by fastforce
        have s3: "outside_step w w3" using s2 decodeAuthTokens_outside [OF y] by (rule outside_step_trans)
        note ab3 = outside_keep [OF s3]
        show ?thesis
        proof (cases y)
          case yl: (Inl z)
          with assms(1) e go x Inr sbd ok y s3 un show ?thesis by (auto simp: PollDeviceAuthOnce_def)
        next
          case yr: (Inr t)
          with assms(1) e go x Inr sbd ok y have c: "commit_tokens a ctx dc t w3 = (r, w')"
            by (simp add: PollDeviceAuthOnce_def)
          have "clock_ok w2" using inv_clock ab2 assms(3) by simp
          from decodeAuthTokens_ok [OF y [unfolded yr] this] commit_tokens_spec [OF c assms(2)] ab3 assms(3,4)
          have "inv w' \<and> poll_spec dc (abs w3) r (abs w') \<and> local_step w3 w'" by simp
          with fin s3 show ?thesis by blast
        qed
      qed
    qed
  qed
qed

end

section \<open>The polling loop\<close>

lemma select_timer_outside: "select_timer c i w = (b, w') \<Longrightarrow> outside_step w w'"
  by (auto simp: select_timer_def time_now_def outside_step_def)

context auth_storage_contract
begin

lemma poll_failed_spec:
  assumes "poll_failed a c dc ex err i w = (out, w')" "c_storage (au_core a) = S" "inv w" "storable (abs w)"
  shows "inv w' \<and> w_tick w \<le> w_tick w' \<and> w_clock w' = w_clock w \<and>
    (\<exists>r. poll_spec dc (abs w) r (abs w') \<and> (case out of Inl r' \<Rightarrow> r = r' | Inr _ \<Rightarrow> \<exists>e. r = Inl e))"
proof (cases "errors_Is err ErrSlowDown \<or> errors_Is err ErrAuthorizationPending")
  case True
  with assms(1,3) show ?thesis
    by (auto simp: poll_failed_def intro!: exI [of _ "Inl err"] poll_spec_refl split: if_splits)
next
  case False
  have t2: "outside_step w (tick (tick w))" by (simp add: outside_step_def)
  note ab = outside_keep [OF t2]
  show ?thesis
  proof (cases "ctx_done c (w_clock w (w_tick w)) \<or> w_clock w (Suc (w_tick w)) < ex")
    case True
    have "outside_step w w'" "\<exists>e. out = Inl (Inl e)"
      using assms(1) True False by (auto simp: poll_failed_def time_now_def outside_step_def split: if_splits)
    with outside_keep [of w w'] assms(3) show ?thesis
      by (auto simp: outside_step_def intro!: poll_spec_refl)
  next
    case ex: False
    from assms(1) False ex obtain r where "terminal a (Some c) dc expiredDeviceCodeError (tick (tick w)) = (r, w')" "out = Inl r"
      by (auto simp: poll_failed_def time_now_def expired_result_def split: prod.splits if_splits)
    with terminal_spec [OF _ assms(2)] ab assms(3,4) show ?thesis
      by (fastforce simp: local_step_def)
  qed
qed

lemma poll_step_spec:
  assumes "poll_step a c dc ex i w = (out, w')" "c_storage (au_core a) = S" "inv w" "storable (abs w)"
  shows "inv w' \<and> w_tick w < w_tick w' \<and> w_clock w' = w_clock w \<and>
    (\<exists>r. poll_spec dc (abs w) r (abs w') \<and> (case out of Inl r' \<Rightarrow> r = r' | Inr _ \<Rightarrow> \<exists>e. r = Inl e))"
proof -
  have k1: "outside_step (tick w) u \<Longrightarrow> outside_step w u" for u by (simp add: outside_step_def)
  have exp: ?thesis if "expired_result a c dc u = (r, w')" "out = Inl r" "outside_step (tick w) u" for u r
    using terminal_spec [OF that(1) [unfolded expired_result_def] assms(2)] outside_keep [OF k1 [OF that(3)]]
      that(2,3) assms(3,4) by (auto simp: local_step_def outside_step_def)
  show ?thesis
  proof (cases "saturate (ex - w_clock w (w_tick w)) \<le> 0")
    case True
    with assms(1) exp [of "tick w"] show ?thesis
      by (auto simp: poll_step_def time_until_def time_now_def split: prod.splits)
  next
    case rem: False
    obtain b u where b: "select_timer c (min i (saturate (ex - w_clock w (w_tick w)))) (tick w) = (b, u)" by fastforce
    note s2 = select_timer_outside [OF b]
    show ?thesis
    proof (cases b)
      case False
      with assms(1) rem b have "out = Inl (Inl (cx_cause c))" "w' = u"
        by (auto simp: poll_step_def time_until_def time_now_def)
      with s2 outside_keep [OF k1 [OF s2]] assms(3) show ?thesis
        by (auto simp: outside_step_def intro!: poll_spec_refl)
    next
      case True
      have s3: "outside_step (tick w) (tick u)" using s2 by (simp add: outside_step_def)
      show ?thesis
      proof (cases "ex \<le> w_clock u (w_tick u)")
        case late: True
        with assms(1) rem b True exp [of "tick u"] s3 show ?thesis
          by (auto simp: poll_step_def time_until_def time_now_def split: prod.splits)
      next
        case early: False
        obtain y v where y: "PollDeviceAuthOnce a (Some (with_deadline c ex)) dc (tick u) = (y, v)" by fastforce
        note ab3 = outside_keep [OF k1 [OF s3]]
        from poll_once_spec [OF y assms(2)] ab3 assms(3,4) s3 have once: "inv v" "poll_spec dc (abs w) y (abs v)"
          "w_tick w < w_tick v" "w_clock v = w_clock w"
          by (auto simp: outside_step_def)
        show ?thesis
        proof (cases y)
          case (Inr t)
          with assms(1) rem b True early y have "out = Inl (Inr t)" "w' = v"
            by (auto simp: poll_step_def time_until_def time_now_def)
          with once Inr show ?thesis by auto
        next
          case (Inl err)
          with assms(1) rem b True early y have f: "poll_failed a c dc ex err i v = (out, w')"
            by (auto simp: poll_step_def time_until_def time_now_def)
          have st: "storable (abs v)" using once(2) assms(4) by (rule storable_poll)
          from poll_failed_spec [OF f assms(2) once(1) st] obtain r where
            r: "inv w'" "w_tick v \<le> w_tick w'" "w_clock w' = w_clock v" "poll_spec dc (abs v) r (abs w')"
              "case out of Inl r' \<Rightarrow> r = r' | Inr _ \<Rightarrow> \<exists>e. r = Inl e" by blast
          from poll_spec_again [OF once(2) [unfolded Inl] r(4)] r once(3,4) show ?thesis by auto
        qed
      qed
    qed
  qed
qed

lemma poll_loop_spec:
  assumes "poll_loop a c dc ex i w = Some y" "c_storage (au_core a) = S" "inv w" "storable (abs w)"
  shows "inv (snd y) \<and> poll_spec dc (abs w) (fst y) (abs (snd y))"
proof -
  let ?P = "\<lambda>a c dc ex i w y. c_storage (au_core a) = S \<longrightarrow> inv w \<longrightarrow> storable (abs w) \<longrightarrow>
    inv (snd y) \<and> poll_spec dc (abs w) (fst y) (abs (snd y))"
  have "?P a c dc ex i w y"
  proof (rule poll_loop.raw_induct [OF _ assms(1), where P = ?P], intro impI)
    fix loop a c dc ex i w y
    assume IH: "\<And>a c dc ex i w y. loop a c dc ex i w = Some y \<Longrightarrow> ?P a c dc ex i w y"
      and body: "(case poll_step a c dc ex i w of
          (Inl r, w1) \<Rightarrow> Some (r, w1) | (Inr interval', w1) \<Rightarrow> loop a c dc ex interval' w1) = Some y"
      and pre: "c_storage (au_core a) = S" "inv w" "storable (abs w)"
    obtain out u where st: "poll_step a c dc ex i w = (out, u)" by fastforce
    from poll_step_spec [OF st pre] obtain r where
      u: "inv u" "poll_spec dc (abs w) r (abs u)" "case out of Inl r' \<Rightarrow> r = r' | Inr _ \<Rightarrow> \<exists>e. r = Inl e" by blast
    show "inv (snd y) \<and> poll_spec dc (abs w) (fst y) (abs (snd y))"
    proof (cases out)
      case (Inl r')
      with body st u show ?thesis by auto
    next
      case (Inr i')
      with body st have l: "loop a c dc ex i' u = Some y" by simp
      from Inr u(2,3) obtain e where "poll_spec dc (abs w) (Inl e) (abs u)" by auto
      with IH [OF l] pre(1) u(1) storable_poll [OF u(2) pre(3)] poll_spec_again show ?thesis by blast
    qed
  qed
  with assms(2-4) show ?thesis by blast
qed

text \<open>A loop whose clock reaches the expiry returns.\<close>

lemma poll_loop_returns:
  assumes "c_storage (au_core a) = S" "inv w" "storable (abs w)" "\<forall>n \<ge> N. ex \<le> w_clock w n"
  shows "\<exists>y. poll_loop a c dc ex i w = Some y"
  using assms(2-4)
proof (induction "N - w_tick w" arbitrary: i w rule: less_induct)
  case less
  obtain out u where st: "poll_step a c dc ex i w = (out, u)" by fastforce
  from poll_step_spec [OF st assms(1) less.prems(1,2)] obtain r where
    u: "inv u" "poll_spec dc (abs w) r (abs u)" "w_tick w < w_tick u" "w_clock u = w_clock w" by blast
  show ?case
  proof (cases out)
    case (Inl r')
    with st show ?thesis by (subst poll_loop.simps) simp
  next
    case (Inr i')
    have "w_tick w < N"
    proof (rule ccontr)
      assume "\<not> w_tick w < N"
      with less.prems(3) have "ex \<le> w_clock w (w_tick w)" by simp
      then have "saturate (ex - w_clock w (w_tick w)) \<le> 0" by (simp add: saturate_def min_int64_def max_int64_def)
      with st Inr show False by (simp add: poll_step_def time_until_def time_now_def split: prod.splits)
    qed
    with u(3) have "N - w_tick u < N - w_tick w" by linarith
    from less.hyps [OF this u(1) storable_poll [OF u(2) less.prems(2)]] less.prems(3) u(4) st Inr
    show ?thesis by (subst poll_loop.simps) simp
  qed
qed

end

lemma time_until_outside: "time_until t w = (r, w') \<Longrightarrow> outside_step w w'"
  by (auto simp: time_until_def intro: time_now_outside split: prod.splits)

text \<open>What resuming does. Without a pending flow it fails and sends nothing. With one, the clock read
  inside the transaction decides: an expired flow is dropped and nothing is sent; a live one is
  polled, with its own device code and expiry, from the session as it was found. A context or storage
  failure may stop it before the poll.\<close>

definition dropped_flow :: "auth_storage_state \<Rightarrow> auth_storage_state" where
  "dropped_flow s = s\<lparr>st_pending := None, st_generation := nextGeneration (st_generation s)\<rparr>"

definition resume_refused :: "auth_resource \<Rightarrow> go_context \<Rightarrow> world \<Rightarrow> (go_error, auth_tokens) result \<Rightarrow> bool" where
  "resume_refused a ctx w r \<longleftrightarrow> (\<exists>e. r = Inl e \<and> (fst (requireContext ctx w) = Some e \<or>
     (\<exists>x. storage_fails (c_storage (au_core a)) ctx x \<and>
        e = Wrapf ''stripelink: load pending device authorization'' [x])))"

definition resume_spec ::
  "auth_resource \<Rightarrow> (world \<Rightarrow> auth_storage_state) \<Rightarrow> go_context \<Rightarrow> world \<Rightarrow> (go_error, auth_tokens) result \<Rightarrow> world \<Rightarrow> bool" where
  "resume_spec a st ctx w r w' \<longleftrightarrow>
     (case st_pending (st w) of
        None \<Rightarrow> st w' = st w \<and> w_sent w' = w_sent w \<and>
          (resume_refused a ctx w r \<or> r = Inl (Sentinel ErrNoPendingDeviceAuth))
      | Some p \<Rightarrow>
          resume_refused a ctx w r \<and> st w' = st w \<and> w_sent w' = w_sent w \<or>
          (\<exists>n \<ge> w_tick w. pd_expires_at p \<le> unix_milli (w_clock w n) \<and>
             (resume_refused a ctx w r \<or> r = Inl (Sentinel ErrNoPendingDeviceAuth)) \<and>
             st w' = dropped_flow (st w) \<and> w_sent w' = w_sent w) \<or>
          (\<exists>n \<ge> w_tick w. unix_milli (w_clock w n) < pd_expires_at p \<and>
             (\<exists>m \<ge> w_tick w. \<exists>v. st v = st w \<and> w_sent v = w_sent w \<and>
                PollDeviceAuth a ctx (Some (resumed p (max (saturate (from_milli (pd_expires_at p) - w_clock w m)) 0))) v =
                  Some (r, w')) \<and>
             poll_spec (pd_device_code p) (st w) r (st w')))"

context auth_storage_contract
begin

lemma PollDeviceAuth_spec:
  assumes "PollDeviceAuth a ctx da w = Some y" "c_storage (au_core a) = S" "inv w" "storable (abs w)"
  shows "inv (snd y) \<and> (case da of None \<Rightarrow> abs (snd y) = abs w \<and> (\<exists>e. fst y = Inl e)
    | Some d \<Rightarrow> poll_spec (da_device_code d) (abs w) (fst y) (abs (snd y)))"
proof -
  obtain e w1 where e: "requireContext ctx w = (e, w1)" by fastforce
  note k = outside_keep [OF requireContext_outside [OF e]]
  show ?thesis
  proof (cases "\<exists>c d. e = None \<and> ctx = Some c \<and> da = Some d \<and>
      \<not> (trim_space (da_device_code d) = [] \<or> da_expires_at d \<le> 0 \<or> da_interval d \<le> 0)")
    case True
    then obtain c d where "e = None" "ctx = Some c" "da = Some d"
      "\<not> (trim_space (da_device_code d) = [] \<or> da_expires_at d \<le> 0 \<or> da_interval d \<le> 0)" by blast
    with assms(1) e poll_loop_spec [OF _ assms(2)] k assms(3,4) show ?thesis
      by (fastforce simp: PollDeviceAuth_def)
  next
    case False
    with assms(1) e k assms(3) show ?thesis
      by (fastforce simp: PollDeviceAuth_def intro: poll_spec_refl split: option.splits if_splits)
  qed
qed

lemma PollDeviceAuth_returns:
  assumes "c_storage (au_core a) = S" "inv w" "storable (abs w)"
    and "\<And>d. da = Some d \<Longrightarrow> \<forall>n \<ge> N. from_milli (da_expires_at d) \<le> w_clock w n"
  shows "\<exists>y. PollDeviceAuth a ctx da w = Some y"
proof -
  obtain e w1 where e: "requireContext ctx w = (e, w1)" by fastforce
  note o = requireContext_outside [OF e]
  from outside_keep [OF o] assms(2,3) have k: "inv w1" "storable (abs w1)" by auto
  have "w_clock w1 = w_clock w" using o by (simp add: outside_step_def)
  then have "\<exists>y. poll_loop a c (da_device_code d) (from_milli (da_expires_at d)) i w1 = Some y"
    if "da = Some d" for c d i
    using poll_loop_returns [OF assms(1) k] assms(4) [OF that] by simp
  with e show ?thesis by (cases e; cases ctx; cases da) (auto simp: PollDeviceAuth_def)
qed

lemma resume_callback_run:
  assumes "resume_callback cap st w = ((None, c, s'), w')" "storable st"
  shows "storable s' \<and> (case st_pending st of
      None \<Rightarrow> cap_pending c = None \<and> s' = st
    | Some p \<Rightarrow> if unix_milli (w_clock w (w_tick w)) < pd_expires_at p then cap_pending c = Some p \<and> s' = st
        else cap_pending c = None \<and> s' = dropped_flow st)"
  using assms by (auto simp: resume_callback_def time_now_def dropped_flow_def storable_update split: option.splits if_splits)

lemma Resume_spec:
  assumes "ResumeDeviceAuth a ctx w = Some (r, w')" "c_storage (au_core a) = S" "inv w" "storable (abs w)"
  shows "resume_spec a abs ctx w r w' \<and> inv w'"
proof -
  obtain e w1 where e: "requireContext ctx w = (e, w1)" by fastforce
  note t1 = contextFailure_ticks [OF e [unfolded requireContext_eq]]
  note k = ticks_keep [OF t1]
  have w1: "w_sent w1 = w_sent w" "w_clock w1 = w_clock w" "w_tick w \<le> w_tick w1"
    using t1 by (simp_all add: ticks_def local_step_def)
  show ?thesis
  proof (cases e)
    case (Some x)
    with assms(1,3) e k w1(1) show ?thesis
      by (auto simp: ResumeDeviceAuth_def resume_spec_def resume_refused_def split: option.split)
  next
    case None
    obtain oe cap w2 where t: "as_transact S ctx (Some resume_callback) no_captures w1 = ((oe, cap), w2)"
      by (metis prod.exhaust_sel)
    define Q :: "captures \<Rightarrow> auth_storage_state \<Rightarrow> bool" where "Q = (\<lambda>c s'. case st_pending (abs w) of
        None \<Rightarrow> cap_pending c = None \<and> s' = abs w
      | Some p \<Rightarrow> \<exists>n \<ge> w_tick w. if unix_milli (w_clock w n) < pd_expires_at p then cap_pending c = Some p \<and> s' = abs w
          else cap_pending c = None \<and> s' = dropped_flow (abs w))"
    have f: "storable s' \<and> Q c s'"
      if "local_step w1 v" "resume_callback no_captures (abs w1) v = ((None, c, s'), v')" for v c s' v'
    proof -
      have "w_tick w \<le> w_tick v" "w_clock v = w_clock w" using that(1) w1 by (simp_all add: local_step_def)
      with resume_callback_run [OF that(2)] k assms(4) show ?thesis by (auto simp: Q_def split: option.splits)
    qed
    have i1: "inv w1" using k assms(3) by simp
    have x: "local_step w1 w2" "inv w2" "oe = None \<Longrightarrow> Q cap (abs w2)" "abs w2 = abs w1 \<or> Q cap (abs w2)"
      using transact_within [OF t callbacks_pure(5) i1, of Q] f by blast+
    have w2: "w_sent w2 = w_sent w" "w_clock w2 = w_clock w" "w_tick w \<le> w_tick w2"
      using x(1) w1 by (simp_all add: local_step_def)
    show ?thesis
    proof (cases oe)
      case (Some y)
      with assms(1,2) e None t have r: "r = Inl (Wrapf ''stripelink: load pending device authorization'' [y])" "w' = w2"
        by (simp_all add: ResumeDeviceAuth_def)
      moreover have "storage_fails (c_storage (au_core a)) ctx y"
        using t Some assms(2) unfolding storage_fails_def by blast
      moreover have "abs w2 = abs w \<or> Q cap (abs w2)" using x(4) k by simp
      ultimately show ?thesis using x(2) w2
        by (auto simp: resume_spec_def resume_refused_def Q_def split: option.splits if_splits)
    next
      case fin: None
      have q: "Q cap (abs w2)" using x(3) fin by simp
      show ?thesis
      proof (cases "cap_pending cap")
        case no: None
        with assms(1,2) e None t fin have r: "r = Inl (Sentinel ErrNoPendingDeviceAuth)" "w' = w2"
          by (simp_all add: ResumeDeviceAuth_def)
        with q x(2) w2 no show ?thesis
          by (auto simp: resume_spec_def resume_refused_def Q_def split: option.splits if_splits)
      next
        case (Some p)
        with q obtain n where p: "st_pending (abs w) = Some p" "abs w2 = abs w" "w_tick w \<le> n"
          "unix_milli (w_clock w n) < pd_expires_at p"
          by (auto simp: Q_def split: option.splits if_splits)
        let ?rem = "max (saturate (from_milli (pd_expires_at p) - w_clock w (w_tick w2))) 0"
        from assms(1,2) e None t fin Some w2(2)
        have poll: "PollDeviceAuth a ctx (Some (resumed p ?rem)) (tick w2) = Some (r, w')"
          by (simp add: ResumeDeviceAuth_def time_until_def time_now_def)
        have k3: "abs (tick w2) = abs w" "inv (tick w2)" using ticks_keep [OF ticks_tick [of w2]] x(2) p(2) by simp_all
        from PollDeviceAuth_spec [OF poll assms(2)] k3 assms(4)
        have "poll_spec (pd_device_code p) (abs w) r (abs w')" "inv w'" by (simp_all add: resumed_def)
        moreover have "w_sent (tick w2) = w_sent w" using w2(1) by simp
        ultimately show ?thesis using poll k3 p w2(3) by (auto simp: resume_spec_def)
      qed
    qed
  qed
qed

end

section \<open>Initiation as a transition\<close>

text \<open>Initiation either keeps the session, reserves a generation, or also stores the new flow, as its
  last step: after the new flow is stored only the storage can still report an error. The credentials
  are never touched, and the flow of a failed request survives.\<close>

inductive initiate_spec :: "(go_error \<Rightarrow> bool) \<Rightarrow>
  auth_storage_state \<Rightarrow> (go_error, device_auth) result \<Rightarrow> auth_storage_state \<Rightarrow> bool" for E where
  kept: "initiate_spec E s (Inl e) s"
| reserved: "initiate_spec E s (Inl e) (s\<lparr>st_generation := nextGeneration (st_generation s)\<rparr>)"
| stored: "pending_fields_ok (pending_of da) \<Longrightarrow> pending_text_ok (pending_of da) \<Longrightarrow> 
    r = Inr da \<or> (\<exists>e. E e \<and> r = Inl (Wrapf ''stripelink: persist pending device authorization'' [e])) \<Longrightarrow>
    initiate_spec E s r (s\<lparr>st_generation := nextGeneration (st_generation s), st_pending := Some (pending_of da)\<rparr>)"

inductive_cases initiate_spec_InrE: "initiate_spec E s (Inr da) s'"

lemma storable_initiate: "initiate_spec E s r s' \<Longrightarrow> storable s \<Longrightarrow> storable s'"
  by (induction rule: initiate_spec.induct)
     (auto simp: storable_def state_ready_def state_text_ok_def)

lemma decodeRequired_wire:
  "decodeRequiredJSON dec_device_wire body = Inr x \<Longrightarrow>
   valid_utf8 (dw_device_code x) \<and> valid_utf8 (dw_user_code x) \<and>
   valid_utf8 (dw_verification_uri_complete x) \<and> in_int64 (dw_interval x)"
  using parse_wf [of body]
  by (auto simp: decodeRequiredJSON_def dec_device_wire_def Let_def get_string_valid
      get_int64_in in_int64_0 split: if_splits option.splits json.splits)

lemma decodeDeviceAuth_outside: "decodeDeviceAuth body w = (r, w') \<Longrightarrow> outside_step w w'"
  by (auto simp: decodeDeviceAuth_def intro: time_now_outside ticks_outside
      split: sum.splits if_splits option.splits prod.splits)

lemma decodeDeviceAuth_ok:
  assumes "decodeDeviceAuth body w = (Inr da, w')" "clock_ok w"
  shows "pending_fields_ok (pending_of da)" "pending_text_ok (pending_of da)"
    "da_expires_at da = unix_milli (w_clock w (w_tick w)) + da_expires_in da * 1000"
proof -
  from assms(1) obtain x e where x: "decodeRequiredJSON dec_device_wire body = Inr x" "wire_complete x"
    and e: "absoluteExpiry (w_clock w (w_tick w)) (dw_expires_in x) = Some e"
    and da: "da = device_auth_of x e"
    by (auto simp: decodeDeviceAuth_def time_now_def split: sum.splits if_splits option.splits)
  note v = absoluteExpiry_value [OF e]
  have r: "0 \<le> unix_milli (w_clock w (w_tick w))" "unix_milli (w_clock w (w_tick w)) \<le> 9223372036854"
    using assms(2) unix_milli_range [of "w_clock w (w_tick w)"] by (auto simp: clock_ok_def)
  with v have "0 < e" "in_int64 e" by (auto simp: in_int64_def min_int64_def max_int64_def)
  with x decodeRequired_wire [OF x(1)] show "pending_fields_ok (pending_of da)" "pending_text_ok (pending_of da)"
    by (auto simp: da pending_fields_ok_def pending_text_ok_def pending_of_def device_auth_of_def wire_complete_def)
  from da v(1) show "da_expires_at da = unix_milli (w_clock w (w_tick w)) + da_expires_in da * 1000"
    by (simp add: device_auth_of_def)
qed

context auth_storage_contract
begin

lemma store_pending_spec:
  assumes "store_pending a ctx cap da w = (r, w')" "c_storage (au_core a) = S" "inv w" "storable (abs w)"
    and "pending_fields_ok (pending_of da)" "pending_text_ok (pending_of da)"
  shows "inv w'" "abs w' = abs w \<and> (\<exists>e. r = Inl e) \<or>
      abs w' = (abs w)\<lparr>st_pending := Some (pending_of da)\<rparr> \<and>
      (r = Inr da \<or> (\<exists>e. storage_fails S ctx e \<and> r = Inl (Wrapf ''stripelink: persist pending device authorization'' [e])))"
proof -
  obtain oe cap' where t: "as_transact S ctx (Some (store_pending_callback (pending_of da))) cap w = ((oe, cap'), w')"
    and r: "r = (case oe of None \<Rightarrow> Inr da | Some e \<Rightarrow> Inl (Wrapf ''stripelink: persist pending device authorization'' [e]))"
    using assms(1,2) by (auto simp: store_pending_def split: prod.splits option.splits)
  have "accepts_only (store_pending_callback (pending_of da)) cap (abs w)
      (\<lambda>c s'. s' = (abs w)\<lparr>st_pending := Some (pending_of da)\<rparr>)"
    using assms(4-6) by (intro accepts_onlyI)
      (auto simp: store_pending_callback_def storable_update split: if_splits)
  note x = transact_exact [OF t callbacks_pure(4) assms(3) this]
  show "inv w'" by (rule x(2))
  show "abs w' = abs w \<and> (\<exists>e. r = Inl e) \<or>
      abs w' = (abs w)\<lparr>st_pending := Some (pending_of da)\<rparr> \<and>
      (r = Inr da \<or> (\<exists>e. storage_fails S ctx e \<and> r = Inl (Wrapf ''stripelink: persist pending device authorization'' [e])))"
    using x(3,4) r storage_failsI t by (cases oe) auto
qed

text \<open>A flow that was overtaken stores nothing: its reservation is no longer the newest, or the
  credentials changed.\<close>

lemma store_pending_superseded:
  assumes "store_pending a ctx cap da w = (r, w')" "c_storage (au_core a) = S" "inv w"
    and "st_generation (abs w) \<noteq> cap_generation cap \<or> st_auth (abs w) \<noteq> cap_auth cap"
  shows "abs w' = abs w \<and> (\<exists>e. r = Inl e)"
proof -
  obtain oe cap' where t: "as_transact S ctx (Some (store_pending_callback (pending_of da))) cap w = ((oe, cap'), w')"
    and r: "r = (case oe of None \<Rightarrow> Inr da | Some e \<Rightarrow> Inl (Wrapf ''stripelink: persist pending device authorization'' [e]))"
    using assms(1,2) by (auto simp: store_pending_def split: prod.splits option.splits)
  have "fst (fst (store_pending_callback (pending_of da) cap (abs w) w1)) \<noteq> None" for w1
    using assms(4) by (auto simp: store_pending_callback_def)
  with transact_refused [OF t callbacks_pure(4) assms(3)] r show ?thesis by auto
qed

lemma initiate_cases:
  assumes "initiate a ctx n w = (r, w')" "c_storage (au_core a) = S" "inv w" "storable (abs w)"
  shows "inv w' \<and> initiate_spec (storage_fails S ctx) (abs w) r (abs w')"
proof -
  let ?res = "(abs w)\<lparr>st_generation := nextGeneration (st_generation (abs w))\<rparr>"
  obtain oe cap w1 where t: "as_transact S ctx (Some reserve_callback) no_captures w = ((oe, cap), w1)"
    by (metis prod.exhaust_sel)
  have "accepts_only reserve_callback no_captures (abs w) (\<lambda>c s'. s' = ?res)"
    using assms(4) by (intro accepts_onlyI) (auto simp: reserve_callback_def Let_def storable_update)
  note x = transact_exact [OF t callbacks_pure(3) assms(3) this]
  show ?thesis
  proof (cases oe)
    case (Some e)
    with assms(1,2) t x(2,4) show ?thesis by (auto simp: initiate_def intro: initiate_spec.intros)
  next
    case None
    with x(3) have a1: "abs w1 = ?res" by simp
    obtain y w2 where y: "postForm a ctx ''/device/code'' (device_form (connection_label a n w1) n) w1 = (y, w2)" by fastforce
    note s2 = postForm_outside [OF y]
    note k2 = outside_keep [OF s2]
    have quit: ?thesis if "outside_step w1 w'" "\<exists>e. r = Inl e"
      using outside_keep [OF that(1)] that(2) a1 x(2) by (auto intro: initiate_spec.reserved)
    show ?thesis
    proof (cases "\<exists>st b d. y = Inr (st, b, d) \<and> is_2xx st")
      case False
      with assms(1,2) t None y have "w' = w2" "\<exists>e. r = Inl e"
        by (auto simp: initiate_def split: sum.splits if_splits)
      with s2 quit show ?thesis by blast
    next
      case True
      then obtain st b d where st: "y = Inr (st, b, d)" "is_2xx st" by blast
      obtain z w3 where z: "decodeDeviceAuth b w2 = (z, w3)" by fastforce
      have s3: "outside_step w1 w3" using s2 decodeDeviceAuth_outside [OF z] by (rule outside_step_trans)
      note k3 = outside_keep [OF s3]
      show ?thesis
      proof (cases z)
        case (Inl e)
        with assms(1,2) t None y st z have "w' = w3" "r = Inl e" by (auto simp: initiate_def)
        with s3 quit show ?thesis by blast
      next
        case (Inr da)
        with assms(1,2) t None y st z have sp: "store_pending a ctx cap da w3 = (r, w')"
          by (simp add: initiate_def)
        have "clock_ok w2" using inv_clock [of w2] k2 x(2) by simp
        note da = decodeDeviceAuth_ok [OF z [unfolded Inr] this]
        have "storable (abs w3)" using k3 a1 assms(4) by (simp add: storable_update)
        from store_pending_spec [OF sp assms(2) _ this da(1,2)] k3 x(2) a1 da(1,2) show ?thesis
          by (auto intro: initiate_spec.reserved intro!: initiate_spec.stored)
      qed
    qed
  qed
qed

lemma Initiate_spec:
  assumes "InitiateDeviceAuth a ctx names w = (r, w')" "c_storage (au_core a) = S" "inv w" "storable (abs w)"
  shows "inv w' \<and> initiate_spec (storage_fails S ctx) (abs w) r (abs w')"
proof -
  obtain e w1 where e: "requireContext ctx w = (e, w1)" by fastforce
  note k = outside_keep [OF requireContext_outside [OF e]]
  have i: ?thesis if "initiate a ctx n w1 = (r, w')" for n
    using initiate_cases [OF that assms(2)] k assms(3,4) by simp
  have q: ?thesis if "r = Inl x" "w' = w1" for x
    using that k assms(3) by (auto intro: initiate_spec.kept)
  show ?thesis
    using assms(1) e i q by (auto simp: InitiateDeviceAuth_def split: option.splits list.splits if_splits)
qed

end

end
