(* ===== verification/AuthTheorems.thy ===== *)
theory AuthTheorems
  imports AuthFlowSpec StorageTheorems
begin

text \<open>
  The properties of login, polling and logout, for both storages the package provides.
\<close>

section \<open>Logout\<close>

lemma RevokeToken_outside:
  assumes "RevokeToken a ctx t w = (r, w')"
  shows "outside_step w w'"
proof -
  obtain e w1 where e: "requireContext ctx w = (e, w1)" by fastforce
  note s1 = requireContext_outside [OF e]
  obtain x w2 where x: "postForm a ctx ''/device/revoke'' [(''client_id'', clientID), (''token'', t)] w1 = (x, w2)"
    by fastforce
  have s2: "outside_step w w2" using s1 postForm_outside [OF x] by (rule outside_step_trans)
  from assms e x s1 s2 show ?thesis
    by (auto simp: RevokeToken_def split: option.splits sum.splits if_splits)
qed

definition signed_out :: "auth_storage_state \<Rightarrow> bool" where
  "signed_out s \<longleftrightarrow> st_auth s = None \<and> st_pending s = None"

definition clear_failed :: "go_error \<Rightarrow> go_error" where
  "clear_failed e = Wrapf ''stripelink: clear revoked authentication'' [e]"

context auth_storage_contract
begin

lemma clear_revoked_spec:
  assumes "clear_revoked a ctx w = (r, w')" "c_storage (au_core a) = S" "inv w"
  shows "inv w' \<and> (r = None \<and> signed_out (abs w') \<or>
    (\<exists>e. r = Some (clear_failed e)) \<and> (abs w' = abs w \<or> signed_out (abs w')))"
proof -
  obtain cc w1 where d: "detachedAuthContext ctx w = (cc, w1)" by fastforce
  note k = ticks_keep [OF detachedAuthContext_ticks [OF d]]
  obtain oe where c: "as_clear S cc w1 = (oe, w')"
    and r: "r = map_option clear_failed oe"
    using assms(1,2) d by (auto simp: clear_revoked_def clear_failed_def split: option.splits prod.splits)
  have i: "inv w1" using k assms(3) by simp
  from clear_local [OF c i] have "inv w'" by simp
  moreover have "oe = None \<Longrightarrow> signed_out (abs w')" using clear_ok [of cc w1 w'] c i by (simp add: signed_out_def)
  moreover have "abs w' = abs w \<or> signed_out (abs w')" using clear_atomic [OF c i] k by (simp add: signed_out_def)
  ultimately show ?thesis using r by (cases oe) auto
qed

lemma Logout_spec:
  assumes "Logout a ctx w = (r, w')" "c_storage (au_core a) = S" "inv w"
  shows "inv w' \<and> (r = None \<and> signed_out (abs w') \<or> r \<noteq> None \<and> abs w' = abs w \<or>
    (\<exists>e. r = Some (clear_failed e)) \<and> signed_out (abs w'))"
proof -
  obtain e w1 where e: "requireContext ctx w = (e, w1)" by fastforce
  note k1 = outside_keep [OF requireContext_outside [OF e]]
  obtain ls w2 where l: "as_load S ctx w1 = (ls, w2)" by fastforce
  have k2: "inv w2 \<and> abs w2 = abs w" using load_keeps [OF l] k1 assms(3) by simp
  show ?thesis
  proof (cases "e = None \<and> c_managesSession (au_core a) \<and>
      (\<exists>st auth. ls = Inr st \<and> Option.bind st st_auth = Some auth \<and> at_refresh_token auth \<noteq> [])")
    case False
    with assms(1,2) e l have "r \<noteq> None" "w' = w1 \<or> w' = w2"
      by (auto simp: Logout_def split: option.splits sum.splits if_splits)
    with k1 k2 assms(3) show ?thesis by auto
  next
    case True
    then obtain st auth where t: "e = None" "c_managesSession (au_core a)" "ls = Inr st"
      "Option.bind st st_auth = Some auth" "at_refresh_token auth \<noteq> []" by blast
    obtain y w3 where y: "RevokeToken a ctx (at_refresh_token auth) w2 = (y, w3)" by fastforce
    note k3 = outside_keep [OF RevokeToken_outside [OF y]]
    show ?thesis
    proof (cases "\<exists>x. y = Some x \<and> \<not> already_revoked x")
      case True
      with assms(1,2) e l t y have "r \<noteq> None" "w' = w3" by (auto simp: Logout_def)
      with k2 k3 show ?thesis by simp
    next
      case False
      with assms(1,2) e l t y have "clear_revoked a ctx w3 = (r, w')"
        by (auto simp: Logout_def split: option.splits)
      from clear_revoked_spec [OF this assms(2)] k2 k3 show ?thesis by auto
    qed
  qed
qed

text \<open>A stored credential without an expiry supersedes the very flow that is being started: the
  reservation commits it with its expiry filled in, so it is no longer the credential the flow
  captured.\<close>

lemma initiate_no_expiry:
  assumes "InitiateDeviceAuth a ctx names w = (r, w')" "c_storage (au_core a) = S" "inv w"
    and "st_auth (abs w) = Some x" "at_expires_at x = 0" "state_text_ok (abs w)"
  shows "\<exists>e. r = Inl e"
proof -
  obtain e w1 where e: "requireContext ctx w = (e, w1)" by fastforce
  note k1 = outside_keep [OF requireContext_outside [OF e]]
  have init: "\<exists>y. r' = Inl y" if run: "initiate a ctx n w1 = (r', w')" for n r'
  proof -
    obtain oe cap w2 where t: "as_transact S ctx (Some reserve_callback) no_captures w1 = ((oe, cap), w2)"
      by (metis prod.exhaust_sel)
    obtain y w3 where y: "postForm a ctx ''/device/code'' (device_form (connection_label a n w2) n) w2 = (y, w3)"
      by fastforce
    show ?thesis
    proof (cases "\<exists>st b d da v. oe = None \<and> y = Inr (st, b, d) \<and> is_2xx st \<and> decodeDeviceAuth b w3 = (Inr da, v)")
      case False
      with run assms(2) t y show ?thesis
        by (auto simp: initiate_def split: option.splits sum.splits if_splits prod.splits)
    next
      case True
      then obtain st b d da v where g: "oe = None" "y = Inr (st, b, d)" "is_2xx st"
        and z: "decodeDeviceAuth b w3 = (Inr da, v)" by blast
      have i1: "inv w1" using k1 assms(3) by simp
      from transact_ok [OF t [unfolded g(1)] callbacks_pure(3) i1] obtain c where
        c: "commits reserve_callback no_captures (abs w1) w1 cap c" "state_text_ok c \<longrightarrow> abs w2 = c" by blast
      from c(1) obtain u v s' m where u: "reserve_callback no_captures (abs w1) u = ((None, cap, s'), v)"
        "prepared_state (unix_milli (w_clock w1 m)) s' = Inr c" by (auto simp: commits_def)
      have a1: "st_auth (abs w1) = Some x" using k1 assms(4) by simp
      with u(1) have s': "st_auth s' = Some x" "cap_auth cap = Some x" "state_text_ok s'"
        using k1 assms(6) by (auto simp: reserve_callback_def Let_def state_text_ok_def)
      have clk: "0 \<le> unix_milli (w_clock w1 m)" "unix_milli (w_clock w1 m) \<le> max_int64"
        using clock_okD [OF inv_clock [OF i1]] by blast+
      have "abs w2 = c" using c(2) prepared_text_ok [OF u(2) s'(3) clk] by simp
      moreover obtain x' where "prepareAuth (unix_milli (w_clock w1 m)) (Some x) = Inr x'" "st_auth c = Some x'"
        using u(2) s'(1) by (auto simp: prepared_state_def prepareStorageSnapshot_def map_sum_def split: sum.splits)
      ultimately have "st_auth (abs w2) \<noteq> cap_auth cap"
        using prepareAuth_expiry(3) [OF _ assms(5) clk] assms(5) s'(2) by fastforce
      moreover have o: "outside_step w2 v'" if "decodeDeviceAuth b w3 = (Inr da, v')" for v'
        using postForm_outside [OF y] decodeDeviceAuth_outside [OF that] by (rule outside_step_trans)
      ultimately obtain v' where v': "decodeDeviceAuth b w3 = (Inr da, v')" "st_auth (abs v') \<noteq> cap_auth cap" "inv v'"
        using z outside_keep [OF o [OF z]] transact_local [OF t callbacks_pure(3) i1] by auto
      with run assms(2) t y g have "store_pending a ctx cap da v' = (r', w')" by (simp add: initiate_def)
      from store_pending_superseded [OF this assms(2) v'(3)] v'(2) show ?thesis by blast
    qed
  qed
  show ?thesis
    using assms(1) e init by (auto simp: InitiateDeviceAuth_def split: option.splits list.splits if_splits)
qed

end

section \<open>The storages of the package\<close>

inductive package_storage :: "auth_storage \<Rightarrow> (world \<Rightarrow> auth_storage_state) \<Rightarrow> (world \<Rightarrow> bool) \<Rightarrow> bool" where
  memory: "package_storage MemoryStorage mem_abs mem_inv"
| disk: "package_storage (FileStorage (Some path)) file_abs file_inv"

lemma package_contract: "package_storage S st ok \<Longrightarrow> auth_storage_contract S st ok"
  by (induction rule: package_storage.induct)
     (rule mem.auth_storage_contract_axioms disk.auth_storage_contract_axioms)+

section \<open>Login\<close>

text \<open>C4: on either storage, a whole polling loop (every retry, slow-down, cancellation, expiry and
  storage failure included) acts on the session as one atomic transition: it leaves it as it was,
  or its pending flow is the one polled for and the tokens were stored and the flow finished, or
  that flow was dropped. Tokens are returned only when they were stored.\<close>

theorem poll_refines:
  assumes "package_storage (c_storage (au_core a)) st ok" "ok w" "storable (st w)"
    and "PollDeviceAuth a ctx (Some d) w = Some (r, w')"
  shows "poll_spec (da_device_code d) (st w) r (st w')"
  using auth_storage_contract.PollDeviceAuth_spec [OF package_contract [OF assms(1)] assms(4) refl assms(2,3)] by simp

text \<open>C21: polling terminates: if the clock ever passes the expiry of the device code for good,
  \<open>PollDeviceAuth\<close> returns, whatever the server answers, however often it asks for patience, and
  even when the context is never cancelled.\<close>

theorem poll_terminates:
  assumes "package_storage (c_storage (au_core a)) st ok" "ok w" "storable (st w)"
    and "\<forall>n \<ge> N. from_milli (da_expires_at d) \<le> w_clock w n"
  shows "\<exists>r w'. PollDeviceAuth a ctx (Some d) w = Some (r, w')"
  using auth_storage_contract.PollDeviceAuth_returns
      [OF package_contract [OF assms(1)] refl assms(2,3), of "Some d" N ctx] assms(4)
  by (metis option.inject surj_pair)

text \<open>A login on the memory store whose device code expires at tick 20.\<close>

definition sample_resource :: auth_resource where
  "sample_resource = \<lparr>au_core = sample_core, au_hostname = None\<rparr>"

definition expiring_world :: world where
  "expiring_world = early_world\<lparr>w_clock := (\<lambda>n. if n < 20 then 0 else 2000000000)\<rparr>"

definition sample_device :: device_auth where
  "sample_device = \<lparr>da_device_code = ''D'', da_user_code = ''U'', da_verification_url = ''V'',
     da_verification_url_complete = ''VC'', da_expires_in = 1, da_expires_at = 1000, da_interval = 1\<rparr>"

lemma sample_storage: "package_storage (c_storage (au_core sample_resource)) mem_abs mem_inv"
  by (simp add: sample_resource_def sample_core_def package_storage.memory)

lemma expiring_world_ok: "mem_inv expiring_world" "storable (mem_abs expiring_world)"
  by (auto simp: mem_inv_def clock_ok_def expiring_world_def early_world_def max_int64_def state_wf_def
      empty_state_def mem_abs_def storable_def state_ready_def state_text_ok_def)

lemma expiring_world_late: "\<forall>n \<ge> 20. from_milli (da_expires_at sample_device) \<le> w_clock expiring_world n"
  by (simp add: expiring_world_def sample_device_def from_milli_def)

theorem poll_terminates_witness:
  "\<exists>r w'. PollDeviceAuth sample_resource (Some background) (Some sample_device) expiring_world = Some (r, w')"
  by (rule poll_terminates [OF sample_storage expiring_world_ok expiring_world_late])

lemma sample_poll_returns:
  "\<exists>r w'. PollDeviceAuth sample_resource (Some background) (Some sample_device) expiring_world = Some (r, w')"
  using auth_storage_contract.PollDeviceAuth_returns
      [OF package_contract [OF sample_storage] refl expiring_world_ok, of "Some sample_device" 20 "Some background"]
    expiring_world_late
  by (metis option.inject surj_pair)

theorem poll_refines_witness:
  "\<exists>r w'. PollDeviceAuth sample_resource (Some background) (Some sample_device) expiring_world = Some (r, w') \<and>
     poll_spec ''D'' empty_state r (mem_abs w')"
proof -
  obtain r w' where p: "PollDeviceAuth sample_resource (Some background) (Some sample_device) expiring_world = Some (r, w')"
    using sample_poll_returns by blast
  have "mem_abs expiring_world = empty_state" by (simp add: mem_abs_def expiring_world_def early_world_def)
  with poll_refines [OF sample_storage expiring_world_ok p] p show ?thesis by (auto simp: sample_device_def)
qed



text \<open>C23: a flow overtaken while its request was in flight stores nothing: when a newer flow was
  reserved, or the credentials changed, since the reservation it captured, storing it fails and
  leaves the session as it is.\<close>

theorem overtaken_flow_is_refused:
  assumes "package_storage (c_storage (au_core a)) st ok" "ok w"
    and "store_pending a ctx cap da w = (r, w')"
    and "st_generation (st w) \<noteq> cap_generation cap \<or> st_auth (st w) \<noteq> cap_auth cap"
  shows "st w' = st w \<and> (\<exists>e. r = Inl e)"
  by (rule auth_storage_contract.store_pending_superseded
      [OF package_contract [OF assms(1)] assms(3) refl assms(2,4)])

theorem overtaken_flow_is_refused_witness:
  "\<exists>r w'. store_pending sample_resource (Some background) (no_captures\<lparr>cap_generation := 7\<rparr>) sample_device expiring_world =
     (r, w') \<and> mem_abs w' = empty_state"
proof -
  obtain r w' where p: "store_pending sample_resource (Some background) (no_captures\<lparr>cap_generation := 7\<rparr>)
      sample_device expiring_world = (r, w')" by fastforce
  have e: "mem_abs expiring_world = empty_state" by (simp add: mem_abs_def expiring_world_def early_world_def)
  then have g: "st_generation (mem_abs expiring_world) \<noteq> cap_generation (no_captures\<lparr>cap_generation := 7\<rparr>)"
    by (simp add: empty_state_def)
  from overtaken_flow_is_refused [OF sample_storage expiring_world_ok(1) p] g p e show ?thesis by auto
qed







text \<open>C25: a successful logout leaves no credential and no pending flow; a failed one leaves the
  session exactly as it was, unless what failed was the final clearing of credentials already
  revoked. So a failed revocation never loses the credentials needed to retry it.\<close>

theorem logout_spec:
  assumes "package_storage (c_storage (au_core a)) st ok" "ok w" "Logout a ctx w = (r, w')"
  shows "r = None \<and> signed_out (st w') \<or> r \<noteq> None \<and> st w' = st w \<or>
    (\<exists>e. r = Some (clear_failed e)) \<and> signed_out (st w')"
  using auth_storage_contract.Logout_spec [OF package_contract [OF assms(1)] assms(3) refl assms(2)] by blast

theorem logout_spec_witness:
  "\<exists>r w'. Logout sample_resource (Some background) expiring_world = (r, w') \<and>
     (r = None \<and> signed_out (mem_abs w') \<or> r \<noteq> None \<and> mem_abs w' = empty_state \<or>
      (\<exists>e. r = Some (clear_failed e)) \<and> signed_out (mem_abs w'))"
proof -
  obtain r w' where p: "Logout sample_resource (Some background) expiring_world = (r, w')" by fastforce
  have "mem_abs expiring_world = empty_state" by (simp add: mem_abs_def expiring_world_def early_world_def)
  with logout_spec [OF sample_storage expiring_world_ok(1) p] p show ?thesis by metis
qed

section \<open>Tokens and errors\<close>

text \<open>C34: tokens are accepted only complete, and their absolute expiry is exactly the clock's
  milliseconds plus a thousand times the server's seconds: no lifetime the check admits wraps.\<close>

theorem token_expiry_exact:
  assumes "decodeAuthTokens body w = (Inr t, w')" "clock_ok w"
  shows "at_access_token t \<noteq> [] \<and> at_refresh_token t \<noteq> [] \<and> at_token_type t \<noteq> [] \<and> 0 < at_expires_in t \<and>
    at_expires_at t = unix_milli (w_clock w (w_tick w)) + at_expires_in t * 1000 \<and>
    in_int64 (at_expires_at t) \<and> 0 < at_expires_at t"
proof -
  note d = decodeAuthTokens_ok [OF assms]
  from d(1) have "at_access_token t \<noteq> []" "at_refresh_token t \<noteq> []" "at_token_type t \<noteq> []" "0 < at_expires_in t"
    "0 < at_expires_at t" by (auto simp: auth_wf_def auth_fields_ok_def)
  with d show ?thesis by (simp add: auth_text_ok_def)
qed

text \<open>The response a server sends for one-minute tokens.\<close>

definition minute_tokens :: auth_tokens where
  "minute_tokens = \<lparr>at_access_token = ''A'', at_refresh_token = ''R'', at_expires_in = 60,
     at_token_type = ''T'', at_expires_at = 0\<rparr>"

lemma decode_printed_tokens:
  assumes "auth_text_ok t"
  shows "decodeRequiredJSON dec_auth_tokens (compact (enc_auth_tokens t)) = Inr t"
proof -
  have p: "parse_json (compact (enc_auth_tokens t)) = Some (enc_auth_tokens t)"
    using parse_compact [of "enc_auth_tokens t"] enc_auth_tokens_wf [of t] by (simp add: max_depth_def)
  moreover have "compact (enc_auth_tokens t) \<noteq> []" by (simp add: enc_auth_tokens_def)
  ultimately show ?thesis using dec_enc_auth_tokens [OF assms] by (simp add: decodeRequiredJSON_def)
qed

theorem token_expiry_exact_witness:
  "\<exists>t w'. decodeAuthTokens (compact (enc_auth_tokens minute_tokens)) early_world = (Inr t, w') \<and>
     at_expires_at t = 60000"
proof -
  have "auth_text_ok minute_tokens"
    by (simp add: minute_tokens_def auth_text_ok_def in_int64_def min_int64_def max_int64_def
        valid_utf8_ascii byte_def)
  from decode_printed_tokens [OF this] obtain t w' where
    t: "decodeAuthTokens (compact (enc_auth_tokens minute_tokens)) early_world = (Inr t, w')" "at_expires_in t = 60"
    by (simp add: decodeAuthTokens_def minute_tokens_def time_now_def absoluteExpiry_def go_div_def
        max_int64_def seconds_def early_world_def)
  from token_expiry_exact [OF t(1) early_world_ok(1)] t show ?thesis
    by (auto simp: early_world_def unix_milli_def)
qed

text \<open>an OAuth failure reports nothing the server wrote but a code of the fixed list: the message
  is the operation, the status and that code.\<close>

theorem oauth_error_reports_known_codes:
  "\<exists>code \<in> {''access_denied'', ''authorization_pending'', ''expired_token'', ''invalid_client'',
      ''invalid_grant'', ''invalid_request'', ''invalid_scope'', ''invalid_token'', ''slow_down'',
      ''unauthorized_client'', ''unsupported_grant_type'', ''api_error''}.
     ae_code (authAPIError prefix status body data) = code \<and>
     ae_message (authAPIError prefix status body data) = prefix @ '' ('' @ show_int status @ ''): '' @ code"
proof -
  have idem: "safeOAuthCode (safeOAuthCode c) = safeOAuthCode c" for c by (simp add: safeOAuthCode_def)
  show ?thesis
    by (rule bexI [of _ "safeOAuthCode (fst (oauthError data))"])
       (simp add: authAPIError_def newAuthAPIError_def Let_def idem, simp add: safeOAuthCode_def)
qed

section \<open>Flaws\<close>

text \<open>C38: while a stored credential has no expiry (\<open>expires_at\<close> missing in the file, which validation
  allows), a login cannot be started: the reservation rewrites that credential with an expiry, and
  the flow then finds itself superseded.\<close>

theorem login_blocked_without_expiry:
  assumes "package_storage (c_storage (au_core a)) st ok" "ok w" "state_text_ok (st w)"
    and "st_auth (st w) = Some x" "at_expires_at x = 0"
  shows "\<exists>e w'. InitiateDeviceAuth a ctx names w = (Inl e, w')"
proof -
  obtain r w' where r: "InitiateDeviceAuth a ctx names w = (r, w')" by fastforce
  from auth_storage_contract.initiate_no_expiry
    [OF package_contract [OF assms(1)] r refl assms(2,4,5,3)] r show ?thesis by auto
qed

definition no_expiry_world :: world where
  "no_expiry_world = early_world\<lparr>w_mem := Some (empty_state\<lparr>st_auth := Some (sample_auth\<lparr>at_expires_at := 0\<rparr>)\<rparr>)\<rparr>"

theorem login_blocked_without_expiry_witness:
  "\<exists>e w'. InitiateDeviceAuth sample_resource (Some background) [] no_expiry_world = (Inl e, w')"
proof (rule login_blocked_without_expiry [OF sample_storage])
  show "mem_inv no_expiry_world"
    using early_world_ok(1)
    by (auto simp: mem_inv_def no_expiry_world_def clock_ok_def state_wf_def sample_auth_def auth_fields_ok_def empty_state_def)
  show "state_text_ok (mem_abs no_expiry_world)"
    using sample_auth_ok(2)
    by (auto simp: mem_abs_def no_expiry_world_def state_text_ok_def empty_state_def auth_text_ok_def
        in_int64_def min_int64_def max_int64_def)
  show "st_auth (mem_abs no_expiry_world) = Some (sample_auth\<lparr>at_expires_at := 0\<rparr>)"
    by (simp add: mem_abs_def no_expiry_world_def)
qed simp

lemma trim_sample: "trim_space ''D'' = ''D''" by code_simp

text \<open>a polling interval of 9223372037 seconds or more, which the response check admits, wraps:
  the first timer of the loop gets a negative duration, so the server is polled at once.\<close>

theorem poll_interval_wraps:
  "\<exists>w'. PollDeviceAuth sample_resource (Some (background\<lparr>cx_done_at := Some 1\<rparr>))
      (Some (sample_device\<lparr>da_interval := 9223372037\<rparr>))
      (early_world\<lparr>w_clock := (\<lambda>n. if n < 2 then 0 else 1)\<rparr>) = Some (Inl (Sentinel ContextCanceled), w') \<and>
    w_timers w' = [- 9223372036709551616]"
  by (simp add: PollDeviceAuth_def requireContext_def contextFailure_def time_now_def background_def ctx_done_def
      early_world_def sample_device_def sample_world_def tick_def trim_sample, subst poll_loop.simps)
     (simp add: poll_step_def time_until_def time_now_def select_timer_def ctx_done_def tick_def
      saturate_def from_milli_def min_int64_def max_int64_def seconds_def wrap64_def)

end
