(* ===== verification/TokenProvider.thy ===== *)
theory TokenProvider
  imports AuthFlow
begin

text \<open>
  The token provider of tokens.go. The critical sections of \<open>token\<close>, \<open>runRefresh\<close>,
  \<open>finishRefresh\<close> and \<open>waitForRefresh\<close> are functions on a shared state; \<open>pstep\<close> interleaves any
  number of callers and refresh goroutines at the boundaries of those sections.
\<close>

section \<open>Decisions\<close>

definition tokenExpirySkew :: int where "tokenExpirySkew = seconds 60"

definition tokenNeedsRefresh :: "auth_tokens \<Rightarrow> int \<Rightarrow> bool" where
  "tokenNeedsRefresh tokens now \<longleftrightarrow>
     at_expires_at tokens > 0 \<and> \<not> (now < from_milli (at_expires_at tokens) - tokenExpirySkew)"

datatype decision = Refuse go_error | Use string | Refresh auth_tokens

text \<open>What \<open>token\<close> decides about the credentials it loaded.\<close>

definition decide :: "access_token_request \<Rightarrow> auth_tokens option \<Rightarrow> world \<Rightarrow> decision \<times> world" where
  "decide request stored w =
     (case stored of
        None \<Rightarrow> (Refuse (Sentinel ErrNotAuthenticated), w)
      | Some s \<Rightarrow>
          (if at_access_token s = [] then (Refuse (Sentinel ErrNotAuthenticated), w)
           else if tr_ForceRefresh request \<and> tr_RejectedToken request \<noteq> [] \<and>
                   tr_RejectedToken request \<noteq> at_access_token s
           then (Use (at_access_token s), w)
           else (case (if tr_ForceRefresh request then (True, w)
                       else (case time_now w of (t, w1) \<Rightarrow> (tokenNeedsRefresh s t, w1))) of
                   (False, w1) \<Rightarrow> (Use (at_access_token s), w1)
                 | (True, w1) \<Rightarrow>
                     (if at_refresh_token s = [] then (Refuse (Sentinel ErrNotAuthenticated), w1)
                      else (Refresh s, w1)))))"

section \<open>The refresh goroutine\<close>

record provider =
  pv_storage :: "auth_storage option"
  pv_auth :: "auth_resource option"

type_synonym outcome = "auth_tokens option \<times> go_error option"

text \<open>After a failed exchange: another client may have committed a newer generation.\<close>

definition refresh_fallback ::
  "auth_storage \<Rightarrow> go_context \<Rightarrow> auth_tokens \<Rightarrow> go_error \<Rightarrow> world \<Rightarrow> outcome \<times> world" where
  "refresh_fallback S ctx source err w =
     (case as_load S ctx w of
        (Inr (Some state), w1) \<Rightarrow>
          (case st_auth state of
             Some current \<Rightarrow>
               (if at_access_token current \<noteq> [] \<and> \<not> sameAuthTokens (Some current) (Some source)
                then ((Some current, None), w1) else ((None, Some err), w1))
           | None \<Rightarrow> ((None, Some err), w1))
      | (_, w1) \<Rightarrow> ((None, Some err), w1))"

definition persist_callback :: "auth_tokens \<Rightarrow> auth_tokens \<Rightarrow> callback" where
  "persist_callback source refreshed cap st w =
     (case st_auth st of
        None \<Rightarrow> ((Some (Sentinel ErrNotAuthenticated), cap, st), w)
      | Some current \<Rightarrow>
          (if at_access_token current = [] then ((Some (Sentinel ErrNotAuthenticated), cap, st), w)
           else if \<not> sameAuthTokens (Some current) (Some source)
           then ((None, cap\<lparr>cap_auth := Some current\<rparr>, st), w)
           else ((None, cap, st\<lparr>st_auth := Some refreshed\<rparr>), w)))"

definition refresh_commit ::
  "auth_storage \<Rightarrow> go_context \<Rightarrow> auth_tokens \<Rightarrow> auth_tokens \<Rightarrow> world \<Rightarrow> outcome \<times> world" where
  "refresh_commit S ctx source refreshed w =
     (case detachedAuthContext ctx w of
        (commitCtx, w1) \<Rightarrow>
          (case as_transact S commitCtx (Some (persist_callback source refreshed))
                  (no_captures\<lparr>cap_auth := Some refreshed\<rparr>) w1 of
             ((Some e, cap), w2) \<Rightarrow> ((None, Some (Wrapf ''stripelink: persist refreshed authentication'' [e])), w2)
           | ((None, cap), w2) \<Rightarrow> ((cap_auth cap, None), w2)))"

definition unusable_credentials :: go_error where
  "unusable_credentials = Msg ''stripelink: token refresh returned unusable credentials''"

text \<open>\<open>runRefresh\<close> up to its call of \<open>finishRefresh\<close>.\<close>

definition runRefresh ::
  "auth_storage \<Rightarrow> auth_resource \<Rightarrow> go_context \<Rightarrow> auth_tokens \<Rightarrow> world \<Rightarrow> outcome \<times> world" where
  "runRefresh S a ctx source w =
     (case RefreshToken a ctx (at_refresh_token source) w of
        (Inl err, w1) \<Rightarrow> refresh_fallback S ctx source err w1
      | (Inr refreshed, w1) \<Rightarrow>
          (if at_access_token refreshed = [] \<or> at_refresh_token refreshed = []
           then ((None, Some unusable_credentials), w1)
           else refresh_commit S ctx source refreshed w1))"

definition refreshResult :: "outcome \<Rightarrow> (go_error, string) result" where
  "refreshResult r =
     (case snd r of
        Some e \<Rightarrow> Inl e
      | None \<Rightarrow>
          (case fst r of
             None \<Rightarrow> Inl (Sentinel ErrNotAuthenticated)
           | Some t \<Rightarrow> (if at_access_token t = [] then Inl (Sentinel ErrNotAuthenticated)
                       else Inr (at_access_token t))))"

section \<open>One caller alone\<close>

definition load_failed :: "go_error \<Rightarrow> go_error" where
  "load_failed e = Wrapf ''stripelink: load authentication'' [e]"

definition nil_state :: go_error where
  "nil_state = Msg ''stripelink: load authentication: storage returned nil state''"

text \<open>The wait of a caller whose refresh has completed or whose context is done.\<close>

definition wait_alone :: "go_context \<Rightarrow> outcome \<Rightarrow> world \<Rightarrow> (go_error, string) result \<times> world" where
  "wait_alone ctx r w =
     (case ctx of
        None \<Rightarrow> (refreshResult r, w)
      | Some c \<Rightarrow>
          (case time_now w of
             (t, w1) \<Rightarrow>
               (if ctx_done c t \<and> w_choose w (w_tick w) then (Inl (cx_cause c), w1) else (refreshResult r, w1))))"

text \<open>\<open>token\<close> when no other caller interferes: the token source \<open>NewClient\<close> installs.\<close>

definition token :: "provider \<Rightarrow> token_func" where
  "token p ctx request w =
     (case requireContext ctx w of
        (Some e, w1) \<Rightarrow> (Inl e, w1)
      | (None, w1) \<Rightarrow>
          (case (pv_storage p, pv_auth p) of
             (Some S, Some a) \<Rightarrow>
               (case storageGate_lock ctx w1 of
                  (Some e, w2) \<Rightarrow> (Inl e, w2)
                | (None, w2) \<Rightarrow>
                    (case as_load S ctx w2 of
                       (Inl e, w3) \<Rightarrow> (Inl (load_failed e), w3)
                     | (Inr None, w3) \<Rightarrow> (Inl nil_state, w3)
                     | (Inr (Some state), w3) \<Rightarrow>
                         (case decide request (st_auth state) w3 of
                            (Refuse e, w4) \<Rightarrow> (Inl e, w4)
                          | (Use t, w4) \<Rightarrow> (Inr t, w4)
                          | (Refresh stored, w4) \<Rightarrow>
                              (case detachedAuthContext ctx w4 of
                                 (refreshCtx, w5) \<Rightarrow>
                                   (case runRefresh S a refreshCtx stored w5 of
                                      (r, w6) \<Rightarrow> wait_alone ctx r w6)))))
           | _ \<Rightarrow> (Inl (Sentinel ErrNotAuthenticated), w1)))"

section \<open>Concurrent callers\<close>

text \<open>Where a refresh goroutine is: exchanging the token, looking at the storage after a failed
  exchange, persisting, publishing its outcome, finished.\<close>

datatype job =
    JExchange go_context
  | JFallback go_context go_error
  | JPersist go_context auth_tokens
  | JFinish "auth_tokens option" "go_error option"
  | JDone

text \<open>\<open>refreshCall\<close>, with the goroutine that serves it and the credentials it was started with.\<close>

record refresh_call =
  rc_done :: bool
  rc_waiters :: nat
  rc_tokens :: "auth_tokens option"
  rc_err :: "go_error option"
  rc_source :: auth_tokens
  rc_job :: job

text \<open>Where a caller of \<open>token\<close> is: entering, at the decision gate, between the critical sections
  it runs with the gate held, waiting for a call, returned.\<close>

datatype caller =
    Entering go_context access_token_request
  | AtGate go_context access_token_request
  | HasGate go_context access_token_request
  | Reading go_context access_token_request
  | Loaded go_context access_token_request "auth_tokens option"
  | Waiting go_context nat
  | Returned "(go_error, string) result"

record pstate =
  ps_world :: world
  ps_gate :: "nat option"
  ps_inflight :: "nat option"
  ps_calls :: "refresh_call list"
  ps_callers :: "nat \<Rightarrow> caller"

definition goto :: "nat \<Rightarrow> caller \<Rightarrow> pstate \<Rightarrow> pstate" where
  "goto i c st = st\<lparr>ps_callers := (ps_callers st)(i := c)\<rparr>"

definition in_world :: "world \<Rightarrow> pstate \<Rightarrow> pstate" where
  "in_world w st = st\<lparr>ps_world := w\<rparr>"

definition unlock :: "pstate \<Rightarrow> pstate" where
  "unlock st = st\<lparr>ps_gate := None\<rparr>"

definition update_call :: "nat \<Rightarrow> (refresh_call \<Rightarrow> refresh_call) \<Rightarrow> pstate \<Rightarrow> pstate" where
  "update_call k f st = st\<lparr>ps_calls := (ps_calls st)[k := f (ps_calls st ! k)]\<rparr>"

text \<open>Joining the call in flight.\<close>

definition join_call :: "nat \<Rightarrow> go_context \<Rightarrow> nat \<Rightarrow> pstate \<Rightarrow> pstate" where
  "join_call i ctx k st =
     goto i (Waiting ctx k) (update_call k (\<lambda>c. c\<lparr>rc_waiters := rc_waiters c + 1\<rparr>) st)"

definition new_call :: "go_context \<Rightarrow> auth_tokens \<Rightarrow> refresh_call" where
  "new_call refreshCtx stored =
     \<lparr>rc_done = False, rc_waiters = 1, rc_tokens = None, rc_err = None, rc_source = stored,
      rc_job = JExchange refreshCtx\<rparr>"

definition publish :: "nat \<Rightarrow> go_context \<Rightarrow> auth_tokens \<Rightarrow> pstate \<Rightarrow> pstate" where
  "publish i ctx stored st =
     (case detachedAuthContext ctx (ps_world st) of
        (refreshCtx, w) \<Rightarrow>
          goto i (Waiting ctx (length (ps_calls st)))
            (unlock (st\<lparr>ps_world := w, ps_inflight := Some (length (ps_calls st)),
                        ps_calls := ps_calls st @ [new_call refreshCtx stored]\<rparr>)))"

definition enter_step :: "provider \<Rightarrow> nat \<Rightarrow> go_context \<Rightarrow> access_token_request \<Rightarrow> pstate \<Rightarrow> pstate" where
  "enter_step p i ctx request st =
     (case requireContext ctx (ps_world st) of
        (Some e, w) \<Rightarrow> goto i (Returned (Inl e)) (in_world w st)
      | (None, w) \<Rightarrow>
          (if pv_storage p = None \<or> pv_auth p = None
           then goto i (Returned (Inl (Sentinel ErrNotAuthenticated))) (in_world w st)
           else (case ps_inflight st of
                   Some k \<Rightarrow> join_call i ctx k (in_world w st)
                 | None \<Rightarrow> goto i (AtGate ctx request) (in_world w st))))"

text \<open>\<open>decision.lock\<close>: the gate is taken unless the context is done.\<close>

definition gate_step :: "nat \<Rightarrow> go_context \<Rightarrow> access_token_request \<Rightarrow> pstate \<Rightarrow> pstate" where
  "gate_step i ctx request st =
     (case contextFailure ctx (ps_world st) of
        (Some e, w) \<Rightarrow> goto i (Returned (Inl e)) (in_world w st)
      | (None, w) \<Rightarrow>
          (if ps_gate st = None
           then goto i (HasGate ctx request) ((in_world w st)\<lparr>ps_gate := Some i\<rparr>)
           else in_world w st))"

definition check_step :: "nat \<Rightarrow> go_context \<Rightarrow> access_token_request \<Rightarrow> pstate \<Rightarrow> pstate" where
  "check_step i ctx request st =
     (case ps_inflight st of
        Some k \<Rightarrow> unlock (join_call i ctx k st)
      | None \<Rightarrow> goto i (Reading ctx request) st)"

definition read_step :: "auth_storage \<Rightarrow> nat \<Rightarrow> go_context \<Rightarrow> access_token_request \<Rightarrow> pstate \<Rightarrow> pstate" where
  "read_step S i ctx request st =
     (case as_load S ctx (ps_world st) of
        (Inl e, w) \<Rightarrow> unlock (goto i (Returned (Inl (load_failed e))) (in_world w st))
      | (Inr None, w) \<Rightarrow> unlock (goto i (Returned (Inl nil_state)) (in_world w st))
      | (Inr (Some state), w) \<Rightarrow> goto i (Loaded ctx request (st_auth state)) (in_world w st))"

definition decide_step :: "nat \<Rightarrow> go_context \<Rightarrow> access_token_request \<Rightarrow> auth_tokens option \<Rightarrow> pstate \<Rightarrow> pstate" where
  "decide_step i ctx request stored st =
     (case ps_inflight st of
        Some k \<Rightarrow> unlock (join_call i ctx k st)
      | None \<Rightarrow>
          (case decide request stored (ps_world st) of
             (Refuse e, w) \<Rightarrow> unlock (goto i (Returned (Inl e)) (in_world w st))
           | (Use t, w) \<Rightarrow> unlock (goto i (Returned (Inr t)) (in_world w st))
           | (Refresh s, w) \<Rightarrow> publish i ctx s (in_world w st)))"

text \<open>\<open>waitForRefresh\<close>: a completed result is preferred to a cancellation.\<close>

definition call_outcome :: "refresh_call \<Rightarrow> outcome" where
  "call_outcome c = (rc_tokens c, rc_err c)"

definition wait_step :: "nat \<Rightarrow> go_context \<Rightarrow> nat \<Rightarrow> pstate \<Rightarrow> pstate" where
  "wait_step i ctx k st =
     (if rc_done (ps_calls st ! k) then goto i (Returned (refreshResult (call_outcome (ps_calls st ! k)))) st
      else (case contextFailure ctx (ps_world st) of
              (Some e, w) \<Rightarrow>
                goto i (Returned (Inl e)) (update_call k (\<lambda>c. c\<lparr>rc_waiters := rc_waiters c - 1\<rparr>) (in_world w st))
            | (None, w) \<Rightarrow> in_world w st))"

fun caller_step :: "provider \<Rightarrow> nat \<Rightarrow> caller \<Rightarrow> pstate \<Rightarrow> pstate" where
  "caller_step p i (Entering ctx request) st = enter_step p i ctx request st"
| "caller_step p i (AtGate ctx request) st = gate_step i ctx request st"
| "caller_step p i (HasGate ctx request) st = check_step i ctx request st"
| "caller_step p i (Reading ctx request) st =
     (case pv_storage p of None \<Rightarrow> st | Some S \<Rightarrow> read_step S i ctx request st)"
| "caller_step p i (Loaded ctx request stored) st = decide_step i ctx request stored st"
| "caller_step p i (Waiting ctx k) st = wait_step i ctx k st"
| "caller_step p i (Returned r) st = st"

definition finishRefresh :: "nat \<Rightarrow> outcome \<Rightarrow> pstate \<Rightarrow> pstate" where
  "finishRefresh k r st =
     (let st1 = update_call k (\<lambda>c. c\<lparr>rc_tokens := fst r, rc_err := snd r, rc_done := True, rc_job := JDone\<rparr>) st
      in (if ps_inflight st1 = Some k then st1\<lparr>ps_inflight := None\<rparr> else st1))"

text \<open>The next phase of a goroutine.\<close>

definition job_next ::
  "auth_storage \<Rightarrow> auth_resource \<Rightarrow> auth_tokens \<Rightarrow> job \<Rightarrow> world \<Rightarrow> job \<times> world" where
  "job_next S a source j w =
     (case j of
        JExchange ctx \<Rightarrow>
          (case RefreshToken a ctx (at_refresh_token source) w of
             (Inl err, w1) \<Rightarrow> (JFallback ctx err, w1)
           | (Inr refreshed, w1) \<Rightarrow>
               (if at_access_token refreshed = [] \<or> at_refresh_token refreshed = []
                then (JFinish None (Some unusable_credentials), w1)
                else (JPersist ctx refreshed, w1)))
      | JFallback ctx err \<Rightarrow> (case refresh_fallback S ctx source err w of ((t, e), w1) \<Rightarrow> (JFinish t e, w1))
      | JPersist ctx refreshed \<Rightarrow> (case refresh_commit S ctx source refreshed w of ((t, e), w1) \<Rightarrow> (JFinish t e, w1))
      | JFinish t e \<Rightarrow> (JDone, w)
      | JDone \<Rightarrow> (JDone, w))"

definition job_step :: "provider \<Rightarrow> nat \<Rightarrow> pstate \<Rightarrow> pstate" where
  "job_step p k st =
     (case rc_job (ps_calls st ! k) of
        JFinish t e \<Rightarrow> finishRefresh k (t, e) st
      | j \<Rightarrow>
          (case (pv_storage p, pv_auth p) of
             (Some S, Some a) \<Rightarrow>
               (case job_next S a (rc_source (ps_calls st ! k)) j (ps_world st) of
                  (j', w) \<Rightarrow> update_call k (\<lambda>c. c\<lparr>rc_job := j'\<rparr>) (in_world w st))
           | _ \<Rightarrow> st))"

text \<open>Interleaving: a caller's next section, a goroutine's next phase, or anything outside the
  provider; with \<open>ext\<close>, the outside may also rewrite the storage.\<close>

inductive pstep :: "provider \<Rightarrow> bool \<Rightarrow> pstate \<Rightarrow> pstate \<Rightarrow> bool" for p ext where
  caller: "pstep p ext st (caller_step p i (ps_callers st i) st)"
| job: "k < length (ps_calls st) \<Longrightarrow> pstep p ext st (job_step p k st)"
| outside: "outside_step (ps_world st) w \<Longrightarrow> pstep p ext st (in_world w st)"
| external: "ext \<Longrightarrow> pstep p ext st (in_world w st)"

inductive reachable :: "provider \<Rightarrow> bool \<Rightarrow> world \<Rightarrow> pstate \<Rightarrow> bool" for p ext w0 where
  start: "ps_world st = w0 \<Longrightarrow> ps_gate st = None \<Longrightarrow> ps_inflight st = None \<Longrightarrow> ps_calls st = [] \<Longrightarrow>
    \<forall>i. \<exists>ctx rq. ps_callers st i = Entering ctx rq \<Longrightarrow> reachable p ext w0 st"
| step: "reachable p ext w0 st \<Longrightarrow> pstep p ext st st' \<Longrightarrow> reachable p ext w0 st'"

text \<open>A schedule: callers and goroutines in the order they are picked.\<close>

datatype pick = Caller nat | Job nat

fun run_pick :: "provider \<Rightarrow> pick \<Rightarrow> pstate \<Rightarrow> pstate" where
  "run_pick p (Caller i) st = caller_step p i (ps_callers st i) st"
| "run_pick p (Job k) st = (if k < length (ps_calls st) then job_step p k st else st)"

fun run :: "provider \<Rightarrow> pick list \<Rightarrow> pstate \<Rightarrow> pstate" where
  "run p [] st = st"
| "run p (x # xs) st = run p xs (run_pick p x st)"

lemma reachable_pick: "reachable p ext w0 st \<Longrightarrow> reachable p ext w0 (run_pick p x st)"
  by (cases x) (auto intro: reachable.step pstep.caller pstep.job)

lemma reachable_run: "reachable p ext w0 st \<Longrightarrow> reachable p ext w0 (run p xs st)"
  by (induction xs arbitrary: st) (auto intro: reachable_pick)

end
