(* ===== verification/TokenSpec.thy ===== *)
theory TokenSpec
  imports TokenProvider AuthTheorems
begin

text \<open>
  Invariants of every interleaving of the token provider: the shared state (which call is in
  flight, who holds the gate), and the chain of rotated credentials.
\<close>

section \<open>Shared-state lemmas\<close>

lemma pstate_fields [simp]:
  "ps_world (goto i c st) = ps_world st" "ps_gate (goto i c st) = ps_gate st"
  "ps_inflight (goto i c st) = ps_inflight st" "ps_calls (goto i c st) = ps_calls st"
  "ps_callers (goto i c st) = (ps_callers st)(i := c)"
  "ps_world (in_world w st) = w" "ps_gate (in_world w st) = ps_gate st"
  "ps_inflight (in_world w st) = ps_inflight st" "ps_calls (in_world w st) = ps_calls st"
  "ps_callers (in_world w st) = ps_callers st"
  "ps_world (unlock st) = ps_world st" "ps_gate (unlock st) = None"
  "ps_inflight (unlock st) = ps_inflight st" "ps_calls (unlock st) = ps_calls st"
  "ps_callers (unlock st) = ps_callers st"
  "ps_world (update_call k f st) = ps_world st" "ps_gate (update_call k f st) = ps_gate st"
  "ps_inflight (update_call k f st) = ps_inflight st"
  "ps_calls (update_call k f st) = (ps_calls st)[k := f (ps_calls st ! k)]"
  "ps_callers (update_call k f st) = ps_callers st"
  by (simp_all add: goto_def in_world_def unlock_def update_call_def)

lemma join_call_fields [simp]:
  "ps_world (join_call i ctx k st) = ps_world st" "ps_gate (join_call i ctx k st) = ps_gate st"
  "ps_inflight (join_call i ctx k st) = ps_inflight st"
  "ps_calls (join_call i ctx k st) = (ps_calls st)[k := (ps_calls st ! k)\<lparr>rc_waiters := rc_waiters (ps_calls st ! k) + 1\<rparr>]"
  "ps_callers (join_call i ctx k st) = (ps_callers st)(i := Waiting ctx k)"
  by (simp_all add: join_call_def)

section \<open>The invariant of the shared state\<close>

fun holds_gate :: "caller \<Rightarrow> bool" where
  "holds_gate (HasGate ctx rq) = True"
| "holds_gate (Reading ctx rq) = True"
| "holds_gate (Loaded ctx rq s) = True"
| "holds_gate _ = False"

fun decided :: "caller \<Rightarrow> bool" where
  "decided (Reading ctx rq) = True"
| "decided (Loaded ctx rq s) = True"
| "decided _ = False"

definition calls_inv :: "refresh_call list \<Rightarrow> nat option \<Rightarrow> bool" where
  "calls_inv cs f \<longleftrightarrow>
     (\<forall>k < length cs. (rc_done (cs ! k) \<longleftrightarrow> rc_job (cs ! k) = JDone) \<and> (\<not> rc_done (cs ! k) \<longleftrightarrow> f = Some k)) \<and>
     (\<forall>k. f = Some k \<longrightarrow> Suc k = length cs)"

definition callers_inv :: "(nat \<Rightarrow> caller) \<Rightarrow> nat option \<Rightarrow> nat option \<Rightarrow> nat \<Rightarrow> bool" where
  "callers_inv th g f n \<longleftrightarrow>
     (\<forall>i. (holds_gate (th i) \<longleftrightarrow> g = Some i) \<and> (decided (th i) \<longrightarrow> f = None) \<and>
          (\<forall>ctx k. th i = Waiting ctx k \<longrightarrow> k < n))"

definition prov_inv :: "pstate \<Rightarrow> bool" where
  "prov_inv st \<longleftrightarrow> calls_inv (ps_calls st) (ps_inflight st) \<and>
     callers_inv (ps_callers st) (ps_gate st) (ps_inflight st) (length (ps_calls st))"

text \<open>How the parts change.\<close>

lemma calls_inv_update:
  "calls_inv cs f \<Longrightarrow> rc_done (g (cs ! k)) = rc_done (cs ! k) \<Longrightarrow> rc_job (g (cs ! k)) = rc_job (cs ! k) \<Longrightarrow>
   calls_inv (cs[k := g (cs ! k)]) f"
  by (cases "k < length cs") (auto simp: calls_inv_def nth_list_update list_update_beyond)

lemma calls_inv_new:
  "calls_inv cs None \<Longrightarrow> calls_inv (cs @ [new_call ctx s]) (Some (length cs))"
  by (auto simp: calls_inv_def nth_append new_call_def)

lemma callers_inv_free:
  "callers_inv th g f n \<Longrightarrow> \<not> holds_gate (th i) \<Longrightarrow> \<not> holds_gate c \<Longrightarrow> (\<And>ctx k. c = Waiting ctx k \<Longrightarrow> k < n) \<Longrightarrow>
   callers_inv (th(i := c)) g f n"
  by (auto simp: callers_inv_def elim: decided.elims)

lemma callers_inv_unlock:
  "callers_inv th g f n \<Longrightarrow> holds_gate (th i) \<Longrightarrow> \<not> holds_gate c \<Longrightarrow> (\<And>ctx k. c = Waiting ctx k \<Longrightarrow> k < n) \<Longrightarrow>
   callers_inv (th(i := c)) None f n"
  by (auto simp: callers_inv_def elim: decided.elims)

lemma callers_inv_lock:
  "callers_inv th None f n \<Longrightarrow> callers_inv (th(i := HasGate ctx rq)) (Some i) f n"
  by (auto simp: callers_inv_def)

lemma callers_inv_keep:
  "callers_inv th g None n \<Longrightarrow> holds_gate (th i) \<Longrightarrow> holds_gate c \<Longrightarrow> callers_inv (th(i := c)) g None n"
  by (auto simp: callers_inv_def elim: holds_gate.elims)

lemma callers_inv_publish:
  "callers_inv th g None n \<Longrightarrow> holds_gate (th i) \<Longrightarrow> callers_inv (th(i := Waiting ctx n)) None (Some n) (Suc n)"
  by (auto simp: callers_inv_def elim!: decided.elims)

lemma callers_inv_finish: "callers_inv th g f n \<Longrightarrow> callers_inv th g None n"
  by (simp add: callers_inv_def)

lemma inflight_bound: "prov_inv st \<Longrightarrow> ps_inflight st = Some k \<Longrightarrow> k < length (ps_calls st)"
  by (auto simp: prov_inv_def calls_inv_def)

lemma enter_inv:
  "prov_inv st \<Longrightarrow> \<not> holds_gate (ps_callers st i) \<Longrightarrow> prov_inv (enter_step p i ctx rq st)"
  using inflight_bound [of st]
  by (auto simp: enter_step_def prov_inv_def intro!: calls_inv_update callers_inv_free
      split: option.splits prod.splits)

lemma gate_inv:
  "prov_inv st \<Longrightarrow> \<not> holds_gate (ps_callers st i) \<Longrightarrow> prov_inv (gate_step i ctx rq st)"
  by (auto simp: gate_step_def prov_inv_def intro!: callers_inv_lock callers_inv_free
      split: option.splits prod.splits)

lemma check_inv:
  "prov_inv st \<Longrightarrow> holds_gate (ps_callers st i) \<Longrightarrow> prov_inv (check_step i ctx rq st)"
  using inflight_bound [of st]
  by (auto simp: check_step_def prov_inv_def intro!: calls_inv_update callers_inv_unlock callers_inv_keep
      split: option.splits)

lemma read_inv:
  assumes "prov_inv st" "ps_callers st i = Reading ctx rq"
  shows "prov_inv (read_step S i ctx rq st)"
proof -
  have c: "callers_inv (ps_callers st) (ps_gate st) (ps_inflight st) (length (ps_calls st))"
    using assms(1) by (simp add: prov_inv_def)
  then have f: "ps_inflight st = None"
    using assms(2) by (auto simp: callers_inv_def dest: spec [of _ i])
  have h: "holds_gate (ps_callers st i)" using assms(2) by simp
  have "callers_inv ((ps_callers st)(i := Returned r)) None None (length (ps_calls st))" for r
    by (rule callers_inv_unlock [OF c [unfolded f] h]) simp_all
  moreover have "callers_inv ((ps_callers st)(i := Loaded ctx rq s)) (ps_gate st) None (length (ps_calls st))" for s
    by (rule callers_inv_keep [OF c [unfolded f] h]) simp
  ultimately show ?thesis
    using assms(1) f by (auto simp: read_step_def prov_inv_def split: sum.splits option.splits prod.splits)
qed

lemma decide_inv:
  "prov_inv st \<Longrightarrow> holds_gate (ps_callers st i) \<Longrightarrow> prov_inv (decide_step i ctx rq s st)"
  using inflight_bound [of st]
  by (auto simp: decide_step_def publish_def prov_inv_def intro!: calls_inv_update calls_inv_new
      callers_inv_unlock callers_inv_publish split: option.splits prod.splits decision.splits)

lemma wait_inv:
  "prov_inv st \<Longrightarrow> ps_callers st i = Waiting ctx k \<Longrightarrow> prov_inv (wait_step i ctx k st)"
  by (auto simp: wait_step_def prov_inv_def intro!: calls_inv_update callers_inv_free
      split: option.splits prod.splits)

lemma caller_inv:
  assumes "prov_inv st"
  shows "prov_inv (caller_step p i (ps_callers st i) st)"
  using assms
  by (cases "ps_callers st i")
     (auto intro: enter_inv gate_inv check_inv read_inv decide_inv wait_inv split: option.splits)

lemma job_inv:
  assumes "prov_inv st" "k < length (ps_calls st)"
  shows "prov_inv (job_step p k st)"
proof (cases "\<exists>t e. rc_job (ps_calls st ! k) = JFinish t e")
  case True
  then obtain t e where j: "rc_job (ps_calls st ! k) = JFinish t e" by blast
  have c: "calls_inv (ps_calls st) (ps_inflight st)"
    "callers_inv (ps_callers st) (ps_gate st) (ps_inflight st) (length (ps_calls st))"
    using assms(1) by (simp_all add: prov_inv_def)
  from c(1) assms(2) j have "\<not> rc_done (ps_calls st ! k)" by (auto simp: calls_inv_def)
  with c(1) assms(2) have f: "ps_inflight st = Some k" by (auto simp: calls_inv_def)
  have "calls_inv ((ps_calls st)[k := (ps_calls st ! k)\<lparr>rc_tokens := t, rc_err := e, rc_done := True, rc_job := JDone\<rparr>]) None"
    using c(1) f by (auto simp: calls_inv_def nth_list_update)
  with c(2) j f show ?thesis
    by (auto simp: job_step_def finishRefresh_def Let_def prov_inv_def intro: callers_inv_finish)
next
  case False
  have "calls_inv ((ps_calls st)[k := (ps_calls st ! k)\<lparr>rc_job := j\<rparr>]) (ps_inflight st)"
    if "job_next S a s (rc_job (ps_calls st ! k)) w = (j, w')" for S a s w j w'
  proof -
    have "j = JDone \<longleftrightarrow> rc_job (ps_calls st ! k) = JDone"
      using that False by (auto simp: job_next_def split: job.splits sum.splits prod.splits if_splits)
    with assms show ?thesis by (auto simp: prov_inv_def calls_inv_def nth_list_update)
  qed
  with assms(1) False show ?thesis
    by (auto simp: job_step_def prov_inv_def split: job.splits option.splits prod.splits)
qed

lemma reachable_inv: "reachable p ext w0 st \<Longrightarrow> prov_inv st"
proof (induction rule: reachable.induct)
  case (start st)
  have "\<not> holds_gate (ps_callers st i) \<and> \<not> decided (ps_callers st i) \<and> (\<forall>ctx k. ps_callers st i \<noteq> Waiting ctx k)" for i
    using start(5) by (metis caller.distinct(5) caller.distinct(9) decided.simps(3) holds_gate.simps(4) caller.distinct)
  with start show ?case by (auto simp: prov_inv_def calls_inv_def callers_inv_def)
next
  case (step st st')
  from step(2,3) show ?case
  proof cases
    case (caller i)
    with caller_inv [OF step(3)] show ?thesis by simp
  next
    case (job k)
    with job_inv [OF step(3)] show ?thesis by simp
  next
    case (outside w)
    with step(3) show ?thesis by (simp add: prov_inv_def)
  next
    case (external w)
    with step(3) show ?thesis by (simp add: prov_inv_def)
  qed
qed

section \<open>Rotation\<close>

lemma decide_Refresh: "decide rq stored w = (Refresh s, w') \<Longrightarrow> stored = Some s \<and> outside_step w w'"
  by (auto simp: decide_def intro: time_now_outside split: option.splits if_splits prod.splits bool.splits)

lemma decide_outside: "decide rq stored w = (d, w') \<Longrightarrow> outside_step w w'"
  by (auto simp: decide_def intro: time_now_outside split: option.splits if_splits prod.splits bool.splits)

lemma RefreshToken_outside:
  assumes "RefreshToken a ctx t w = (r, w')"
  shows "outside_step w w'"
proof -
  obtain e w1 where e: "requireContext ctx w = (e, w1)" by fastforce
  note s1 = requireContext_outside [OF e]
  obtain x w2 where x: "postForm a ctx ''/device/token'' (refresh_form t) w1 = (x, w2)" by fastforce
  have s2: "outside_step w w2" using s1 postForm_outside [OF x] by (rule outside_step_trans)
  have d: "outside_step w w3" if "decodeAuthTokens b w2 = (y, w3)" for b y w3
    using s2 decodeAuthTokens_outside [OF that] by (rule outside_step_trans)
  consider "w' = w1" | "w' = w2" | b y where "decodeAuthTokens b w2 = (y, w')"
    using assms e x by (auto simp: RefreshToken_def split: option.splits sum.splits if_splits prod.splits)
  then show ?thesis using s1 s2 d by cases blast+
qed

lemma outside_clock_ok: "outside_step w w' \<Longrightarrow> clock_ok w \<Longrightarrow> clock_ok w'"
  by (simp add: outside_step_def clock_ok_def)

lemma RefreshToken_ok:
  assumes "RefreshToken a ctx t w = (Inr r, w')" "clock_ok w"
  shows "auth_wf r \<and> auth_text_ok r"
proof -
  obtain e w1 where e: "requireContext ctx w = (e, w1)" by fastforce
  obtain x w2 where x: "postForm a ctx ''/device/token'' (refresh_form t) w1 = (x, w2)" by fastforce
  have "outside_step w w2"
    using requireContext_outside [OF e] postForm_outside [OF x] by (rule outside_step_trans)
  then have c: "clock_ok w2" using assms(2) by (rule outside_clock_ok)
  from assms(1) e x obtain b where "decodeAuthTokens b w2 = (Inr r, w')"
    by (auto simp: RefreshToken_def split: option.splits sum.splits if_splits prod.splits)
  from decodeAuthTokens_ok [OF this c] show ?thesis by simp
qed

lemma persist_pure: "callback_pure (persist_callback s r)"
  by (auto simp: callback_pure_def persist_callback_def split: option.splits if_splits)

text \<open>The failure of a refresh whose exchange succeeded and whose result could not be stored.\<close>

fun persist_failed :: "go_error option \<Rightarrow> bool" where
  "persist_failed (Some (Wrapf m [x])) = (m = ''stripelink: persist refreshed authentication'')"
| "persist_failed _ = False"

lemma persist_failed_form:
  "persist_failed (Some e) \<Longrightarrow> \<exists>x. e = Wrapf ''stripelink: persist refreshed authentication'' [x]"
  by (cases "Some e" rule: persist_failed.cases) auto

context auth_storage_contract
begin

lemma refresh_commit_spec:
  assumes "refresh_commit S ctx source r w = ((t, e), w')" "inv w" "storable (abs w)" "auth_wf r" "auth_text_ok r"
  shows "inv w' \<and> storable (abs w') \<and> (e = None \<longrightarrow> t = st_auth (abs w')) \<and> (e \<noteq> None \<longrightarrow> persist_failed e)"
proof -
  obtain cc w1 where d: "detachedAuthContext ctx w = (cc, w1)" by fastforce
  note k = ticks_keep [OF detachedAuthContext_ticks [OF d]]
  obtain oe cap where tr: "as_transact S cc (Some (persist_callback source r)) (no_captures\<lparr>cap_auth := Some r\<rparr>) w1 =
      ((oe, cap), w')" and oe: "(t, e) = (case oe of None \<Rightarrow> (cap_auth cap, None)
      | Some x \<Rightarrow> (None, Some (Wrapf ''stripelink: persist refreshed authentication'' [x])))"
    using assms(1) d by (auto simp: refresh_commit_def split: option.splits prod.splits)
  have i1: "inv w1" using k assms(2) by simp
  have "accepts_only (persist_callback source r) (no_captures\<lparr>cap_auth := Some r\<rparr>) (abs w1)
      (\<lambda>c s'. cap_auth c = st_auth s' \<and> storable s')"
    using assms(3-5) k by (intro accepts_onlyI) (auto simp: persist_callback_def storable_def state_ready_def
        state_text_ok_def split: option.splits if_splits)
  from transact_exact [OF tr persist_pure i1 this] oe k assms(3) show ?thesis by (cases oe) auto
qed

lemma refresh_fallback_spec:
  assumes "refresh_fallback S ctx source x w = ((t, e), w')" "inv w"
  shows "inv w' \<and> abs w' = abs w \<and> (e = None \<longrightarrow> t = st_auth (abs w))"
proof -
  obtain l w1 where l: "as_load S ctx w = (l, w1)" by fastforce
  have w': "w' = w1" using assms(1) l
    by (auto simp: refresh_fallback_def split: sum.splits option.splits if_splits)
  from load_keeps [OF l assms(2)] load_value [of ctx w _ w1] assms l w' show ?thesis
    by (auto simp: refresh_fallback_def split: sum.splits option.splits if_splits)
qed

end

text \<open>The calls against the stored credentials \<open>A\<close>: each successful call handed its tokens to the
  next one, each refused one its source, and what the last one left is what is stored.\<close>

definition refused :: "go_error option \<Rightarrow> bool" where
  "refused e \<longleftrightarrow> e \<noteq> None \<and> \<not> persist_failed e"

definition source_kept :: "job \<Rightarrow> go_error option \<Rightarrow> auth_tokens \<Rightarrow> auth_tokens option \<Rightarrow> bool" where
  "source_kept j err source A \<longleftrightarrow>
     (case j of
        JDone \<Rightarrow> refused err \<longrightarrow> A = Some source
      | JFinish t e \<Rightarrow> refused e \<longrightarrow> A = Some source
      | _ \<Rightarrow> A = Some source)"

definition last_ok :: "refresh_call \<Rightarrow> auth_tokens option \<Rightarrow> bool" where
  "last_ok c A \<longleftrightarrow>
     (\<forall>t. rc_job c = JFinish t None \<longrightarrow> t = A) \<and> (rc_job c = JDone \<and> rc_err c = None \<longrightarrow> rc_tokens c = A) \<and>
     (\<forall>ctx r. rc_job c = JPersist ctx r \<longrightarrow> auth_wf r \<and> auth_text_ok r) \<and>
     source_kept (rc_job c) (rc_err c) (rc_source c) A"

definition handed_on :: "refresh_call \<Rightarrow> refresh_call \<Rightarrow> bool" where
  "handed_on c d \<longleftrightarrow> (rc_err c = None \<longrightarrow> rc_tokens c = Some (rc_source d)) \<and>
     (refused (rc_err c) \<longrightarrow> rc_source d = rc_source c)"

definition rotation :: "refresh_call list \<Rightarrow> auth_tokens option \<Rightarrow> bool" where
  "rotation cs A \<longleftrightarrow> (\<forall>i. Suc i < length cs \<longrightarrow> handed_on (cs ! i) (cs ! Suc i)) \<and>
     (cs \<noteq> [] \<longrightarrow> last_ok (cs ! (length cs - 1)) A)"

lemma rotation_waiters:
  "rotation cs A \<Longrightarrow> rotation (cs[k := (cs ! k)\<lparr>rc_waiters := n\<rparr>]) A"
  by (cases "k < length cs")
     (auto simp: rotation_def handed_on_def last_ok_def nth_list_update list_update_beyond)

lemma rotation_new:
  assumes "rotation cs (Some s)" "calls_inv cs None"
  shows "rotation (cs @ [new_call ctx s]) (Some s)"
proof -
  have "handed_on (cs ! i) ((cs @ [new_call ctx s]) ! Suc i)" if i: "i < length cs" for i
  proof (cases "Suc i < length cs")
    case True
    with assms(1) i show ?thesis by (simp add: rotation_def nth_append)
  next
    case False
    with i have e: "Suc i = length cs" by simp
    then have "cs ! (length cs - 1) = cs ! i" by (metis diff_Suc_1)
    moreover have "rc_job (cs ! i) = JDone" using assms(2) i by (auto simp: calls_inv_def)
    ultimately show ?thesis
      using assms(1) i e by (auto simp: rotation_def handed_on_def last_ok_def source_kept_def new_call_def nth_append)
  qed
  then show ?thesis by (auto simp: rotation_def nth_append last_ok_def source_kept_def new_call_def)
qed

lemma rotation_last:
  assumes "rotation cs A" "Suc k = length cs" "rc_source c = rc_source (cs ! k)" "last_ok c B"
  shows "rotation (cs[k := c]) B"
  using assms by (auto simp: rotation_def handed_on_def nth_list_update)

context auth_storage_contract
begin

definition rot_inv :: "pstate \<Rightarrow> bool" where
  "rot_inv st \<longleftrightarrow> prov_inv st \<and> inv (ps_world st) \<and> storable (abs (ps_world st)) \<and>
     (\<forall>i ctx rq s. ps_callers st i = Loaded ctx rq s \<longrightarrow> s = st_auth (abs (ps_world st))) \<and>
     rotation (ps_calls st) (st_auth (abs (ps_world st)))"

text \<open>A step of a caller: the session is as before, and a \<open>Loaded\<close> caller saw it.\<close>

lemma rot_caller:
  assumes "rot_inv st" "pv_storage p = Some S"
  shows "rot_inv (caller_step p i (ps_callers st i) st)"
proof -
  let ?st = "caller_step p i (ps_callers st i) st" and ?w = "ps_world st"
  have pi: "prov_inv ?st" using assms(1) caller_inv by (simp add: rot_inv_def)
  have rot: "rotation (ps_calls st) (st_auth (abs ?w))" and ld: "\<And>j ctx rq s. ps_callers st j = Loaded ctx rq s \<Longrightarrow>
      s = st_auth (abs ?w)" and iw: "inv ?w" "storable (abs ?w)"
    using assms(1) by (auto simp: rot_inv_def)
  have key: ?thesis if "abs (ps_world ?st) = abs ?w \<and> inv (ps_world ?st)"
    "rotation (ps_calls ?st) (st_auth (abs ?w))"
    "\<And>ctx rq s. ps_callers ?st i = Loaded ctx rq s \<Longrightarrow> s = st_auth (abs ?w)"
    "\<And>j. j \<noteq> i \<Longrightarrow> ps_callers ?st j = ps_callers st j"
    using that pi ld iw unfolding rot_inv_def by metis
  show ?thesis
  proof (cases "ps_callers st i")
    case (Entering ctx rq)
    with outside_keep [OF requireContext_outside] rot iw show ?thesis
      by (intro key) (auto simp: enter_step_def intro!: rotation_waiters split: option.splits prod.splits if_splits)
  next
    case (AtGate ctx rq)
    with outside_keep [OF ticks_outside [OF contextFailure_ticks]] rot iw show ?thesis
      by (intro key) (auto simp: gate_step_def split: option.splits prod.splits if_splits)
  next
    case (HasGate ctx rq)
    with rot iw show ?thesis
      by (intro key) (auto simp: check_step_def intro!: rotation_waiters split: option.splits)
  next
    case (Reading ctx rq)
    obtain l w1 where l: "as_load S ctx ?w = (l, w1)" by fastforce
    from load_keeps [OF l iw(1)] load_value [of ctx ?w _ w1] l Reading assms(2) rot iw show ?thesis
      by (intro key) (auto simp: read_step_def split: sum.splits option.splits)
  next
    case (Loaded ctx rq s)
    have f: "ps_inflight st = None" "calls_inv (ps_calls st) None"
      using assms(1) Loaded by (auto simp: rot_inv_def prov_inv_def callers_inv_def dest: spec [of _ i])
    obtain d w1 where d: "decide rq s ?w = (d, w1)" by fastforce
    note k1 = outside_keep [OF decide_outside [OF d]]
    obtain c w2 where c: "detachedAuthContext ctx w1 = (c, w2)" by fastforce
    note k2 = ticks_keep [OF detachedAuthContext_ticks [OF c]]
    have "rotation (ps_calls st @ [new_call c x]) (st_auth (abs ?w))" if "d = Refresh x" for x
      using decide_Refresh [OF d [unfolded that]] ld [OF Loaded] rotation_new rot f(2) by metis
    with Loaded f d c k1 k2 rot iw show ?thesis
      by (intro key) (auto simp: decide_step_def publish_def split: decision.splits)
  next
    case (Waiting ctx k)
    with outside_keep [OF ticks_outside [OF contextFailure_ticks]] rot iw show ?thesis
      by (intro key) (auto simp: wait_step_def intro!: rotation_waiters split: option.splits prod.splits if_splits)
  next
    case (Returned r)
    with assms(1) show ?thesis by simp
  qed
qed

end

lemma job_next_JDone: "job_next S a source JDone w = (JDone, w)"
  by (simp add: job_next_def)

context auth_storage_contract
begin

lemma job_next_spec:
  assumes "job_next S a source j w = (j', w')" "inv w" "storable (abs w)"
    and "\<forall>ctx r. j = JPersist ctx r \<longrightarrow> auth_wf r \<and> auth_text_ok r"
    and "source_kept j None source (st_auth (abs w))" "\<forall>t e. j \<noteq> JFinish t e" "j \<noteq> JDone"
  shows "inv w' \<and> storable (abs w') \<and> (\<forall>t. j' = JFinish t None \<longrightarrow> t = st_auth (abs w')) \<and>
    (\<forall>ctx r. j' = JPersist ctx r \<longrightarrow> auth_wf r \<and> auth_text_ok r) \<and>
    (\<forall>err. source_kept j' err source (st_auth (abs w')))"
proof (cases j)
  case (JExchange ctx)
  obtain x w1 where x: "RefreshToken a ctx (at_refresh_token source) w = (x, w1)" by fastforce
  note k = outside_keep [OF RefreshToken_outside [OF x]]
  have "auth_wf r \<and> auth_text_ok r" if "x = Inr r" for r
    using RefreshToken_ok [OF x [unfolded that] inv_clock [OF assms(2)]] .
  with assms(1-3,5) JExchange x k show ?thesis
    by (auto simp: job_next_def source_kept_def split: sum.splits if_splits)
next
  case (JFallback ctx e)
  with assms(1-3,5) refresh_fallback_spec [of ctx source e w _ _ w'] show ?thesis
    by (auto simp: job_next_def source_kept_def split: prod.splits)
next
  case (JPersist ctx r)
  with assms JPersist refresh_commit_spec [of ctx source r w _ _ w'] show ?thesis
    by (auto simp: job_next_def source_kept_def refused_def split: prod.splits)
qed (use assms in \<open>auto simp: job_next_def\<close>)

lemma rot_job:
  assumes "rot_inv st" "pv_storage p = Some S" "k < length (ps_calls st)"
  shows "rot_inv (job_step p k st)"
proof -
  let ?c = "ps_calls st ! k" and ?w = "ps_world st"
  have pi: "prov_inv st" and rot: "rotation (ps_calls st) (st_auth (abs ?w))"
    and iw: "inv ?w" "storable (abs ?w)" and ci: "calls_inv (ps_calls st) (ps_inflight st)"
    using assms(1) by (auto simp: rot_inv_def prov_inv_def)
  have pj: "prov_inv (job_step p k st)" by (rule job_inv [OF pi assms(3)])
  have callers: "ps_callers (job_step p k st) = ps_callers st"
    by (auto simp: job_step_def finishRefresh_def Let_def split: job.splits option.splits prod.splits)
  show ?thesis
  proof (cases "rc_job ?c = JDone")
    case True
    have "rotation ((ps_calls st)[k := ?c\<lparr>rc_job := JDone\<rparr>]) A = rotation (ps_calls st) A" for A
      using True by (metis list_update_id refresh_call.surjective refresh_call.update_convs(6))
    with True pj callers assms(1) show ?thesis
      by (auto simp: rot_inv_def job_step_def job_next_JDone split: option.splits)
  next
    case active: False
    with ci assms(3) have f: "ps_inflight st = Some k" "Suc k = length (ps_calls st)" by (auto simp: calls_inv_def)
    have none: "ps_callers st i \<noteq> Loaded ctx rq s" for i ctx rq s
      using pi f(1) by (auto simp: prov_inv_def callers_inv_def dest!: spec [of _ i])
    have last: "last_ok ?c (st_auth (abs ?w))"
      using rot f(2) unfolding rotation_def by (metis assms(3) diff_Suc_1 gr_implies_not0 list.size(3))
    show ?thesis
    proof (cases "\<exists>t e. rc_job ?c = JFinish t e")
      case True
      then obtain t e where j: "rc_job ?c = JFinish t e" by blast
      let ?d = "?c\<lparr>rc_tokens := t, rc_err := e, rc_done := True, rc_job := JDone\<rparr>"
      have "last_ok ?d (st_auth (abs ?w))" using last j by (auto simp: last_ok_def source_kept_def)
      then have "rotation ((ps_calls st)[k := ?d]) (st_auth (abs ?w))"
        by (intro rotation_last [OF rot f(2)]) simp_all
      with j pj none iw callers f(1) show ?thesis
        by (auto simp: rot_inv_def job_step_def finishRefresh_def Let_def)
    next
      case False
      show ?thesis
      proof (cases "pv_auth p")
        case None
        with False assms(1,2) show ?thesis by (auto simp: job_step_def split: job.splits)
      next
        case (Some a)
        obtain j' w' where n: "job_next S a (rc_source ?c) (rc_job ?c) ?w = (j', w')" by fastforce
        have g: "\<forall>ctx r. rc_job ?c = JPersist ctx r \<longrightarrow> auth_wf r \<and> auth_text_ok r"
          using last by (auto simp: last_ok_def)
        have kept: "source_kept (rc_job ?c) None (rc_source ?c) (st_auth (abs ?w))"
          using last active by (simp add: last_ok_def source_kept_def split: job.splits)
        have nf: "\<forall>t e. rc_job ?c \<noteq> JFinish t e" using False by blast
        from job_next_spec [OF n iw g kept nf active] have s: "inv w'" "storable (abs w')"
          "\<And>t. j' = JFinish t None \<Longrightarrow> t = st_auth (abs w')" "\<And>ctx r. j' = JPersist ctx r \<Longrightarrow> auth_wf r \<and> auth_text_ok r"
          "\<And>err. source_kept j' err (rc_source ?c) (st_auth (abs w'))"
          by blast+
        have "j' \<noteq> JDone"
          using n active False by (auto simp: job_next_def split: job.splits sum.splits prod.splits if_splits)
        with s have "last_ok (?c\<lparr>rc_job := j'\<rparr>) (st_auth (abs w'))" by (auto simp: last_ok_def)
        then have "rotation ((ps_calls st)[k := ?c\<lparr>rc_job := j'\<rparr>]) (st_auth (abs w'))"
          by (intro rotation_last [OF rot f(2)]) simp_all
        moreover have "job_step p k st = update_call k (\<lambda>c. c\<lparr>rc_job := j'\<rparr>) (in_world w' st)"
          using False Some assms(2) n by (auto simp: job_step_def split: job.splits)
        ultimately show ?thesis using pj none s(1,2) callers by (auto simp: rot_inv_def)
      qed
    qed
  qed
qed

lemma reachable_rotation:
  assumes "reachable p False w0 st" "pv_storage p = Some S" "inv w0" "storable (abs w0)"
  shows "rot_inv st"
  using assms(1)
proof (induction rule: reachable.induct)
  case (start st)
  then have "prov_inv st" by (intro reachable_inv) (rule reachable.start)
  moreover have "ps_callers st i \<noteq> Loaded ctx rq s" for i ctx rq s
    using start(5) by (metis caller.distinct(7))
  ultimately show ?case using start assms(3,4) by (auto simp: rot_inv_def rotation_def)
next
  case (step st st')
  from step(2) show ?case
  proof cases
    case (caller i)
    with rot_caller [OF step(3) assms(2)] show ?thesis by simp
  next
    case (job k)
    with rot_job [OF step(3) assms(2)] show ?thesis by simp
  next
    case (outside w)
    with step(3) outside_keep [OF outside(2)] show ?thesis by (simp add: rot_inv_def prov_inv_def)
  qed simp
qed

end

end
