(* ===== verification/TokenSamples.thy ===== *)
theory TokenSamples
  imports TokenSpec
begin

text \<open>
  A concrete run of the token provider: a signed-in memory store and a server that answers every
  exchange. Two callers force a refresh one after the other.
\<close>

definition token_reply :: http_reply where
  "token_reply = Inr \<lparr>rs_status = 200, rs_headers = [], rs_body =
     Some \<lparr>hb_data = compact (enc_auth_tokens minute_tokens), hb_read_err = None, hb_close_err = None\<rparr>\<rparr>"

definition fresh_tokens :: auth_tokens where "fresh_tokens = minute_tokens\<lparr>at_expires_at := 60000\<rparr>"

text \<open>A machine at the epoch, signed in, whose server answers every request with the same tokens.\<close>

definition serving :: "world \<Rightarrow> bool" where
  "serving w \<longleftrightarrow> w_clock w = (\<lambda>_. 0) \<and> w_http w = (\<lambda>_ _. token_reply)"

definition half_minute :: go_context where "half_minute = Some (with_deadline background 30000000000)"

lemma half_minute_ok: "serving w \<Longrightarrow> contextFailure half_minute w = (None, tick w)"
  by (simp add: serving_def half_minute_def with_deadline_def background_def contextFailure_def time_now_def ctx_done_def)

lemma parse_token_url: "\<exists>u. url_parse ''https://login.link.com/device/token'' = Some u"
proof -
  have "url_parse ''https://login.link.com/device/token'' \<noteq> None" by code_simp
  then show ?thesis by simp
qed

lemma tokens_reply_small: "int (length (compact (enc_auth_tokens minute_tokens))) \<le> 1048576"
proof -
  have "length (compact (enc_auth_tokens minute_tokens)) \<le> 1000" by code_simp
  then show ?thesis by simp
qed

lemma serving_refresh:
  assumes "serving w"
  shows "\<exists>w'. RefreshToken sample_resource half_minute ''R'' w = (Inr fresh_tokens, w')"
proof -
  obtain u where u: "url_parse ''https://login.link.com/device/token'' = Some u" using parse_token_url by blast
  have d: "decodeRequiredJSON dec_auth_tokens (compact (enc_auth_tokens minute_tokens)) = Inr minute_tokens"
    by (rule decode_printed_tokens)
       (simp add: minute_tokens_def auth_text_ok_def in_int64_def min_int64_def max_int64_def valid_utf8_ascii byte_def)
  have t: "trim_space ''R'' = ''R''" by code_simp
  have rc: "requireContext half_minute v = (None, tick v)" if "w_clock v = (\<lambda>_. 0)" for v
    using half_minute_ok [of "v\<lparr>w_http := (\<lambda>_ _. token_reply)\<rparr>"] that
    by (simp add: requireContext_eq half_minute_def contextFailure_def time_now_def ctx_done_def with_deadline_def background_def)
  have hm: "half_minute \<noteq> None" by (simp add: half_minute_def)
  show ?thesis
    using assms u t post_method tokens_reply_small hm
    by (simp add: RefreshToken_def rc serving_def postForm_def form_request_def sample_resource_def sample_core_def
        core_do_def maximum_attempts_def do_loop_last doAttempt_def new_request_def httpClient_Do_def peer_def
        token_reply_def write_log_def readBoundedAndClose_def read_limited_def max_int64_def attempt_outcome_def
        Let_def is_2xx_def decodeAuthTokens_def d)
       (simp add: minute_tokens_def fresh_tokens_def time_now_def absoluteExpiry_def go_div_def seconds_def max_int64_def wrap64_def unix_milli_def)
qed

lemma serving_outside: "outside_step w w' \<Longrightarrow> serving w \<Longrightarrow> serving w'"
  by (simp add: outside_step_def serving_def)

lemma serving_persist:
  assumes "serving w" "w_mem w = Some s" "st_auth s = Some src" "at_access_token src \<noteq> []" "st_pending s = None"
  shows "\<exists>w'. refresh_commit MemoryStorage half_minute src fresh_tokens w = ((Some fresh_tokens, None), w') \<and>
    serving w' \<and> w_mem w' = Some (s\<lparr>st_auth := Some fresh_tokens\<rparr>)"
proof -
  have c: "contextFailure half_minute v = (None, tick v)" if "w_clock v = (\<lambda>_. 0)" for v
    using that by (simp add: half_minute_def contextFailure_def time_now_def ctx_done_def with_deadline_def background_def)
  have g: "storageGate_lock half_minute v = (None, tick (tick v))" if "w_clock v = (\<lambda>_. 0)" for v
    using c [OF that] c [of "tick v"] that by (simp add: storageGate_lock_def half_minute_def)
  have d: "detachedAuthContext half_minute w = (half_minute, tick w)"
    using assms(1) by (simp add: detachedAuthContext_def time_now_def serving_def half_minute_def
        detachedAuthOperationTimeout_def seconds_def)
  have f: "auth_wf fresh_tokens"
    by (simp add: fresh_tokens_def minute_tokens_def auth_wf_def auth_fields_ok_def)
  from assms show ?thesis
    by (simp add: refresh_commit_def d MemoryStorage_Transact_def serving_def g c persist_callback_def time_now_def
        prepareStorageSnapshot_def prepareAuth_fixed f no_captures_def)
qed

definition forced_again :: access_token_request where
  "forced_again = \<lparr>tr_ForceRefresh = True, tr_RejectedToken = ''A''\<rparr>"

definition sample_provider :: provider where
  "sample_provider = \<lparr>pv_storage = Some MemoryStorage, pv_auth = Some sample_resource\<rparr>"

definition idle :: "pstate \<Rightarrow> bool" where
  "idle st \<longleftrightarrow> serving (ps_world st) \<and> ps_gate st = None \<and> ps_inflight st = None \<and>
     (\<exists>s src. w_mem (ps_world st) = Some s \<and> st_auth s = Some src \<and> st_pending s = None \<and>
        at_access_token src = ''A'' \<and> at_refresh_token src = ''R'')"

lemma idle_publishes:
  assumes "idle st" "ps_callers st i = Entering (Some background) forced_again"
  shows "\<exists>w src. run sample_provider [Caller i, Caller i, Caller i, Caller i, Caller i] st =
     st\<lparr>ps_world := w, ps_inflight := Some (length (ps_calls st)),
        ps_calls := ps_calls st @ [new_call half_minute src],
        ps_callers := (ps_callers st)(i := Waiting (Some background) (length (ps_calls st)))\<rparr> \<and>
     serving w \<and> w_mem w = w_mem (ps_world st) \<and> (\<exists>s. w_mem w = Some s \<and> st_auth s = Some src \<and> st_pending s = None) \<and>
     at_access_token src = ''A'' \<and> at_refresh_token src = ''R''"
proof -
  from assms(1) obtain s src where w: "serving (ps_world st)" "ps_gate st = None" "ps_inflight st = None"
    "w_mem (ps_world st) = Some s" "st_auth s = Some src" "st_pending s = None"
    "at_access_token src = ''A''" "at_refresh_token src = ''R''" by (auto simp: idle_def)
  have d: "detachedAuthContext (Some background) v = (half_minute, tick v)" if "w_clock v = (\<lambda>_. 0)" for v
    using that by (simp add: detachedAuthContext_def time_now_def half_minute_def
        detachedAuthOperationTimeout_def seconds_def)
  from w assms(2) show ?thesis
    by (cases st) (simp add: sample_provider_def enter_step_def requireContext_eq contextFailure_background
        gate_step_def check_step_def read_step_def MemoryStorage_Load_def storageGate_background
        decide_step_def decide_def forced_again_def publish_def d serving_def goto_def in_world_def unlock_def)
qed

lemma run_append: "run p (xs @ ys) st = run p ys (run p xs st)"
  by (induction xs arbitrary: st) auto

definition refresh_schedule :: "nat \<Rightarrow> nat \<Rightarrow> pick list" where
  "refresh_schedule i k = [Caller i, Caller i, Caller i, Caller i, Caller i] @ [Job k, Job k, Job k]"

lemma idle_refreshes:
  assumes "idle st" "ps_callers st i = Entering (Some background) forced_again"
  shows "\<exists>c. idle (run sample_provider (refresh_schedule i (length (ps_calls st))) st) \<and>
    ps_calls (run sample_provider (refresh_schedule i (length (ps_calls st))) st) = ps_calls st @ [c] \<and>
    rc_err c = None \<and> rc_tokens c = Some fresh_tokens \<and>
    (\<forall>j. j \<noteq> i \<longrightarrow> ps_callers (run sample_provider (refresh_schedule i (length (ps_calls st))) st) j = ps_callers st j)"
proof -
  from idle_publishes [OF assms] obtain w src s where p: "run sample_provider [Caller i, Caller i, Caller i, Caller i, Caller i] st =
     st\<lparr>ps_world := w, ps_inflight := Some (length (ps_calls st)),
        ps_calls := ps_calls st @ [new_call half_minute src],
        ps_callers := (ps_callers st)(i := Waiting (Some background) (length (ps_calls st)))\<rparr>"
     "serving w" "w_mem w = Some s" "st_auth s = Some src" "st_pending s = None"
     "at_access_token src = ''A''" "at_refresh_token src = ''R''" by blast
  from serving_refresh [OF p(2)] obtain w1 where w1: "RefreshToken sample_resource half_minute ''R'' w = (Inr fresh_tokens, w1)"
    by blast
  note o = RefreshToken_outside [OF w1]
  have s1: "serving w1" "w_mem w1 = Some s" using serving_outside [OF o p(2)] o p(3) by (auto simp: outside_step_def)
  from serving_persist [OF s1 p(4) _ p(5)] p(6) obtain w2 where
    w2: "refresh_commit MemoryStorage half_minute src fresh_tokens w1 = ((Some fresh_tokens, None), w2)"
      "serving w2" "w_mem w2 = Some (s\<lparr>st_auth := Some fresh_tokens\<rparr>)" by auto
  have f: "at_access_token fresh_tokens = ''A''" "at_refresh_token fresh_tokens = ''R''"
    by (simp_all add: fresh_tokens_def minute_tokens_def)
  have g: "ps_gate st = None" using assms(1) by (simp add: idle_def)
  show ?thesis
    unfolding refresh_schedule_def run_append p(1)
    using w1 w2 f p(5,7) g
    by (simp add: job_step_def new_call_def sample_provider_def job_next_def nth_append finishRefresh_def
        update_call_def in_world_def Let_def idle_def)
qed

definition start_state :: pstate where
  "start_state = \<lparr>ps_world = early_world\<lparr>w_mem := Some (empty_state\<lparr>st_auth := Some sample_auth\<rparr>),
       w_http := (\<lambda>_ _. token_reply)\<rparr>, ps_gate = None, ps_inflight = None, ps_calls = [],
     ps_callers = (\<lambda>_. Entering (Some background) forced_again)\<rparr>"

lemma start_idle: "idle start_state"
  by (simp add: idle_def start_state_def serving_def early_world_def sample_auth_def empty_state_def)

definition rotated_twice :: pstate where
  "rotated_twice = run sample_provider (refresh_schedule 0 0 @ refresh_schedule 1 1) start_state"

lemma rotated_twice:
  "reachable sample_provider ext (ps_world start_state) rotated_twice" "length (ps_calls rotated_twice) = 2"
  "rc_err (ps_calls rotated_twice ! 0) = None" "rc_tokens (ps_calls rotated_twice ! 0) = Some fresh_tokens"
proof -
  have "reachable sample_provider ext (ps_world start_state) start_state"
    by (rule reachable.start) (simp_all add: start_state_def)
  then show "reachable sample_provider ext (ps_world start_state) rotated_twice"
    unfolding rotated_twice_def by (rule reachable_run)
  let ?a = "run sample_provider (refresh_schedule 0 0) start_state"
  have c0: "ps_calls start_state = []" by (simp add: start_state_def)
  from idle_refreshes [OF start_idle, of 0] obtain c where
    c: "idle ?a" "ps_calls ?a = [c]" "rc_err c = None" "rc_tokens c = Some fresh_tokens"
      "ps_callers ?a 1 = ps_callers start_state 1"
    unfolding c0 by (auto simp: start_state_def)
  from idle_refreshes [OF c(1), of 1] c(2,5) obtain d where
    "ps_calls rotated_twice = [c, d]"
    unfolding rotated_twice_def run_append by (auto simp: start_state_def)
  with c(3,4) show "length (ps_calls rotated_twice) = 2" "rc_err (ps_calls rotated_twice ! 0) = None"
    "rc_tokens (ps_calls rotated_twice ! 0) = Some fresh_tokens" by simp_all
qed
end
