(* ===== verification/TokenTheorems.thy ===== *)
theory TokenTheorems
  imports TokenSamples
begin

text \<open>
  What the token provider guarantees of any interleaving of its callers: refreshes are
  single-flight, each refresh starts from what the one before it stored, every caller can return in a
  bounded number of steps, and a stale rejection does not rotate.
\<close>

text \<open>C5: refreshes are single-flight: in every reachable state, whatever the schedule and whatever
  other processes do to the storage, at most one refresh is running; it is the newest one and the
  one every new caller joins.\<close>

theorem single_flight:
  assumes "reachable p ext w0 st" "k < length (ps_calls st)" "rc_job (ps_calls st ! k) \<noteq> JDone"
  shows "Suc k = length (ps_calls st) \<and> ps_inflight st = Some k \<and>
    (\<forall>j < length (ps_calls st). j \<noteq> k \<longrightarrow> rc_job (ps_calls st ! j) = JDone \<and> rc_done (ps_calls st ! j))"
proof -
  have c: "calls_inv (ps_calls st) (ps_inflight st)"
    using reachable_inv [OF assms(1)] by (simp add: prov_inv_def)
  with assms(2,3) have f: "ps_inflight st = Some k" by (auto simp: calls_inv_def)
  moreover have "rc_done (ps_calls st ! j)" if "j < length (ps_calls st)" "j \<noteq> k" for j
    using c f that by (auto simp: calls_inv_def)
  ultimately show ?thesis using c by (auto simp: calls_inv_def)
qed

definition one_running :: pstate where
  "one_running = run sample_provider [Caller 0, Caller 0, Caller 0, Caller 0, Caller 0, Caller 1] start_state"

lemma one_running: "length (ps_calls one_running) = 1" "rc_job (ps_calls one_running ! 0) \<noteq> JDone"
  "ps_callers one_running 2 = Entering (Some background) forced_again"
proof -
  have c: "ps_callers start_state 0 = Entering (Some background) forced_again" by (simp add: start_state_def)
  have r: "one_running = run sample_provider [Caller 1]
      (run sample_provider [Caller 0, Caller 0, Caller 0, Caller 0, Caller 0] start_state)"
    by (simp add: one_running_def)
  from idle_publishes [OF start_idle c] obtain w src where
    "run sample_provider [Caller 0, Caller 0, Caller 0, Caller 0, Caller 0] start_state =
     start_state\<lparr>ps_world := w, ps_inflight := Some 0, ps_calls := [new_call half_minute src],
        ps_callers := (ps_callers start_state)(0 := Waiting (Some background) 0)\<rparr>" "serving w"
    by (auto simp: start_state_def)
  then have "ps_calls one_running = [(new_call half_minute src)\<lparr>rc_waiters := 2\<rparr>] \<and>
      ps_callers one_running 2 = Entering (Some background) forced_again"
    unfolding r by (simp add: start_state_def enter_step_def requireContext_eq contextFailure_background
        sample_provider_def new_call_def)
  then show "length (ps_calls one_running) = 1" "rc_job (ps_calls one_running ! 0) \<noteq> JDone"
    "ps_callers one_running 2 = Entering (Some background) forced_again"
    by (simp_all add: new_call_def)
qed

theorem single_flight_witness: "ps_inflight one_running = Some 0"
proof -
  have "reachable sample_provider True (ps_world start_state) one_running"
    unfolding one_running_def by (intro reachable_run reachable.start) (simp_all add: start_state_def)
  from single_flight [OF this, of 0] one_running show ?thesis by simp
qed

text \<open>C3: as long as only the provider writes the session, consecutive refreshes chain, however the callers,
  goroutines and cancellations interleave and whatever the storage and the server answer: after a
  refresh that succeeded, the next one presents exactly the tokens that one obtained, so the
  credential it consumed is not presented again; after one that failed before persisting, the next one
  presents the same tokens. Only a refresh that obtained tokens and failed to persist them leaves
  open which credential comes next.\<close>

theorem rotation_chain:
  assumes "package_storage S st ok" "pv_storage p = Some S" "ok w0" "storable (st w0)"
    and "reachable p False w0 s" "Suc i < length (ps_calls s)"
    and "c = ps_calls s ! i" "d = ps_calls s ! Suc i"
  shows "case rc_err c of
      None \<Rightarrow> rc_tokens c = Some (rc_source d)
    | Some e \<Rightarrow> (\<exists>x. e = Wrapf ''stripelink: persist refreshed authentication'' [x]) \<or> rc_source d = rc_source c"
proof -
  note k = package_contract [OF assms(1)]
  from auth_storage_contract.reachable_rotation [OF k assms(5,2-4)] assms(6-8) have "handed_on c d"
    by (simp add: auth_storage_contract.rot_inv_def [OF k] rotation_def)
  then show ?thesis
    using persist_failed_form by (cases "rc_err c") (simp_all add: handed_on_def refused_def, blast)
qed

theorem rotation_chain_witness:
  "length (ps_calls rotated_twice) = 2 \<and> rc_source (ps_calls rotated_twice ! 1) = fresh_tokens"
proof -
  have "mem_inv (ps_world start_state)" "storable (mem_abs (ps_world start_state))"
    using early_world_ok(1) sample_auth_ok
    by (auto simp: start_state_def mem_inv_def mem_abs_def clock_ok_def state_wf_def storable_def state_ready_def
        state_text_ok_def empty_state_def auth_wf_def)
  note chain = rotation_chain [OF package_storage.memory _ this rotated_twice(1) _ refl refl]
  have "pv_storage sample_provider = Some MemoryStorage" by (simp add: sample_provider_def)
  from chain [OF this, of 0] rotated_twice(2-4) show ?thesis by simp
qed

text \<open>The phases a goroutine, and the sections a caller holding the gate, still have to run.\<close>

fun phases_left :: "job \<Rightarrow> nat" where
  "phases_left (JExchange c) = 3"
| "phases_left (JFallback c e) = 2"
| "phases_left (JPersist c r) = 2"
| "phases_left (JFinish t e) = 1"
| "phases_left JDone = 0"

lemma job_step_phases:
  assumes "pv_storage p = Some S" "pv_auth p = Some a" "k < length (ps_calls st)" "rc_job (ps_calls st ! k) \<noteq> JDone"
  shows "phases_left (rc_job (ps_calls (job_step p k st) ! k)) < phases_left (rc_job (ps_calls st ! k))"
proof (cases "\<exists>t e. rc_job (ps_calls st ! k) = JFinish t e")
  case True
  with assms show ?thesis by (auto simp: job_step_def finishRefresh_def Let_def)
next
  case False
  obtain j w where n: "job_next S a (rc_source (ps_calls st ! k)) (rc_job (ps_calls st ! k)) (ps_world st) = (j, w)"
    by fastforce
  have "phases_left j < phases_left (rc_job (ps_calls st ! k))"
    using n assms(4) False
    by (auto simp: job_next_def split: job.splits sum.splits prod.splits if_splits)
  moreover have "job_step p k st = update_call k (\<lambda>c. c\<lparr>rc_job := j\<rparr>) (in_world w st)"
    using False assms(1,2) n by (auto simp: job_step_def split: job.splits)
  ultimately show ?thesis using assms(3) by simp
qed

fun sections_left :: "caller \<Rightarrow> nat" where
  "sections_left (HasGate ctx rq) = 3"
| "sections_left (Reading ctx rq) = 2"
| "sections_left (Loaded ctx rq s) = 1"
| "sections_left _ = 0"

lemma phases_le_3: "phases_left j \<le> 3"
  by (cases j) simp_all

lemma sections_le_3: "sections_left c \<le> 3"
  by (cases c) simp_all

lemma job_step_callers: "ps_callers (job_step p k st) = ps_callers st"
  by (auto simp: job_step_def finishRefresh_def Let_def split: job.splits option.splits prod.splits)

lemma caller_step_others: "j \<noteq> i \<Longrightarrow> ps_callers (caller_step p i c st) j = ps_callers st j"
  by (cases c) (auto simp: enter_step_def gate_step_def check_step_def read_step_def decide_step_def publish_def
      wait_step_def split: option.splits prod.splits sum.splits decision.splits)

definition settled :: "caller \<Rightarrow> bool" where
  "settled c \<longleftrightarrow> (\<exists>r. c = Returned r) \<or> (\<exists>ctx k. c = Waiting ctx k)"

text \<open>A section of the caller that holds the gate brings it closer to releasing it.\<close>

lemma holder_step:
  assumes "prov_inv st" "pv_storage p = Some S" "ps_gate st = Some j"
  shows "let st' = caller_step p j (ps_callers st j) st in
    ps_gate st' = None \<and> settled (ps_callers st' j) \<or>
    ps_gate st' = Some j \<and> sections_left (ps_callers st' j) < sections_left (ps_callers st j)"
proof -
  have "holds_gate (ps_callers st j)" using assms(1,3) by (auto simp: prov_inv_def callers_inv_def)
  then show ?thesis using assms(2,3)
    by (cases "ps_callers st j") (auto simp: check_step_def read_step_def decide_step_def publish_def settled_def
        split: option.splits prod.splits sum.splits decision.splits)
qed

text \<open>Caller \<open>i\<close> can return within \<open>n\<close> steps of its own, of refresh goroutines and of the callers in \<open>W\<close>.\<close>

definition returns_within :: "provider \<Rightarrow> pick set \<Rightarrow> nat \<Rightarrow> nat \<Rightarrow> pstate \<Rightarrow> bool" where
  "returns_within p W n i st \<longleftrightarrow> (\<exists>ps r. length ps \<le> n \<and> set ps \<subseteq> insert (Caller i) (range Job \<union> W) \<and>
     ps_callers (run p ps st) i = Returned r)"

lemma returns_now: "ps_callers st i = Returned r \<Longrightarrow> returns_within p W n i st"
  unfolding returns_within_def by (intro exI [of _ "[]"]) simp

lemma returns_mono: "returns_within p W n i st \<Longrightarrow> n \<le> m \<Longrightarrow> returns_within p W m i st"
  unfolding returns_within_def by (meson le_trans)

lemma returns_after:
  assumes "returns_within p W n i (run_pick p x st)" "x \<in> insert (Caller i) (range Job \<union> W)"
  shows "returns_within p W (Suc n) i st"
proof -
  from assms(1) obtain ps r where "length ps \<le> n" "set ps \<subseteq> insert (Caller i) (range Job \<union> W)"
    "ps_callers (run p ps (run_pick p x st)) i = Returned r" by (auto simp: returns_within_def)
  with assms(2) show ?thesis unfolding returns_within_def by (intro exI [of _ "x # ps"]) auto
qed

lemma waiting_refresh_returns:
  assumes "prov_inv st" "ps_callers st i = Waiting ctx k" "phases_left (rc_job (ps_calls st ! k)) \<le> m"
    and "pv_storage p = Some S" "pv_auth p = Some a"
  shows "returns_within p W (Suc m) i st"
  using assms(1-3)
proof (induction m arbitrary: st)
  case (0 st)
  have k: "k < length (ps_calls st)" using 0(1,2) by (auto simp: prov_inv_def callers_inv_def)
  have "rc_job (ps_calls st ! k) = JDone" using 0(3) by (cases "rc_job (ps_calls st ! k)") simp_all
  with 0(1) k have "rc_done (ps_calls st ! k)" by (simp add: prov_inv_def calls_inv_def)
  with 0(2) show ?case by (intro returns_after [where x = "Caller i"] returns_now) (auto simp: wait_step_def)
next
  case (Suc m st)
  have k: "k < length (ps_calls st)" using Suc(2,3) by (auto simp: prov_inv_def callers_inv_def)
  show ?case
  proof (cases "rc_job (ps_calls st ! k) = JDone")
    case True
    with Suc(1) [OF Suc(2,3)] show ?thesis by (auto intro: returns_mono)
  next
    case False
    from job_step_phases [OF assms(4,5) k False] Suc(4)
    have "phases_left (rc_job (ps_calls (job_step p k st) ! k)) \<le> m" by simp
    from Suc(1) [OF job_inv [OF Suc(2) k] _ this] Suc(3) k
    show ?thesis using returns_after [of p W "Suc m" i "Job k" st] by (simp add: job_step_callers)
  qed
qed

lemma settled_returns:
  assumes "prov_inv st" "settled (ps_callers st i)" "pv_storage p = Some S" "pv_auth p = Some a"
  shows "returns_within p W 4 i st"
proof (cases "\<exists>r. ps_callers st i = Returned r")
  case True
  then show ?thesis by (auto intro: returns_now)
next
  case False
  with assms(2) obtain ctx k where "ps_callers st i = Waiting ctx k" by (auto simp: settled_def)
  from waiting_refresh_returns [OF assms(1) this phases_le_3 assms(3,4)] show ?thesis by (simp add: numeral_eq_Suc)
qed

lemma holder_returns:
  assumes "prov_inv st" "ps_gate st = Some i" "sections_left (ps_callers st i) \<le> n"
    and "pv_storage p = Some S" "pv_auth p = Some a"
  shows "returns_within p W (n + 4) i st"
  using assms(1-3)
proof (induction n arbitrary: st)
  case (0 st)
  from 0(1,2) have "holds_gate (ps_callers st i)" by (auto simp: prov_inv_def callers_inv_def)
  with 0(3) show ?case by (cases "ps_callers st i") simp_all
next
  case (Suc n st)
  let ?s = "caller_step p i (ps_callers st i) st"
  have inv: "prov_inv ?s" by (rule caller_inv [OF Suc(2)])
  have "returns_within p W (n + 4) i ?s"
  proof (cases "ps_gate ?s = Some i")
    case True
    with holder_step [OF Suc(2) assms(4) Suc(3)] Suc(4) show ?thesis
      by (intro Suc(1) inv) (auto simp: Let_def)
  next
    case False
    with holder_step [OF Suc(2) assms(4) Suc(3)] have "settled (ps_callers ?s i)" by (auto simp: Let_def)
    from settled_returns [OF inv this assms(4,5)] show ?thesis by (rule returns_mono) simp
  qed
  then show ?case using returns_after [of p W "n + 4" i "Caller i" st] by simp
qed

lemma free_gate_returns:
  assumes "prov_inv st" "ps_gate st = None" "ps_callers st i = AtGate ctx rq" "pv_storage p = Some S" "pv_auth p = Some a"
  shows "returns_within p W 8 i st"
proof -
  let ?s = "caller_step p i (ps_callers st i) st"
  have inv: "prov_inv ?s" by (rule caller_inv [OF assms(1)])
  have "(\<exists>r. ps_callers ?s i = Returned r) \<or> ps_gate ?s = Some i"
    using assms(2,3) by (auto simp: gate_step_def split: option.splits prod.splits)
  then have "returns_within p W 7 i ?s"
    using returns_now holder_returns [OF inv _ sections_le_3 assms(4,5)] by fastforce
  then show ?thesis using returns_after [of p W 7 i "Caller i" st] by simp
qed

lemma blocked_gate_returns:
  assumes "prov_inv st" "ps_callers st i = AtGate ctx rq" "ps_gate st = Some j" "sections_left (ps_callers st j) \<le> n"
    and "pv_storage p = Some S" "pv_auth p = Some a"
  shows "returns_within p {Caller j} (n + 8) i st"
  using assms(1-4)
proof (induction n arbitrary: st)
  case (0 st)
  from 0(1,3) have "holds_gate (ps_callers st j)" by (auto simp: prov_inv_def callers_inv_def)
  with 0(4) show ?case by (cases "ps_callers st j") simp_all
next
  case (Suc n st)
  let ?s = "caller_step p j (ps_callers st j) st"
  from Suc(2,4) have h: "holds_gate (ps_callers st j)" by (auto simp: prov_inv_def callers_inv_def)
  have i: "ps_callers ?s i = AtGate ctx rq" using h Suc(3) by (subst caller_step_others) auto
  have inv: "prov_inv ?s" by (rule caller_inv [OF Suc(2)])
  have "returns_within p {Caller j} (n + 8) i ?s"
  proof (cases "ps_gate ?s = Some j")
    case True
    with holder_step [OF Suc(2) assms(5) Suc(4)] Suc(5) show ?thesis
      by (intro Suc(1) inv i) (auto simp: Let_def)
  next
    case False
    with holder_step [OF Suc(2) assms(5) Suc(4)] have "ps_gate ?s = None" by (auto simp: Let_def)
    from free_gate_returns [OF inv this i assms(5,6)] show ?thesis by (rule returns_mono) simp
  qed
  then show ?case using returns_after [of p "{Caller j}" "n + 8" i "Caller j" st] by simp
qed

lemma at_gate_returns:
  assumes "prov_inv st" "ps_callers st i = AtGate ctx rq" "pv_storage p = Some S" "pv_auth p = Some a"
  shows "returns_within p {Caller j | j. ps_gate st = Some j} 11 i st"
proof (cases "ps_gate st")
  case None
  from free_gate_returns [OF assms(1) None assms(2-4)] show ?thesis by (rule returns_mono) simp
next
  case (Some j)
  then have "{Caller j | j. ps_gate st = Some j} = {Caller j}" by auto
  with blocked_gate_returns [OF assms(1,2) Some sections_le_3 assms(3,4)] show ?thesis by simp
qed

text \<open>C18: no caller of the token provider is ever stuck: from every reachable state twelve steps make it
  return, each of them its own, of a refresh goroutine, or of the one caller that holds the decision
  gate. So the gate is always released, the call in flight always published, and nobody depends on the
  callers that wait or gave up, whatever the storage and the server answer.\<close>

theorem no_caller_stuck:
  assumes "reachable p ext w0 st" "pv_storage p = Some S" "pv_auth p = Some a"
  shows "\<exists>ps r. length ps \<le> 12 \<and>
    set ps \<subseteq> insert (Caller i) (range Job \<union> {Caller j | j. ps_gate st = Some j}) \<and>
    ps_callers (run p ps st) i = Returned r"
proof -
  let ?W = "{Caller j | j. ps_gate st = Some j}" and ?s = "caller_step p i (ps_callers st i) st"
  have inv: "prov_inv st" using assms(1) by (rule reachable_inv)
  then have held: "holds_gate (ps_callers st i) \<Longrightarrow> ps_gate st = Some i" by (auto simp: prov_inv_def callers_inv_def)
  have "returns_within p ?W 12 i st"
  proof (cases "ps_callers st i")
    case (Entering ctx rq)
    have g: "ps_gate ?s = ps_gate st" using Entering by (auto simp: enter_step_def split: option.splits prod.splits)
    have "settled (ps_callers ?s i) \<or> (\<exists>ctx rq. ps_callers ?s i = AtGate ctx rq)"
      using Entering by (auto simp: enter_step_def settled_def split: option.splits prod.splits)
    then have "returns_within p ?W 11 i ?s"
      using returns_mono [OF settled_returns [OF caller_inv [OF inv] _ assms(2,3)]]
        at_gate_returns [OF caller_inv [OF inv] _ assms(2,3)] g by fastforce
    then show ?thesis using returns_after [of p ?W 11 i "Caller i" st] by simp
  next
    case (AtGate ctx rq)
    from at_gate_returns [OF inv this assms(2,3)] show ?thesis by (rule returns_mono) simp
  next
    case (Waiting ctx k)
    then show ?thesis using returns_mono [OF settled_returns [OF inv _ assms(2,3)]] by (simp add: settled_def)
  next
    case (Returned r)
    then show ?thesis by (rule returns_now)
  qed (use returns_mono [OF holder_returns [OF inv held sections_le_3 assms(2,3)]] in simp_all)
  then show ?thesis by (simp add: returns_within_def)
qed

theorem no_caller_stuck_witness:
  "\<exists>ps r. length ps \<le> 12 \<and> set ps \<subseteq> insert (Caller 2) (range Job \<union> {Caller j | j. ps_gate one_running = Some j}) \<and>
    ps_callers (run sample_provider ps one_running) 2 = Returned r"
proof -
  have r: "reachable sample_provider True (ps_world start_state) one_running"
    unfolding one_running_def by (intro reachable_run reachable.start) (simp_all add: start_state_def)
  show ?thesis by (rule no_caller_stuck [OF r, of MemoryStorage sample_resource]) (simp_all add: sample_provider_def)
qed

text \<open>C35: a late 401 does not rotate again: a forced refresh that names a token other than the stored
  one returns the stored token (or the storage's failure) without any request, and leaves the
  session as it is.\<close>

theorem stale_rejection_does_not_rotate:
  assumes "package_storage S st ok" "pv_storage p = Some S" "pv_auth p = Some a" "ok w"
    and "st_auth (st w) = Some x" "at_access_token x \<noteq> []" "tr_ForceRefresh rq" "tr_RejectedToken rq \<noteq> []"
    and "tr_RejectedToken rq \<noteq> at_access_token x" "token p ctx rq w = (r, w')"
  shows "(r = Inr (at_access_token x) \<or> (\<exists>e. r = Inl e)) \<and> w_sent w' = w_sent w \<and> st w' = st w"
proof -
  note c = package_contract [OF assms(1)]
  note ticks_keep = auth_storage_contract.ticks_keep [OF c]
  note load_keeps = auth_storage_contract.load_keeps [OF c] and load_value = auth_storage_contract.load_value [OF c]
  obtain e w1 where e: "requireContext ctx w = (e, w1)" by fastforce
  note t1 = contextFailure_ticks [OF e [unfolded requireContext_eq]]
  obtain g w2 where g: "storageGate_lock ctx w1 = (g, w2)" by fastforce
  have t2: "ticks w w2" using t1 storageGate_lock_ticks [OF g] by (rule ticks_trans)
  obtain l w3 where l: "as_load S ctx w2 = (l, w3)" by fastforce
  note k2 = ticks_keep [OF t2]
  have k3: "local_step w2 w3" "st w3 = st w" using load_keeps [OF l] k2 assms(4) by auto
  have v: "l = Inr y \<Longrightarrow> y = Some (st w)" for y using load_value [of ctx w2 y w3] l k2 assms(4) by simp
  have s: "w_sent w1 = w_sent w" "st w1 = st w" "w_sent w2 = w_sent w" "st w2 = st w" "w_sent w3 = w_sent w"
    using t1 t2 k3 ticks_keep [OF t1] k2 by (simp_all add: ticks_def local_step_def)
  show ?thesis
    using assms(2,3,5-10) e g l s k3(2) v
    by (auto simp: token_def decide_def split: option.splits sum.splits)
qed

theorem stale_rejection_does_not_rotate_witness:
  "\<exists>r w'. token sample_provider (Some background) \<lparr>tr_ForceRefresh = True, tr_RejectedToken = ''old''\<rparr>
      (ps_world start_state) = (r, w') \<and> (r = Inr ''A'' \<or> (\<exists>e. r = Inl e)) \<and> w_sent w' = []"
proof -
  obtain r w' where t: "token sample_provider (Some background) \<lparr>tr_ForceRefresh = True, tr_RejectedToken = ''old''\<rparr>
      (ps_world start_state) = (r, w')" by fastforce
  have "mem_inv (ps_world start_state)" "st_auth (mem_abs (ps_world start_state)) = Some sample_auth"
    using early_world_ok(1) sample_auth_ok
    by (auto simp: start_state_def mem_inv_def mem_abs_def clock_ok_def state_wf_def empty_state_def auth_wf_def)
  from stale_rejection_does_not_rotate [OF package_storage.memory _ _ this _ _ _ _ t] t show ?thesis
    by (auto simp: sample_provider_def sample_auth_def start_state_def early_world_def sample_world_def)
qed

text \<open>a token handed out without a refresh is the stored access token, and, unless the refresh
  was forced with another token, it has no expiry or more than sixty seconds left.\<close>

theorem used_token_is_valid:
  assumes "decide rq stored w = (Use t, w')"
  shows "\<exists>s. stored = Some s \<and> t = at_access_token s \<and> t \<noteq> [] \<and>
    (tr_ForceRefresh rq \<and> tr_RejectedToken rq \<noteq> t \<or>
     \<not> tr_ForceRefresh rq \<and> (at_expires_at s \<le> 0 \<or>
       w_clock w (w_tick w) + 60 * 1000000000 < at_expires_at s * 1000000))"
  using assms by (auto simp: decide_def time_now_def tokenNeedsRefresh_def tokenExpirySkew_def seconds_def
      from_milli_def split: option.splits if_splits bool.splits)

theorem used_token_is_valid_witness:
  "\<exists>w'. decide first_request (Some sample_auth) early_world = (Use ''A'', w') \<and>
     w_clock early_world 0 + 60 * 1000000000 < at_expires_at sample_auth * 1000000"
proof -
  obtain w' where d: "decide first_request (Some sample_auth) early_world = (Use ''A'', w')"
    by (auto simp: decide_def first_request_def sample_auth_def time_now_def tokenNeedsRefresh_def
        tokenExpirySkew_def seconds_def from_milli_def early_world_def)
  from used_token_is_valid [OF d] d show ?thesis
    by (auto simp: first_request_def sample_auth_def early_world_def sample_world_def)
qed

end
