(* ===== verification/Types.thy ===== *)
theory Types
  imports StorageCodec
begin

text \<open>
  The wire types of types.go: their records, the decoding \<open>json.Unmarshal\<close> performs into them and
  the encoding \<open>json.Marshal\<close> gives the parameter types. A destination that is decoded into more
  than once (a repeated member) keeps what it held, so a decoder takes the sequence of JSON values
  decoded into it since it was zero; it returns the value and whether no mismatch was recorded.
\<close>

section \<open>Decoders\<close>

type_synonym 'a decoder = "json list \<Rightarrow> 'a \<times> bool"

definition d_string :: "string decoder" where "d_string = dec_scalar as_string []"
definition d_int :: "int decoder" where "d_int = dec_scalar as_int64 0"
definition d_bool :: "bool decoder" where "d_bool = dec_scalar as_bool False"

text \<open>A pointer: \<open>null\<close> resets it to nil, other values are decoded into what it points to.\<close>

fun segments :: "json list \<Rightarrow> json list list" where
  "segments [] = [[]]"
| "segments (v # vs) =
     (if v = JNull then [] # segments vs
      else (case segments vs of s # ss \<Rightarrow> (v # s) # ss | [] \<Rightarrow> [[v]]))"

definition d_ptr :: "'a decoder \<Rightarrow> 'a option decoder" where
  "d_ptr d vs =
     (let ss = segments vs
      in (if last ss = [] then None else Some (fst (d (last ss))), list_all (\<lambda>s. snd (d s)) ss))"

text \<open>A slice: its length, and the elements of its backing array (each the sequence decoded into it).
  \<open>null\<close> makes it nil and \<open>[]\<close> allocates an empty one; another array is decoded over the elements
  the backing array already holds.\<close>

fun decode_over :: "json list \<Rightarrow> json list list \<Rightarrow> json list list" where
  "decode_over [] b = b"
| "decode_over (e # es) [] = [e] # decode_over es []"
| "decode_over (e # es) (x # b) = (x @ [e]) # decode_over es b"

fun slice_step ::
  "'a decoder \<Rightarrow> nat option \<times> json list list \<times> bool \<Rightarrow> json \<Rightarrow> nat option \<times> json list list \<times> bool" where
  "slice_step d (n, b, ok) JNull = (None, [], ok \<and> list_all (\<lambda>s. snd (d s)) b)"
| "slice_step d (n, b, ok) (JArr es) =
     (if es = [] then (Some 0, [], ok \<and> list_all (\<lambda>s. snd (d s)) b)
      else (Some (length es), decode_over es b, ok))"
| "slice_step d (n, b, ok) _ = (n, b, False)"

definition d_slice :: "'a decoder \<Rightarrow> 'a list option decoder" where
  "d_slice d vs =
     (case foldl (slice_step d) (None, [], True) vs of
        (n, b, ok) \<Rightarrow>
          (map_option (\<lambda>k. map (\<lambda>s. fst (d s)) (take k b)) n, ok \<and> list_all (\<lambda>s. snd (d s)) b))"

text \<open>A struct: the members of every object decoded into it.\<close>

definition members :: "json list \<Rightarrow> (string \<times> json) list" where
  "members vs = concat (map (\<lambda>v. case v of JObj ms \<Rightarrow> ms | _ \<Rightarrow> []) vs)"

definition objects :: "json list \<Rightarrow> bool" where
  "objects vs \<longleftrightarrow> list_all (\<lambda>v. case v of JObj ms \<Rightarrow> True | JNull \<Rightarrow> True | _ \<Rightarrow> False) vs"

abbreviation "f_string name vs \<equiv> d_string (field_values name (members vs))"
abbreviation "f_int name vs \<equiv> d_int (field_values name (members vs))"
abbreviation "f_bool name vs \<equiv> d_bool (field_values name (members vs))"
abbreviation "f_ptr d name vs \<equiv> d_ptr d (field_values name (members vs))"
abbreviation "f_slice d name vs \<equiv> d_slice d (field_values name (members vs))"

section \<open>Spend requests\<close>

record total =
  tt_type :: string
  tt_display_text :: string
  tt_amount :: int

definition dec_total :: "total decoder" where
  "dec_total vs =
     (let t = f_string ''type'' vs; x = f_string ''display_text'' vs; a = f_int ''amount'' vs
      in (\<lparr>tt_type = fst t, tt_display_text = fst x, tt_amount = fst a\<rparr>,
          objects vs \<and> snd t \<and> snd x \<and> snd a))"

record line_item =
  li_name :: string
  li_url :: "string option"
  li_image_url :: "string option"
  li_description :: "string option"
  li_sku :: "string option"
  li_totals :: "total list option"
  li_quantity :: "int option"
  li_unit_amount :: "int option"
  li_product_url :: "string option"

definition dec_line_item :: "line_item decoder" where
  "dec_line_item vs =
     (let n = f_string ''name'' vs; u = f_ptr d_string ''url'' vs; i = f_ptr d_string ''image_url'' vs;
          d = f_ptr d_string ''description'' vs; s = f_ptr d_string ''sku'' vs;
          t = f_slice dec_total ''totals'' vs; q = f_ptr d_int ''quantity'' vs;
          a = f_ptr d_int ''unit_amount'' vs; p = f_ptr d_string ''product_url'' vs
      in (\<lparr>li_name = fst n, li_url = fst u, li_image_url = fst i, li_description = fst d, li_sku = fst s,
           li_totals = fst t, li_quantity = fst q, li_unit_amount = fst a, li_product_url = fst p\<rparr>,
          objects vs \<and> snd n \<and> snd u \<and> snd i \<and> snd d \<and> snd s \<and> snd t \<and> snd q \<and> snd a \<and> snd p))"

record billing_address =
  ba_name :: string
  ba_line1 :: string
  ba_line2 :: string
  ba_city :: string
  ba_state :: string
  ba_postal_code :: string
  ba_country :: string

definition dec_billing_address :: "billing_address decoder" where
  "dec_billing_address vs =
     (let n = f_string ''name'' vs; l = f_string ''line1'' vs; m = f_string ''line2'' vs;
          c = f_string ''city'' vs; s = f_string ''state'' vs; p = f_string ''postal_code'' vs;
          k = f_string ''country'' vs
      in (\<lparr>ba_name = fst n, ba_line1 = fst l, ba_line2 = fst m, ba_city = fst c, ba_state = fst s,
           ba_postal_code = fst p, ba_country = fst k\<rparr>,
          objects vs \<and> snd n \<and> snd l \<and> snd m \<and> snd c \<and> snd s \<and> snd p \<and> snd k))"

record card =
  cd_id :: string
  cd_brand :: string
  cd_exp_month :: int
  cd_exp_year :: int
  cd_number :: string
  cd_cvc :: string
  cd_billing_address :: "billing_address option"
  cd_valid_until :: string

definition dec_card :: "card decoder" where
  "dec_card vs =
     (let i = f_string ''id'' vs; b = f_string ''brand'' vs; m = f_int ''exp_month'' vs;
          y = f_int ''exp_year'' vs; n = f_string ''number'' vs; c = f_string ''cvc'' vs;
          a = f_ptr dec_billing_address ''billing_address'' vs; u = f_string ''valid_until'' vs
      in (\<lparr>cd_id = fst i, cd_brand = fst b, cd_exp_month = fst m, cd_exp_year = fst y, cd_number = fst n,
           cd_cvc = fst c, cd_billing_address = fst a, cd_valid_until = fst u\<rparr>,
          objects vs \<and> snd i \<and> snd b \<and> snd m \<and> snd y \<and> snd n \<and> snd c \<and> snd a \<and> snd u))"

record shared_payment_token =
  sp_id :: string
  sp_billing_address :: "billing_address option"
  sp_valid_until :: string

definition zero_token :: shared_payment_token where
  "zero_token = \<lparr>sp_id = [], sp_billing_address = None, sp_valid_until = []\<rparr>"

definition dec_wire_token :: "shared_payment_token decoder" where
  "dec_wire_token vs =
     (let i = f_string ''id'' vs; a = f_ptr dec_billing_address ''billing_address'' vs;
          u = f_string ''valid_until'' vs
      in (\<lparr>sp_id = fst i, sp_billing_address = fst a, sp_valid_until = fst u\<rparr>,
          objects vs \<and> snd i \<and> snd a \<and> snd u))"

text \<open>\<open>SharedPaymentToken.UnmarshalJSON\<close> on a JSON value: a non-empty string (the old form), or an
  object with a non-empty id.\<close>

definition UnmarshalJSON :: "json \<Rightarrow> shared_payment_token option" where
  "UnmarshalJSON v =
     (case v of
        JStr raw \<Rightarrow> (if unquote raw = [] then None else Some (zero_token\<lparr>sp_id := unquote raw\<rparr>))
      | JObj ms \<Rightarrow>
          (if \<not> snd (dec_wire_token [v]) then None
           else if sp_id (fst (dec_wire_token [v])) = [] then None
           else Some (fst (dec_wire_token [v])))
      | _ \<Rightarrow> None)"

text \<open>Each value replaces the token; the first failure ends the decoding.\<close>

fun dec_shared_payment_token :: "shared_payment_token decoder" where
  "dec_shared_payment_token [] = (zero_token, True)"
| "dec_shared_payment_token (v # vs) =
     (case UnmarshalJSON v of
        None \<Rightarrow> (zero_token, False)
      | Some t \<Rightarrow> (if vs = [] then (t, True) else dec_shared_payment_token vs))"

record refund_details =
  rd_amount :: int
  rd_currency :: string
  rd_state :: string
  rd_created :: int

definition dec_refund_details :: "refund_details decoder" where
  "dec_refund_details vs =
     (let a = f_int ''amount'' vs; c = f_string ''currency'' vs; s = f_string ''state'' vs;
          t = f_int ''created'' vs
      in (\<lparr>rd_amount = fst a, rd_currency = fst c, rd_state = fst s, rd_created = fst t\<rparr>,
          objects vs \<and> snd a \<and> snd c \<and> snd s \<and> snd t))"

record payment_status_details =
  ps_outcome :: string
  ps_code :: "string option"
  ps_decline_code :: "string option"
  ps_amount :: int
  ps_currency :: string
  ps_created :: "int option"
  ps_refund_details :: "refund_details option"

definition dec_payment_status_details :: "payment_status_details decoder" where
  "dec_payment_status_details vs =
     (let q = f_string ''outcome'' vs; c = f_ptr d_string ''code'' vs; d = f_ptr d_string ''decline_code'' vs;
          a = f_int ''amount'' vs; k = f_string ''currency'' vs; t = f_ptr d_int ''created'' vs;
          r = f_ptr dec_refund_details ''refund_details'' vs
      in (\<lparr>ps_outcome = fst q, ps_code = fst c, ps_decline_code = fst d, ps_amount = fst a,
           ps_currency = fst k, ps_created = fst t, ps_refund_details = fst r\<rparr>,
          objects vs \<and> snd q \<and> snd c \<and> snd d \<and> snd a \<and> snd k \<and> snd t \<and> snd r))"

record spend_request =
  sr_id :: string
  sr_merchant_name :: string
  sr_merchant_url :: string
  sr_context :: string
  sr_amount :: int
  sr_currency :: string
  sr_line_items :: "line_item list option"
  sr_totals :: "total list option"
  sr_payment_method :: string
  sr_payment_details :: string
  sr_credential_type :: string
  sr_network_id :: string
  sr_status :: string
  sr_approval_url :: string
  sr_card :: "card option"
  sr_shared_payment_token :: "shared_payment_token option"
  sr_link_pay_token :: string
  sr_payment_status_details :: "payment_status_details option"
  sr_created_at :: string
  sr_updated_at :: string

definition dec_spend_request :: "spend_request decoder" where
  "dec_spend_request vs =
     (let i = f_string ''id'' vs; mn = f_string ''merchant_name'' vs; mu = f_string ''merchant_url'' vs;
          c = f_string ''context'' vs; a = f_int ''amount'' vs; k = f_string ''currency'' vs;
          li = f_slice dec_line_item ''line_items'' vs; t = f_slice dec_total ''totals'' vs;
          pm = f_string ''payment_method'' vs; pd = f_string ''payment_details'' vs;
          ct = f_string ''credential_type'' vs; n = f_string ''network_id'' vs; s = f_string ''status'' vs;
          au = f_string ''approval_url'' vs; cd = f_ptr dec_card ''card'' vs;
          sp = f_ptr dec_shared_payment_token ''shared_payment_token'' vs;
          lt = f_string ''link_pay_token'' vs;
          ps = f_ptr dec_payment_status_details ''payment_status_details'' vs;
          ca = f_string ''created_at'' vs; ua = f_string ''updated_at'' vs
      in (\<lparr>sr_id = fst i, sr_merchant_name = fst mn, sr_merchant_url = fst mu, sr_context = fst c,
           sr_amount = fst a, sr_currency = fst k, sr_line_items = fst li, sr_totals = fst t,
           sr_payment_method = fst pm, sr_payment_details = fst pd, sr_credential_type = fst ct,
           sr_network_id = fst n, sr_status = fst s, sr_approval_url = fst au, sr_card = fst cd,
           sr_shared_payment_token = fst sp, sr_link_pay_token = fst lt,
           sr_payment_status_details = fst ps, sr_created_at = fst ca, sr_updated_at = fst ua\<rparr>,
          objects vs \<and> snd i \<and> snd mn \<and> snd mu \<and> snd c \<and> snd a \<and> snd k \<and> snd li \<and> snd t \<and> snd pm \<and>
          snd pd \<and> snd ct \<and> snd n \<and> snd s \<and> snd au \<and> snd cd \<and> snd sp \<and> snd lt \<and> snd ps \<and> snd ca \<and> snd ua))"

record request_approval_response =
  ra_id :: string
  ra_approval_link :: string

definition dec_request_approval_response :: "request_approval_response decoder" where
  "dec_request_approval_response vs =
     (let i = f_string ''id'' vs; l = f_string ''approval_link'' vs
      in (\<lparr>ra_id = fst i, ra_approval_link = fst l\<rparr>, objects vs \<and> snd i \<and> snd l))"

section \<open>Wallet and profile\<close>

record card_details =
  cr_brand :: string
  cr_last4 :: string
  cr_exp_month :: int
  cr_exp_year :: int

definition dec_card_details :: "card_details decoder" where
  "dec_card_details vs =
     (let b = f_string ''brand'' vs; l = f_string ''last4'' vs; m = f_int ''exp_month'' vs;
          y = f_int ''exp_year'' vs
      in (\<lparr>cr_brand = fst b, cr_last4 = fst l, cr_exp_month = fst m, cr_exp_year = fst y\<rparr>,
          objects vs \<and> snd b \<and> snd l \<and> snd m \<and> snd y))"

record bank_account_details =
  bk_last4 :: string
  bk_bank_name :: string

definition dec_bank_account_details :: "bank_account_details decoder" where
  "dec_bank_account_details vs =
     (let l = f_string ''last4'' vs; n = f_string ''bank_name'' vs
      in (\<lparr>bk_last4 = fst l, bk_bank_name = fst n\<rparr>, objects vs \<and> snd l \<and> snd n))"

record payment_method =
  pm_id :: string
  pm_type :: string
  pm_is_default :: bool
  pm_nickname :: string
  pm_card_details :: "card_details option"
  pm_bank_account_details :: "bank_account_details option"

definition dec_payment_method :: "payment_method decoder" where
  "dec_payment_method vs =
     (let i = f_string ''id'' vs; t = f_string ''type'' vs; d = f_bool ''is_default'' vs;
          n = f_string ''nickname'' vs; c = f_ptr dec_card_details ''card_details'' vs;
          b = f_ptr dec_bank_account_details ''bank_account_details'' vs
      in (\<lparr>pm_id = fst i, pm_type = fst t, pm_is_default = fst d, pm_nickname = fst n,
           pm_card_details = fst c, pm_bank_account_details = fst b\<rparr>,
          objects vs \<and> snd i \<and> snd t \<and> snd d \<and> snd n \<and> snd c \<and> snd b))"

record user_info =
  ui_email :: "string option"
  ui_name :: "string option"
  ui_first_name :: "string option"
  ui_last_name :: "string option"
  ui_phone :: "string option"

definition dec_user_info :: "user_info decoder" where
  "dec_user_info vs =
     (let e = f_ptr d_string ''email'' vs; n = f_ptr d_string ''name'' vs;
          f = f_ptr d_string ''first_name'' vs; l = f_ptr d_string ''last_name'' vs;
          p = f_ptr d_string ''phone'' vs
      in (\<lparr>ui_email = fst e, ui_name = fst n, ui_first_name = fst f, ui_last_name = fst l,
           ui_phone = fst p\<rparr>, objects vs \<and> snd e \<and> snd n \<and> snd f \<and> snd l \<and> snd p))"

record shipping_address =
  sa_name :: "string option"
  sa_line1 :: "string option"
  sa_line2 :: "string option"
  sa_locality :: "string option"
  sa_dependent_locality :: "string option"
  sa_administrative_area :: "string option"
  sa_postal_code :: "string option"
  sa_sorting_code :: "string option"
  sa_country_code :: "string option"

definition dec_shipping_address :: "shipping_address decoder" where
  "dec_shipping_address vs =
     (let n = f_ptr d_string ''name'' vs; a = f_ptr d_string ''line_1'' vs; b = f_ptr d_string ''line_2'' vs;
          l = f_ptr d_string ''locality'' vs; d = f_ptr d_string ''dependent_locality'' vs;
          r = f_ptr d_string ''administrative_area'' vs; p = f_ptr d_string ''postal_code'' vs;
          s = f_ptr d_string ''sorting_code'' vs; c = f_ptr d_string ''country_code'' vs
      in (\<lparr>sa_name = fst n, sa_line1 = fst a, sa_line2 = fst b, sa_locality = fst l,
           sa_dependent_locality = fst d, sa_administrative_area = fst r, sa_postal_code = fst p,
           sa_sorting_code = fst s, sa_country_code = fst c\<rparr>,
          objects vs \<and> snd n \<and> snd a \<and> snd b \<and> snd l \<and> snd d \<and> snd r \<and> snd p \<and> snd s \<and> snd c))"

record shipping_address_record =
  ar_id :: string
  ar_is_default :: bool
  ar_nickname :: "string option"
  ar_address :: "shipping_address option"

definition dec_shipping_address_record :: "shipping_address_record decoder" where
  "dec_shipping_address_record vs =
     (let i = f_string ''id'' vs; d = f_bool ''is_default'' vs; n = f_ptr d_string ''nickname'' vs;
          a = f_ptr dec_shipping_address ''address'' vs
      in (\<lparr>ar_id = fst i, ar_is_default = fst d, ar_nickname = fst n, ar_address = fst a\<rparr>,
          objects vs \<and> snd i \<and> snd d \<and> snd n \<and> snd a))"

record web_bot_auth_block =
  wb_signature :: string
  wb_signature_input :: string
  wb_signature_agent :: string
  wb_authority :: string
  wb_expires_at :: string

definition dec_web_bot_auth_block :: "web_bot_auth_block decoder" where
  "dec_web_bot_auth_block vs =
     (let s = f_string ''signature'' vs; i = f_string ''signature_input'' vs;
          a = f_string ''signature_agent'' vs; h = f_string ''authority'' vs;
          e = f_string ''expires_at'' vs
      in (\<lparr>wb_signature = fst s, wb_signature_input = fst i, wb_signature_agent = fst a,
           wb_authority = fst h, wb_expires_at = fst e\<rparr>,
          objects vs \<and> snd s \<and> snd i \<and> snd a \<and> snd h \<and> snd e))"

record report_record =
  rr_object :: string
  rr_created_at :: string
  rr_domain :: string
  rr_outcome :: string
  rr_spend_request_id :: string
  rr_status :: string

definition dec_report_record :: "report_record decoder" where
  "dec_report_record vs =
     (let b = f_string ''object'' vs; c = f_string ''created_at'' vs; d = f_string ''domain'' vs;
          r = f_string ''outcome'' vs; i = f_string ''spend_request_id'' vs; s = f_string ''status'' vs
      in (\<lparr>rr_object = fst b, rr_created_at = fst c, rr_domain = fst d, rr_outcome = fst r,
           rr_spend_request_id = fst i, rr_status = fst s\<rparr>,
          objects vs \<and> snd b \<and> snd c \<and> snd d \<and> snd r \<and> snd i \<and> snd s))"

section \<open>Parameters\<close>

text \<open>Members with \<open>omitzero\<close>.\<close>

type_synonym jmembers = "(string \<times> json) list"

definition opt_member :: "string \<Rightarrow> ('a \<Rightarrow> json) \<Rightarrow> 'a option \<Rightarrow> jmembers" where
  "opt_member name enc x = (case x of None \<Rightarrow> [] | Some v \<Rightarrow> [(name, enc v)])"

definition str_member :: "string \<Rightarrow> string \<Rightarrow> jmembers" where
  "str_member name s = (if s = [] then [] else [(name, enc_string s)])"

definition int_member :: "string \<Rightarrow> int \<Rightarrow> jmembers" where
  "int_member name i = (if i = 0 then [] else [(name, enc_int i)])"

definition bool_member :: "string \<Rightarrow> bool \<Rightarrow> jmembers" where
  "bool_member name b = (if b then [(name, JBool True)] else [])"

definition enc_list :: "('a \<Rightarrow> json) \<Rightarrow> 'a list \<Rightarrow> json" where
  "enc_list enc xs = JArr (map enc xs)"

definition enc_total :: "total \<Rightarrow> json" where
  "enc_total t = JObj [(''type'', enc_string (tt_type t)), (''display_text'', enc_string (tt_display_text t)),
     (''amount'', enc_int (tt_amount t))]"

definition enc_line_item :: "line_item \<Rightarrow> json" where
  "enc_line_item l =
     JObj ([(''name'', enc_string (li_name l))] @ opt_member ''url'' enc_string (li_url l) @
           opt_member ''image_url'' enc_string (li_image_url l) @
           opt_member ''description'' enc_string (li_description l) @ opt_member ''sku'' enc_string (li_sku l) @
           opt_member ''totals'' (enc_list enc_total) (li_totals l) @
           opt_member ''quantity'' enc_int (li_quantity l) @
           opt_member ''unit_amount'' enc_int (li_unit_amount l) @
           opt_member ''product_url'' enc_string (li_product_url l))"

record create_spend_request_params =
  cs_payment_details :: string
  cs_credential_type :: string
  cs_network_id :: string
  cs_amount :: int
  cs_currency :: string
  cs_merchant_name :: string
  cs_merchant_url :: string
  cs_context :: string
  cs_line_items :: "line_item list option"
  cs_totals :: "total list option"
  cs_request_approval :: bool
  cs_test :: bool
  cs_approve :: bool

text \<open>\<open>Approve\<close> is never serialised.\<close>

definition enc_create_params :: "create_spend_request_params \<Rightarrow> json" where
  "enc_create_params p =
     JObj ([(''payment_details'', enc_string (cs_payment_details p))] @
           str_member ''credential_type'' (cs_credential_type p) @ str_member ''network_id'' (cs_network_id p) @
           int_member ''amount'' (cs_amount p) @ str_member ''currency'' (cs_currency p) @
           str_member ''merchant_name'' (cs_merchant_name p) @ str_member ''merchant_url'' (cs_merchant_url p) @
           [(''context'', enc_string (cs_context p))] @
           opt_member ''line_items'' (enc_list enc_line_item) (cs_line_items p) @
           opt_member ''totals'' (enc_list enc_total) (cs_totals p) @
           bool_member ''request_approval'' (cs_request_approval p) @ bool_member ''test'' (cs_test p))"

record update_spend_request_params =
  us_payment_details :: "string option"
  us_amount :: "int option"
  us_merchant_url :: "string option"
  us_profile_id :: "string option"
  us_merchant_id :: "string option"
  us_currency :: "string option"
  us_line_items :: "line_item list option"
  us_totals :: "total list option"

definition enc_update_params :: "update_spend_request_params \<Rightarrow> json" where
  "enc_update_params p =
     JObj (opt_member ''payment_details'' enc_string (us_payment_details p) @
           opt_member ''amount'' enc_int (us_amount p) @
           opt_member ''merchant_url'' enc_string (us_merchant_url p) @
           opt_member ''profile_id'' enc_string (us_profile_id p) @
           opt_member ''merchant_id'' enc_string (us_merchant_id p) @
           opt_member ''currency'' enc_string (us_currency p) @
           opt_member ''line_items'' (enc_list enc_line_item) (us_line_items p) @
           opt_member ''totals'' (enc_list enc_total) (us_totals p))"

record create_report_params =
  cp_domain :: string
  cp_outcome :: string
  cp_spend_request_id :: string
  cp_tags :: "string list option"
  cp_step :: "string option"
  cp_freeform_context :: "string option"

definition enc_report_params :: "create_report_params \<Rightarrow> json" where
  "enc_report_params p =
     JObj ([(''domain'', enc_string (cp_domain p)), (''outcome'', enc_string (cp_outcome p)),
            (''spend_request_id'', enc_string (cp_spend_request_id p))] @
           opt_member ''tags'' (enc_list enc_string) (cp_tags p) @ opt_member ''step'' enc_string (cp_step p) @
           opt_member ''freeform_context'' enc_string (cp_freeform_context p))"

end
