(* ===== verification/SpendRequests.thy ===== *)
theory SpendRequests
  imports Transport Types
begin

text \<open>
  The spend-request resource (spend_requests.go): endpoint construction, the five operations, and
  the validation of parameters and responses.
\<close>

section \<open>Validation\<close>

definition is_space_rune :: "string \<Rightarrow> bool" where
  "is_space_rune r \<longleftrightarrow> r \<in> set space_encodings"

definition is_control_rune :: "string \<Rightarrow> bool" where
  "is_control_rune r \<longleftrightarrow>
     (case r of
        [c] \<Rightarrow> byte c < 32 \<or> byte c = 127
      | [c, d] \<Rightarrow> c = CHR 0xC2 \<and> 128 \<le> byte d \<and> byte d \<le> 159
      | _ \<Rightarrow> False)"

text \<open>\<open>for _, r := range s\<close>: the encodings of the runes; an invalid byte is U+FFFD.\<close>

function runes :: "string \<Rightarrow> string list" where
  "runes [] = []"
| "runes (c # cs) =
     (let n = rune_width (c # cs)
      in if n = 0 then rune_error # runes cs else (c # take (n - 1) cs) # runes (drop (n - 1) cs))"
  by pat_completeness auto
termination
  by (relation "measure length") auto

declare runes.simps(2) [simp del]

definition validSpendRequestID :: "string \<Rightarrow> bool" where
  "validSpendRequestID i \<longleftrightarrow>
     \<not> (trim_space i = [] \<or> i = ''.'' \<or> i = ''..'') \<and> valid_utf8 i \<and>
     list_all (\<lambda>r. \<not> (is_control_rune r \<or> is_space_rune r)) (runes i)"

definition validInclude :: "string \<Rightarrow> bool" where
  "validInclude v \<longleftrightarrow>
     v \<noteq> [] \<and> list_all (\<lambda>r. \<not> (is_control_rune r \<or> is_space_rune r \<or> r = '','')) (runes v)"

definition successful :: "int \<Rightarrow> bool" where
  "successful status \<longleftrightarrow> status \<ge> 200 \<and> status < 300"

definition isJSONObject :: "string \<Rightarrow> bool" where
  "isJSONObject body \<longleftrightarrow>
     (let t = trim_space body in length t \<ge> 2 \<and> hd t = CHR 0x7B)"

text \<open>Validators return the text of the error, if any; \<open>i\<close> is the index of the first element.\<close>

fun totals_from :: "string \<Rightarrow> nat \<Rightarrow> total list \<Rightarrow> string option" where
  "totals_from path i [] = None"
| "totals_from path i (t # ts) =
     (if trim_space (tt_type t) = [] \<or> trim_space (tt_display_text t) = []
      then Some (path @ ''['' @ show_nat i @ ''] is missing required type or display_text'')
      else totals_from path (Suc i) ts)"

definition validateSpendRequestTotals :: "total list \<Rightarrow> string \<Rightarrow> string option" where
  "validateSpendRequestTotals totals path = totals_from path 0 totals"

text \<open>A nil slice has no elements.\<close>

definition elements :: "'a list option \<Rightarrow> 'a list" where
  "elements xs = (case xs of None \<Rightarrow> [] | Some ys \<Rightarrow> ys)"

fun items_from :: "nat \<Rightarrow> line_item list \<Rightarrow> string option" where
  "items_from i [] = None"
| "items_from i (l # ls) =
     (if trim_space (li_name l) = []
      then Some (''line_items['' @ show_nat i @ ''] is missing required name'')
      else (case validateSpendRequestTotals (elements (li_totals l)) (''line_items['' @ show_nat i @ ''].totals'') of
              Some e \<Rightarrow> Some e
            | None \<Rightarrow> items_from (Suc i) ls))"

definition validateSpendRequestItems :: "line_item list \<Rightarrow> total list \<Rightarrow> string option" where
  "validateSpendRequestItems lineItems totals =
     (case items_from 0 lineItems of
        Some e \<Rightarrow> Some e
      | None \<Rightarrow> validateSpendRequestTotals totals ''totals'')"

definition address_ok :: "billing_address \<Rightarrow> bool" where
  "address_ok a \<longleftrightarrow> \<not> (ba_name a = [] \<or> ba_line1 a = [] \<or> ba_country a = [])"

definition card_error :: "card \<Rightarrow> string option" where
  "card_error c =
     (if cd_id c = [] \<or> cd_brand c = [] \<or> cd_exp_month c < 1 \<or> cd_exp_month c > 12 \<or> cd_exp_year c < 1 \<or>
         cd_number c = []
      then Some ''card is missing required credential fields''
      else (case cd_billing_address c of
              None \<Rightarrow> None
            | Some a \<Rightarrow> (if address_ok a then None else Some ''card billing_address is missing required fields'')))"

definition token_error :: "shared_payment_token \<Rightarrow> string option" where
  "token_error t =
     (case sp_billing_address t of
        None \<Rightarrow> None
      | Some a \<Rightarrow>
          (if address_ok a then None
           else Some ''shared payment token billing_address is missing required fields''))"

definition status_error :: "payment_status_details \<Rightarrow> string option" where
  "status_error d =
     (if ps_outcome d = [] \<or> ps_currency d = [] then Some ''payment_status_details is missing required fields''
      else (case ps_refund_details d of
              None \<Rightarrow> None
            | Some r \<Rightarrow>
                (if rd_currency r = [] \<or> rd_state r = [] then Some ''refund_details is missing required fields''
                 else None)))"

definition on_some :: "('a \<Rightarrow> string option) \<Rightarrow> 'a option \<Rightarrow> string option" where
  "on_some f x = (case x of None \<Rightarrow> None | Some y \<Rightarrow> f y)"

fun first_error :: "string option list \<Rightarrow> string option" where
  "first_error [] = None"
| "first_error (Some e # es) = Some e"
| "first_error (None # es) = first_error es"

definition validateSpendRequestResponse :: "spend_request \<Rightarrow> string option" where
  "validateSpendRequestResponse r =
     (if sr_id r = [] then Some ''missing required id''
      else if sr_payment_details r = [] then Some ''missing required payment_details''
      else if sr_status r = [] then Some ''missing required status''
      else if sr_created_at r = [] \<or> sr_updated_at r = [] then Some ''missing required created_at or updated_at''
      else (case (sr_line_items r, sr_totals r) of
              (Some items, Some totals) \<Rightarrow>
                first_error [validateSpendRequestItems items totals, on_some card_error (sr_card r),
                  on_some token_error (sr_shared_payment_token r),
                  on_some status_error (sr_payment_status_details r)]
            | _ \<Rightarrow> Some ''missing required line_items or totals''))"

section \<open>Responses\<close>

definition malformedSpendResponse :: "string \<Rightarrow> string \<Rightarrow> go_error" where
  "malformedSpendResponse operation detail =
     Msg (''stripelink: decode successful '' @ operation @ '' response: '' @ detail)"

text \<open>The text of a decoding error of encoding/json stands for all of them.\<close>

definition json_error_text :: string where
  "json_error_text = ''json: cannot unmarshal''"

definition safeSpendAPIErrorMessage :: "string \<Rightarrow> string" where
  "safeSpendAPIErrorMessage body = extractAPIErrorMessage body"

definition newSpendAPIError :: "string \<Rightarrow> int \<Rightarrow> string \<Rightarrow> api_error" where
  "newSpendAPIError operation status body =
     (newAPIError status body)\<lparr>ae_message :=
        ''Failed to '' @ operation @ '' ('' @ show_int status @ ''): '' @ safeSpendAPIErrorMessage body\<rparr>"

text \<open>\<open>json.Unmarshal\<close> into a zeroed destination.\<close>

definition unmarshal :: "'a decoder \<Rightarrow> string \<Rightarrow> 'a option" where
  "unmarshal d body =
     (case parse_json body of
        None \<Rightarrow> None
      | Some v \<Rightarrow> (if snd (d [v]) then Some (fst (d [v])) else None))"

definition decodeSpendRequestResponse :: "string \<Rightarrow> string \<Rightarrow> (go_error, spend_request) result" where
  "decodeSpendRequestResponse operation body =
     (if \<not> isJSONObject body then Inl (malformedSpendResponse operation ''expected a JSON object'')
      else (case unmarshal dec_spend_request body of
              None \<Rightarrow> Inl (malformedSpendResponse operation json_error_text)
            | Some r \<Rightarrow>
                (case validateSpendRequestResponse r of
                   Some e \<Rightarrow> Inl (malformedSpendResponse operation e)
                 | None \<Rightarrow> Inr r)))"

section \<open>Endpoints\<close>

text \<open>The resource is its \<open>core\<close>, \<open>None\<close> when it or its receiver is nil.\<close>

type_synonym resource = "core option"

definition spend_validate :: "resource \<Rightarrow> go_context \<Rightarrow> go_error option" where
  "spend_validate r ctx =
     (if ctx = None then Some (invalid_argument ''context must not be nil'')
      else (case r of
              None \<Rightarrow> Some (invalid_argument ''spend-request resource is not configured'')
            | Some c \<Rightarrow>
                (if c_spendRequestBaseURL c = []
                 then Some (invalid_argument ''spend-request resource is not configured'') else None)))"

definition endpoint :: "core \<Rightarrow> string" where
  "endpoint c = c_spendRequestBaseURL c @ ''/spend_requests''"

definition idEndpoint :: "core \<Rightarrow> string \<Rightarrow> (go_error, string) result" where
  "idEndpoint c i =
     (if \<not> validSpendRequestID i
      then Inl (invalid_argument ''spend request id must be non-empty and must not contain control characters or path dot-segments'')
      else Inr (endpoint c @ ''/'' @ url_escape EPathSegment i))"

text \<open>\<open>URL.Query\<close>: malformed pairs are dropped.\<close>

definition query_pair :: "string \<Rightarrow> (string \<times> string) list" where
  "query_pair s =
     (if s = [] \<or> CHR '';'' \<in> set s then []
      else (case cut (CHR ''='') s of
              (k, v) \<Rightarrow>
                (case (url_unescape EQuery k, url_unescape EQuery (case v of None \<Rightarrow> [] | Some x \<Rightarrow> x)) of
                   (Some k', Some v') \<Rightarrow> [(k', v')]
                 | _ \<Rightarrow> [])))"

definition parse_query :: "string \<Rightarrow> (string \<times> string) list" where
  "parse_query q = concat (map query_pair (split_on (CHR ''&'') q))"

definition query_set :: "string \<Rightarrow> string \<Rightarrow> (string \<times> string) list \<Rightarrow> (string \<times> string) list" where
  "query_set k v q = filter (\<lambda>e. fst e \<noteq> k) q @ [(k, v)]"

fun first_invalid :: "nat \<Rightarrow> string list \<Rightarrow> nat option" where
  "first_invalid i [] = None"
| "first_invalid i (v # vs) = (if \<not> validInclude v then Some i else first_invalid (Suc i) vs)"

definition with_include :: "string list \<Rightarrow> string \<Rightarrow> (go_error, string) result" where
  "with_include include e =
     (if include = [] then Inr e
      else (case first_invalid 0 include of
              Some i \<Rightarrow> Inl (invalid_argument
                (''include value '' @ show_nat i @ '' is empty or contains invalid characters''))
            | None \<Rightarrow>
                (case url_parse e of
                   None \<Rightarrow> Inl (Wrapf ''construct spend request URL'' [Sentinel ErrInvalidConfiguration])
                 | Some u \<Rightarrow>
                     Inr (url_string (u\<lparr>u_raw_query :=
                       form_encode (query_set ''include'' (join '','' include) (parse_query (u_raw_query u)))\<rparr>)))))"

section \<open>Operations\<close>

definition read_request :: "string \<Rightarrow> api_request" where
  "read_request u =
     \<lparr>ar_method = ''GET'', ar_url = u, ar_header = [], ar_body = None, ar_authenticated = True,
      ar_retryOnUnauthorized = True\<rparr>"

definition write_request :: "string \<Rightarrow> string option \<Rightarrow> api_request" where
  "write_request u body =
     \<lparr>ar_method = ''POST'', ar_url = u,
      ar_header = (if body \<noteq> None then [(''Content-Type'', ''application/json'')] else []),
      ar_body = body, ar_authenticated = True, ar_retryOnUnauthorized = False\<rparr>"

text \<open>A request and what becomes of a successful body and of the status.\<close>

definition spend_call ::
  "resource \<Rightarrow> go_context \<Rightarrow> api_request \<Rightarrow> (int \<Rightarrow> string \<Rightarrow> (go_error, 'a) result) \<Rightarrow> world \<Rightarrow>
   (go_error, 'a) result \<times> world" where
  "spend_call r ctx req k w =
     (case core_do r ctx req w of
        (Inl e, w1) \<Rightarrow> (Inl e, w1)
      | (Inr (status, body), w1) \<Rightarrow> (k status body, w1))"

definition mutateSpendRequest ::
  "resource \<Rightarrow> go_context \<Rightarrow> string \<Rightarrow> string \<Rightarrow> string option \<Rightarrow> world \<Rightarrow> (go_error, spend_request) result \<times> world" where
  "mutateSpendRequest r ctx operation e requestBody w =
     spend_call r ctx (write_request e requestBody)
       (\<lambda>status body. if \<not> successful status then Inl (APIErr (newSpendAPIError operation status body))
                      else decodeSpendRequestResponse operation body) w"

text \<open>The text of a validation error follows the operation.\<close>

definition invalid_params :: "string \<Rightarrow> string \<Rightarrow> go_error" where
  "invalid_params operation e = invalid_argument (operation @ '': '' @ e)"

definition Create ::
  "resource \<Rightarrow> go_context \<Rightarrow> create_spend_request_params \<Rightarrow> world \<Rightarrow> (go_error, spend_request) result \<times> world" where
  "Create r ctx p w =
     (case (spend_validate r ctx, r) of
        (None, Some c) \<Rightarrow>
          (if trim_space (cs_payment_details p) = []
           then (Inl (invalid_argument ''PaymentDetails must not be empty''), w)
           else if trim_space (cs_context p) = [] then (Inl (invalid_argument ''Context must not be empty''), w)
           else (case validateSpendRequestItems (elements (cs_line_items p)) (elements (cs_totals p)) of
                   Some e \<Rightarrow> (Inl (invalid_params ''create spend request'' e), w)
                 | None \<Rightarrow>
                     mutateSpendRequest r ctx ''create spend request''
                       (if cs_approve p then endpoint c @ ''/create_delegated'' else endpoint c)
                       (Some (compact (enc_create_params p))) w))
      | (Some e, _) \<Rightarrow> (Inl e, w)
      | _ \<Rightarrow> (Inl (invalid_argument ''spend-request resource is not configured''), w))"

text \<open>The operations on one spend request start alike.\<close>

definition with_id ::
  "resource \<Rightarrow> go_context \<Rightarrow> string \<Rightarrow> (string \<Rightarrow> world \<Rightarrow> (go_error, 'a) result \<times> world) \<Rightarrow> world \<Rightarrow>
   (go_error, 'a) result \<times> world" where
  "with_id r ctx i k w =
     (case (spend_validate r ctx, r) of
        (None, Some c) \<Rightarrow> (case idEndpoint c i of Inl e \<Rightarrow> (Inl e, w) | Inr e \<Rightarrow> k e w)
      | (Some e, _) \<Rightarrow> (Inl e, w)
      | _ \<Rightarrow> (Inl (invalid_argument ''spend-request resource is not configured''), w))"

definition Update ::
  "resource \<Rightarrow> go_context \<Rightarrow> string \<Rightarrow> update_spend_request_params \<Rightarrow> world \<Rightarrow>
   (go_error, spend_request) result \<times> world" where
  "Update r ctx i p =
     with_id r ctx i (\<lambda>e w.
       case validateSpendRequestItems (elements (us_line_items p)) (elements (us_totals p)) of
         Some x \<Rightarrow> (Inl (invalid_params ''update spend request'' x), w)
       | None \<Rightarrow> mutateSpendRequest r ctx ''update spend request'' e (Some (compact (enc_update_params p))) w)"

definition Cancel ::
  "resource \<Rightarrow> go_context \<Rightarrow> string \<Rightarrow> world \<Rightarrow> (go_error, spend_request) result \<times> world" where
  "Cancel r ctx i =
     with_id r ctx i (\<lambda>e. mutateSpendRequest r ctx ''cancel spend request'' (e @ ''/cancel'') None)"

definition Retrieve ::
  "resource \<Rightarrow> go_context \<Rightarrow> string \<Rightarrow> string list \<Rightarrow> world \<Rightarrow> (go_error, spend_request) result \<times> world" where
  "Retrieve r ctx i include =
     with_id r ctx i (\<lambda>e w.
       case with_include include e of
         Inl x \<Rightarrow> (Inl x, w)
       | Inr u \<Rightarrow>
           spend_call r ctx (read_request u)
             (\<lambda>status body.
                if status = 404 then Inl (Sentinel ErrNotFound)
                else if \<not> successful status
                then Inl (APIErr (newSpendAPIError ''retrieve spend request'' status body))
                else decodeSpendRequestResponse ''retrieve spend request'' body) w)"

definition decode_approval :: "string \<Rightarrow> (go_error, request_approval_response) result" where
  "decode_approval body =
     (if \<not> isJSONObject body then Inl (malformedSpendResponse ''request approval'' ''expected a JSON object'')
      else (case unmarshal dec_request_approval_response body of
              None \<Rightarrow> Inl (malformedSpendResponse ''request approval'' json_error_text)
            | Some a \<Rightarrow>
                (if ra_id a = [] \<or> ra_approval_link a = []
                 then Inl (malformedSpendResponse ''request approval'' ''missing required id or approval_link'')
                 else Inr a)))"

definition RequestApproval ::
  "resource \<Rightarrow> go_context \<Rightarrow> string \<Rightarrow> world \<Rightarrow> (go_error, request_approval_response) result \<times> world" where
  "RequestApproval r ctx i =
     with_id r ctx i (\<lambda>e.
       spend_call r ctx (write_request (e @ ''/request_approval'') None)
         (\<lambda>status body.
            if \<not> successful status then Inl (APIErr (newSpendAPIError ''request approval'' status body))
            else decode_approval body))"

fun items_error :: "nat \<Rightarrow> spend_request list \<Rightarrow> string option" where
  "items_error i [] = None"
| "items_error i (r # rs) =
     (case validateSpendRequestResponse r of
        Some e \<Rightarrow> Some (''item '' @ show_nat i @ '': '' @ e)
      | None \<Rightarrow> items_error (Suc i) rs)"

text \<open>The envelope keeps the raw value of its last \<open>data\<close> member.\<close>

definition decode_list :: "string \<Rightarrow> (go_error, spend_request list) result" where
  "decode_list body =
     (if \<not> isJSONObject body
      then Inl (malformedSpendResponse ''list spend requests'' ''expected a JSON object envelope'')
      else (case parse_json body of
              Some (JObj ms) \<Rightarrow>
                (let data = field_values ''data'' ms in
                 if data = [] \<or> last data = JNull then Inr []
                 else if \<not> snd (d_slice dec_spend_request [last data])
                 then Inl (malformedSpendResponse ''list spend requests'' json_error_text)
                 else (let requests = elements (fst (d_slice dec_spend_request [last data]))
                       in case items_error 0 requests of
                            Some e \<Rightarrow> Inl (malformedSpendResponse ''list spend requests'' e)
                          | None \<Rightarrow> Inr requests))
            | _ \<Rightarrow> Inl (malformedSpendResponse ''list spend requests'' json_error_text)))"

definition ListSpendRequests ::
  "resource \<Rightarrow> go_context \<Rightarrow> world \<Rightarrow> (go_error, spend_request list) result \<times> world" where
  "ListSpendRequests r ctx w =
     (case (spend_validate r ctx, r) of
        (None, Some c) \<Rightarrow>
          spend_call r ctx (read_request (endpoint c))
            (\<lambda>status body.
               if \<not> successful status then Inl (APIErr (newSpendAPIError ''list spend requests'' status body))
               else decode_list body) w
      | (Some e, _) \<Rightarrow> (Inl e, w)
      | _ \<Rightarrow> (Inl (invalid_argument ''spend-request resource is not configured''), w))"

end
