(* ===== verification/Resources.thy ===== *)
theory Resources
  imports SpendRequests
begin

text \<open>
  The read-only resources and the reports: payment_methods.go, shipping_addresses.go, user_info.go
  and reports.go. Each builds one request, lets \<open>doJSON\<close> decode the reply into a pointer (nil for
  \<open>null\<close>), and adds its own text to an \<open>APIError\<close>.
\<close>

definition resource_validate :: "resource \<Rightarrow> go_context \<Rightarrow> string \<Rightarrow> go_error option" where
  "resource_validate r ctx what =
     (if ctx = None then Some (invalid_argument ''context must not be nil'')
      else (case r of
              None \<Rightarrow> Some (invalid_argument (what @ '' resource is not configured''))
            | Some c \<Rightarrow>
                (if c_apiBaseURL c = [] then Some (invalid_argument (what @ '' resource is not configured''))
                 else None)))"

definition expected_object :: go_error where
  "expected_object = Msg ''stripelink: decode successful response: expected JSON object''"

text \<open>\<open>doJSON[*T]\<close> and what follows it in every resource.\<close>

definition fetch_pointer ::
  "'a decoder \<Rightarrow> resource \<Rightarrow> go_context \<Rightarrow> api_request \<Rightarrow> string \<Rightarrow> world \<Rightarrow> (go_error, 'a) result \<times> world" where
  "fetch_pointer d r ctx req operation w =
     (case doJSON (\<lambda>v. d_ptr d [v]) r ctx req w of
        (Inl e, w1) \<Rightarrow> (Inl (resourceOperationError e operation), w1)
      | (Inr None, w1) \<Rightarrow> (Inl expected_object, w1)
      | (Inr (Some x), w1) \<Rightarrow> (Inr x, w1))"

text \<open>An envelope with one list: the list of its last occurrence, decoded over what came before.\<close>

definition dec_envelope :: "string \<Rightarrow> 'a decoder \<Rightarrow> 'a list option decoder" where
  "dec_envelope name d vs =
     (let l = f_slice d name vs in (fst l, objects vs \<and> snd l))"

definition ListPaymentMethods ::
  "resource \<Rightarrow> go_context \<Rightarrow> world \<Rightarrow> (go_error, payment_method list) result \<times> world" where
  "ListPaymentMethods r ctx w =
     (case (resource_validate r ctx ''payment-methods'', r) of
        (None, Some c) \<Rightarrow>
          (case fetch_pointer (dec_envelope ''payment_details'' dec_payment_method) r ctx
                  (read_request (c_apiBaseURL c @ ''/payment-details'')) ''Failed to list payment methods'' w of
             (Inl e, w1) \<Rightarrow> (Inl e, w1)
           | (Inr l, w1) \<Rightarrow> (Inr (elements l), w1))
      | (Some e, _) \<Rightarrow> (Inl e, w)
      | _ \<Rightarrow> (Inl expected_object, w))"

definition ListShippingAddresses ::
  "resource \<Rightarrow> go_context \<Rightarrow> world \<Rightarrow> (go_error, shipping_address_record list) result \<times> world" where
  "ListShippingAddresses r ctx w =
     (case (resource_validate r ctx ''shipping-addresses'', r) of
        (None, Some c) \<Rightarrow>
          (case fetch_pointer (dec_envelope ''shipping_addresses'' dec_shipping_address_record) r ctx
                  (read_request (c_apiBaseURL c @ ''/shipping_addresses'')) ''Failed to list shipping addresses'' w of
             (Inl e, w1) \<Rightarrow> (Inl e, w1)
           | (Inr l, w1) \<Rightarrow> (Inr (elements l), w1))
      | (Some e, _) \<Rightarrow> (Inl e, w)
      | _ \<Rightarrow> (Inl expected_object, w))"

definition RetrieveUserInfo :: "resource \<Rightarrow> go_context \<Rightarrow> world \<Rightarrow> (go_error, user_info) result \<times> world" where
  "RetrieveUserInfo r ctx w =
     (case (resource_validate r ctx ''user-info'', r) of
        (None, Some c) \<Rightarrow>
          fetch_pointer dec_user_info r ctx (read_request (c_apiBaseURL c @ ''/userinfo''))
            ''Failed to retrieve user info'' w
      | (Some e, _) \<Rightarrow> (Inl e, w)
      | _ \<Rightarrow> (Inl expected_object, w))"

definition report_complete :: "report_record \<Rightarrow> bool" where
  "report_complete r \<longleftrightarrow>
     \<not> (trim_space (rr_object r) = [] \<or> trim_space (rr_created_at r) = [] \<or> trim_space (rr_domain r) = [] \<or>
        trim_space (rr_outcome r) = [] \<or> trim_space (rr_spend_request_id r) = [] \<or> trim_space (rr_status r) = [])"

definition CreateReport ::
  "resource \<Rightarrow> go_context \<Rightarrow> create_report_params \<Rightarrow> world \<Rightarrow> (go_error, report_record) result \<times> world" where
  "CreateReport r ctx p w =
     (case (resource_validate r ctx ''reports'', r) of
        (None, Some c) \<Rightarrow>
          (case fetch_pointer dec_report_record r ctx
                  (write_request (c_apiBaseURL c @ ''/agent_observations'') (Some (compact (enc_report_params p))))
                  ''Failed to create report'' w of
             (Inl e, w1) \<Rightarrow> (Inl e, w1)
           | (Inr x, w1) \<Rightarrow>
               (if \<not> report_complete x
                then (Inl (Msg ''stripelink: decode successful report response: missing required field''), w1)
                else (Inr x, w1)))
      | (Some e, _) \<Rightarrow> (Inl e, w)
      | _ \<Rightarrow> (Inl expected_object, w))"

end
