(* ===== verification/Client.thy ===== *)
theory Client
  imports TokenProvider Resources FileStorage
begin

text \<open>
  The construction of a client: client.go, and \<open>NewFileStorage\<close> of storage.go. The process
  environment \<open>NewClient\<close> reads is a record; the caller's \<open>http.Client\<close> is the state of its
  \<open>Transport\<close> field, since the others are copied.
\<close>

section \<open>Configuration\<close>

text \<open>The variables \<open>NewClient\<close> reads, what \<open>os.UserConfigDir\<close> and \<open>os.Getwd\<close> return, and whether
  \<open>http.DefaultTransport\<close> is still an \<open>*http.Transport\<close>.\<close>

record environment =
  en_auth_base_url :: string
  en_api_base_url :: string
  en_http_proxy :: string
  en_config_dir :: "(go_error, string) result"
  en_working_dir :: "(go_error, string) result"
  en_default_transport :: bool

text \<open>An interface value: nil, a nil pointer of some type, or a usable value.\<close>

datatype 'a interface = NilInterface | TypedNil | Value 'a

definition isNilInterface :: "'a interface \<Rightarrow> bool" where
  "isNilInterface v = (case v of NilInterface \<Rightarrow> True | TypedNil \<Rightarrow> True | Value x \<Rightarrow> False)"

record options =
  op_ClientName :: string
  op_AccessToken :: string
  op_GetAccessToken :: "token_func option"
  op_AuthStorage :: "auth_storage interface"
  op_HTTPClient :: "unit interface option"
  op_DefaultHeaders :: headers
  op_MaxResponseBodyBytes :: int
  op_AuthBaseURL :: string
  op_APIBaseURL :: string
  op_SpendRequestBaseURL :: string
  op_Verbose :: bool

definition defaultAuthBaseURL :: string where "defaultAuthBaseURL = ''https://login.link.com''"
definition defaultAPIBaseURL :: string where "defaultAPIBaseURL = ''https://api.link.com''"
definition defaultClientName :: string where "defaultClientName = ''github.com/mackross/stripelink''"
definition defaultMaxResponseBodyBytes :: int where "defaultMaxResponseBodyBytes = 4 * 2 ^ 20"

section \<open>Base URLs\<close>

definition isLoopbackHost :: "string \<Rightarrow> bool" where
  "isLoopbackHost host \<longleftrightarrow>
     fold_name host = fold_name ''localhost'' \<or>
     (case parse_ip host of Some ip \<Rightarrow> ip_is_loopback ip | None \<Rightarrow> False)"

definition trim_base_path :: "url \<Rightarrow> url" where
  "trim_base_path u =
     (if u_raw_path u = [] then u\<lparr>u_path := trim_right_slashes (u_path u)\<rparr>
      else (let trimmedRawPath = trim_right_slashes (u_raw_path u);
                literalSlashesRemoved = length (u_raw_path u) - length trimmedRawPath
            in u\<lparr>u_raw_path := trimmedRawPath,
                  u_path := ((\<lambda>p. trim_suffix p ''/'') ^^ literalSlashesRemoved) (u_path u)\<rparr>))"

definition normalizeBaseURL :: "string \<Rightarrow> (go_error, string) result" where
  "normalizeBaseURL rawURL =
     (case url_parse rawURL of
        None \<Rightarrow> Inl url_error
      | Some u \<Rightarrow>
          (if \<not> url_is_abs u \<or> u_opaque u \<noteq> [] \<or> u_host u = []
           then Inl (Msg ''must be an absolute hierarchical URL with a host'')
           else if u_scheme u \<noteq> ''http'' \<and> u_scheme u \<noteq> ''https'' then Inl (Msg ''scheme must be http or https'')
           else if u_user u \<noteq> None then Inl (Msg ''user information is not permitted'')
           else if u_raw_query u \<noteq> [] \<or> u_force_query u then Inl (Msg ''query is not permitted'')
           else if u_fragment u \<noteq> [] \<or> u_raw_fragment u \<noteq> [] then Inl (Msg ''fragment is not permitted'')
           else if u_scheme u = ''http'' \<and> \<not> isLoopbackHost (url_hostname u)
           then Inl (Msg ''plain HTTP is permitted only for loopback hosts'')
           else Inr (url_string (trim_base_path u))))"

definition resolveBaseURL :: "string \<Rightarrow> string \<Rightarrow> string \<Rightarrow> (go_error, string) result" where
  "resolveBaseURL option environment fallback =
     normalizeBaseURL (if option \<noteq> [] then option else if environment \<noteq> [] then environment else fallback)"

section \<open>Default headers\<close>

definition reservedDefaultHeaders :: "string list" where
  "reservedDefaultHeaders =
     [''Authorization'', ''Proxy-Authenticate'', ''Proxy-Authorization'', ''Cookie'', ''Set-Cookie'', ''Host'',
      ''Content-Length'', ''Transfer-Encoding'', ''Connection'', ''Keep-Alive'', ''Proxy-Connection'', ''Te'',
      ''Trailer'', ''Upgrade'']"

text \<open>\<open>textproto.CanonicalMIMEHeaderKey\<close>: a token gets its words capitalised, anything else is left
  as it is. A token byte is one a request method may contain.\<close>

fun canonical_from :: "bool \<Rightarrow> string \<Rightarrow> string" where
  "canonical_from up [] = []"
| "canonical_from up (c # cs) = (if up then upper c else to_lower c) # canonical_from (c = CHR ''-'') cs"

definition CanonicalMIMEHeaderKey :: "string \<Rightarrow> string" where
  "CanonicalMIMEHeaderKey s = (if list_all method_char s then canonical_from True s else s)"

definition line_break :: string where "line_break = [CHR 0x0D, CHR 0x0A]"

text \<open>The loop over the map, in the order it happens to iterate.\<close>

fun copy_headers :: "headers \<Rightarrow> headers \<Rightarrow> (go_error, headers) result" where
  "copy_headers [] acc = Inr acc"
| "copy_headers ((name, value) # hs) acc =
     (let canonicalName = CanonicalMIMEHeaderKey name
      in if canonicalName = [] \<or> contains_any name line_break then Inl (Msg ''invalid header name'')
         else if canonicalName \<in> set reservedDefaultHeaders then Inl (Msg ''header is reserved'')
         else if contains_any value line_break then Inl (Msg ''header has an invalid value'')
         else copy_headers hs (header_set canonicalName value acc))"

definition copyAndValidateDefaultHeaders :: "headers \<Rightarrow> (go_error, headers) result" where
  "copyAndValidateDefaultHeaders hs = copy_headers hs []"

section \<open>The HTTP client\<close>

text \<open>The proxy of the transport \<open>NewClient\<close> builds.\<close>

definition resolve_proxy :: "string \<Rightarrow> (go_error, url option) result" where
  "resolve_proxy raw =
     (if raw = [] then Inr None
      else (case url_parse raw of
              None \<Rightarrow> Inl (Wrapf ''invalid LINK_HTTP_PROXY'' [url_error])
            | Some p \<Rightarrow>
                (if \<not> url_is_abs p \<or> u_host p = [] \<or> (u_scheme p \<noteq> ''http'' \<and> u_scheme p \<noteq> ''https'')
                 then Inl (Msg ''invalid LINK_HTTP_PROXY: proxy must be an absolute HTTP(S) URL'')
                 else Inr (Some p))))"

text \<open>A nil transport of the caller's client is the default transport. Redirects are always refused;
  what the network does behind the transport is \<open>w_http\<close>.\<close>

definition resolveHTTPClient ::
  "unit interface option \<Rightarrow> string \<Rightarrow> bool \<Rightarrow> headers \<Rightarrow> (go_error, http_client) result" where
  "resolveHTTPClient caller rawProxyURL default_transport defaultHeaders =
     (case (case caller of
              Some transport \<Rightarrow>
                (if transport \<noteq> NilInterface \<and> isNilInterface transport
                 then Some (Msg ''custom HTTP transport is typed nil'') else None)
            | None \<Rightarrow>
                (if \<not> default_transport then Some (Msg ''default transport has unexpected type'')
                 else (case resolve_proxy rawProxyURL of Inl e \<Rightarrow> Some e | Inr p \<Rightarrow> None))) of
        Some e \<Rightarrow> Inl e
      | None \<Rightarrow> Inr \<lparr>hc_default_headers = defaultHeaders\<rparr>)"

section \<open>NewFileStorage\<close>

text \<open>\<open>filepath.Clean\<close>: elements of the cleaned path, last first.\<close>

fun clean_elements :: "bool \<Rightarrow> string list \<Rightarrow> string list \<Rightarrow> string list" where
  "clean_elements rooted acc [] = acc"
| "clean_elements rooted acc (e # es) =
     (if e = [] \<or> e = ''.'' then clean_elements rooted acc es
      else if e \<noteq> ''..'' then clean_elements rooted (e # acc) es
      else if acc \<noteq> [] \<and> hd acc \<noteq> ''..'' then clean_elements rooted (tl acc) es
      else if rooted then clean_elements rooted acc es
      else clean_elements rooted (''..'' # acc) es)"

definition clean_path :: "string \<Rightarrow> string" where
  "clean_path p =
     (let rooted = has_prefix p ''/'';
          es = rev (clean_elements rooted [] (split_on (CHR ''/'') p))
      in if rooted then CHR ''/'' # join ''/'' es else if es = [] then ''.'' else join ''/'' es)"

definition join_path :: "string list \<Rightarrow> string" where
  "join_path es = (let ne = filter (\<lambda>e. e \<noteq> []) es in if ne = [] then [] else clean_path (join ''/'' ne))"

definition abs_path :: "environment \<Rightarrow> string \<Rightarrow> (go_error, string) result" where
  "abs_path env p =
     (if has_prefix p ''/'' then Inr (clean_path p)
      else (case en_working_dir env of Inl e \<Rightarrow> Inl e | Inr wd \<Rightarrow> Inr (join_path [wd, p])))"

text \<open>The path; the storage itself is \<open>FileStorage (Some path)\<close>.\<close>

definition NewFileStorage :: "environment \<Rightarrow> string \<Rightarrow> (go_error, string) result" where
  "NewFileStorage env path =
     (case (if path = []
            then (case en_config_dir env of
                    Inl e \<Rightarrow> Inl (Wrapf ''resolve user config directory'' [e])
                  | Inr root \<Rightarrow> Inr (join_path [root, ''stripelink'', ''auth.json'']))
            else Inr path) of
        Inl e \<Rightarrow> Inl e
      | Inr p \<Rightarrow>
          (case abs_path env p of
             Inl e \<Rightarrow> Inl (Wrapf ''resolve auth storage path'' [e])
           | Inr a \<Rightarrow> Inr (clean_path a)))"

section \<open>NewClient\<close>

record client =
  cl_Auth :: auth_resource
  cl_SpendRequests :: resource
  cl_PaymentMethods :: resource
  cl_ShippingAddresses :: resource
  cl_UserInfo :: resource
  cl_WebBotAuth :: resource
  cl_Reports :: resource

definition invalid_configuration :: "string \<Rightarrow> go_error \<Rightarrow> go_error" where
  "invalid_configuration what e = Wrapf what [Sentinel ErrInvalidConfiguration, e]"

definition resolve_storage :: "environment \<Rightarrow> options \<Rightarrow> (go_error, auth_storage) result" where
  "resolve_storage env opts =
     (case op_AuthStorage opts of
        NilInterface \<Rightarrow>
          (case NewFileStorage env [] of
             Inl e \<Rightarrow> Inl (invalid_configuration ''auth storage'' e)
           | Inr path \<Rightarrow> Inr (FileStorage (Some path)))
      | TypedNil \<Rightarrow> Inl (Wrapf ''auth storage: typed-nil AuthStorage'' [Sentinel ErrInvalidConfiguration])
      | Value s \<Rightarrow> Inr s)"

text \<open>The switch that wires the token source. The resources share one core; the provider's copy has
  no token source of its own, which the requests it makes never use.\<close>

definition wire_tokens :: "options \<Rightarrow> core \<Rightarrow> core" where
  "wire_tokens opts c =
     (case op_GetAccessToken opts of
        Some g \<Rightarrow> c\<lparr>c_getAccessToken := Some g\<rparr>
      | None \<Rightarrow>
          (if op_AccessToken opts \<noteq> []
           then c\<lparr>c_getAccessToken := Some (\<lambda>ctx rq w. (Inr (op_AccessToken opts), w))\<rparr>
           else (let m = c\<lparr>c_managesSession := True\<rparr>;
                     p = \<lparr>pv_storage = Some (c_storage c), pv_auth = Some \<lparr>au_core = m, au_hostname = None\<rparr>\<rparr>
                 in m\<lparr>c_getAccessToken := Some (token p)\<rparr>)))"

definition client_of :: "core \<Rightarrow> client" where
  "client_of c =
     \<lparr>cl_Auth = \<lparr>au_core = c, au_hostname = None\<rparr>, cl_SpendRequests = Some c, cl_PaymentMethods = Some c,
      cl_ShippingAddresses = Some c, cl_UserInfo = Some c, cl_WebBotAuth = Some c, cl_Reports = Some c\<rparr>"

text \<open>Configuration failures wrap \<open>ErrInvalidConfiguration\<close> and their cause.\<close>

definition or_config :: "string \<Rightarrow> (go_error, 'a) result \<Rightarrow> ('a \<Rightarrow> (go_error, 'b) result) \<Rightarrow> (go_error, 'b) result" where
  "or_config what r k = (case r of Inl e \<Rightarrow> Inl (invalid_configuration what e) | Inr x \<Rightarrow> k x)"

definition new_core :: "environment \<Rightarrow> options \<Rightarrow> (go_error, core) result" where
  "new_core env opts =
     or_config ''auth base URL'' (resolveBaseURL (op_AuthBaseURL opts) (en_auth_base_url env) defaultAuthBaseURL)
       (\<lambda>authBaseURL.
     or_config ''API base URL'' (resolveBaseURL (op_APIBaseURL opts) (en_api_base_url env) defaultAPIBaseURL)
       (\<lambda>apiBaseURL.
     or_config ''spend-request base URL''
       (if op_SpendRequestBaseURL opts \<noteq> [] then normalizeBaseURL (op_SpendRequestBaseURL opts) else Inr apiBaseURL)
       (\<lambda>spendRequestBaseURL.
     if op_MaxResponseBodyBytes opts < 0
     then Inl (Wrapf ''MaxResponseBodyBytes must not be negative'' [Sentinel ErrInvalidConfiguration])
     else
     or_config ''default headers'' (copyAndValidateDefaultHeaders (op_DefaultHeaders opts))
       (\<lambda>defaultHeaders.
     or_config ''HTTP client''
       (resolveHTTPClient (op_HTTPClient opts) (en_http_proxy env) (en_default_transport env) defaultHeaders)
       (\<lambda>httpClient.
     case resolve_storage env opts of
       Inl e \<Rightarrow> Inl e
     | Inr storage \<Rightarrow>
         Inr \<lparr>c_clientName = (if op_ClientName opts = [] then defaultClientName else op_ClientName opts),
              c_httpClient = Some httpClient, c_getAccessToken = None, c_storage = storage,
              c_authBaseURL = authBaseURL, c_apiBaseURL = apiBaseURL, c_spendRequestBaseURL = spendRequestBaseURL,
              c_verbose = op_Verbose opts, c_managesSession = False,
              c_maxResponseBodyBytes = (if op_MaxResponseBodyBytes opts = 0 then defaultMaxResponseBodyBytes
                                        else op_MaxResponseBodyBytes opts)\<rparr>)))))"

definition NewClient :: "environment \<Rightarrow> options \<Rightarrow> (go_error, client) result" where
  "NewClient env opts = map_sum id (\<lambda>c. client_of (wire_tokens opts c)) (new_core env opts)"

end
