(* ===== verification/ClientSpec.thy ===== *)
theory ClientSpec
  imports Client TokenSpec
begin

text \<open>
  What a constructed client guarantees: the shape of its URLs, its default headers, and that the
  token source it installs uses no URL but the token endpoint.
\<close>

section \<open>The token source\<close>

lemma ticks_sent_to: "ticks w w' \<Longrightarrow> sent_to u w' = sent_to u w"
  by (simp add: sent_to_def ticks_def local_step_def)

lemma local_sent_to: "local_step w w' \<Longrightarrow> sent_to u w' = sent_to u w"
  by (simp add: sent_to_def local_step_def)

lemma postForm_sent_to:
  assumes "postForm a ctx path vs w = (r, w')" "u \<noteq> c_authBaseURL (au_core a) @ path"
  shows "sent_to u w' = sent_to u w"
proof -
  obtain e w1 where e: "requireContext ctx w = (e, w1)" by fastforce
  have s1: "sent_to u w1 = sent_to u w"
    using e by (intro ticks_sent_to) (auto simp: requireContext_eq intro: contextFailure_ticks)
  obtain x w2 where x: "core_do (Some (au_core a)) ctx (form_request a path vs) w1 = (x, w2)" by fastforce
  have "sent_to u w2 = sent_to u w1"
  proof (cases "c_httpClient (au_core a)")
    case None
    with x show ?thesis by (auto simp: core_do_def split: if_splits)
  next
    case (Some hc)
    have "sends u hc (form_request a path vs) 1 w1 w2"
      by (rule core_do_sends_plain [OF x Some]) (simp add: form_request_def)
    from sends_url [OF this] assms(2) show ?thesis by (auto simp: form_request_def)
  qed
  with assms(1) e x s1 show ?thesis by (auto simp: postForm_def split: option.splits sum.splits)
qed

lemma RefreshToken_sent_to:
  assumes "RefreshToken a ctx t w = (r, w')" "u \<noteq> c_authBaseURL (au_core a) @ ''/device/token''"
  shows "sent_to u w' = sent_to u w"
proof -
  obtain e w1 where e: "requireContext ctx w = (e, w1)" by fastforce
  have s1: "sent_to u w1 = sent_to u w"
    using e by (intro ticks_sent_to) (auto simp: requireContext_eq intro: contextFailure_ticks)
  obtain x w2 where x: "postForm a ctx ''/device/token'' (refresh_form t) w1 = (x, w2)" by fastforce
  have s2: "sent_to u w2 = sent_to u w1" by (rule postForm_sent_to [OF x assms(2)])
  have d: "sent_to u w3 = sent_to u w2" if "decodeAuthTokens b w2 = (y, w3)" for b y w3
    using that by (auto simp: decodeAuthTokens_def time_now_def sent_to_def split: sum.splits if_splits option.splits)
  consider "w' = w1" | "w' = w2" | b y where "decodeAuthTokens b w2 = (y, w')"
    using assms(1) e x by (auto simp: RefreshToken_def split: option.splits sum.splits if_splits prod.splits)
  then show ?thesis using s1 s2 d by cases auto
qed

lemma decide_ticks: "decide rq stored w = (d, w') \<Longrightarrow> ticks w w'"
  by (auto simp: decide_def intro: time_now_ticks split: option.splits if_splits prod.splits bool.splits)

lemma wait_alone_ticks: "wait_alone ctx r w = (x, w') \<Longrightarrow> ticks w w'"
  by (auto simp: wait_alone_def time_now_def split: option.splits if_splits)

text \<open>The worlds of a class whose clock is \<open>k\<close> and which have seen at least \<open>n\<close> ticks.\<close>

definition timed :: "(world \<Rightarrow> bool) \<Rightarrow> (nat \<Rightarrow> int) \<Rightarrow> nat \<Rightarrow> world \<Rightarrow> bool" where
  "timed ok k n w \<longleftrightarrow> ok w \<and> w_clock w = k \<and> n \<le> w_tick w"

lemma timed_start: "ok w \<Longrightarrow> timed ok (w_clock w) (w_tick w) w"
  by (simp add: timed_def)

context auth_storage_contract begin

definition apart :: "string \<Rightarrow> world \<Rightarrow> world \<Rightarrow> bool" where
  "apart u w w' \<longleftrightarrow> inv w \<longrightarrow>
     sent_to u w' = sent_to u w \<and> inv w' \<and> w_clock w' = w_clock w \<and> w_tick w \<le> w_tick w'"

lemma apart_refl: "apart u w w"
  by (simp add: apart_def)

lemma apart_trans: "apart u w1 w2 \<Longrightarrow> apart u w2 w3 \<Longrightarrow> apart u w1 w3"
  by (auto simp: apart_def)

lemma apart_local: "local_step w w' \<and> inv w' \<Longrightarrow> apart u w w'"
  by (auto simp: apart_def local_sent_to) (simp_all add: local_step_def)

lemma apart_ticks: "ticks w w' \<Longrightarrow> apart u w w'"
  using ticks_keep [of w w'] by (auto simp: apart_def ticks_sent_to) (simp_all add: ticks_def local_step_def)

lemma apart_load: "as_load S ctx w = (r, w') \<Longrightarrow> apart u w w'"
  using load_keeps [of ctx w r w'] apart_local [of w w' u] by (auto simp: apart_def)

lemma apart_transact: "as_transact S ctx (Some f) cap w = (rt, w') \<Longrightarrow> callback_pure f \<Longrightarrow> apart u w w'"
  using transact_local [of ctx f cap w rt w'] apart_local [of w w' u] by (auto simp: apart_def)

lemma runRefresh_apart:
  assumes "runRefresh S a ctx source w = (r, w')" "u \<noteq> c_authBaseURL (au_core a) @ ''/device/token''"
  shows "apart u w w'"
proof -
  obtain x w1 where x: "RefreshToken a ctx (at_refresh_token source) w = (x, w1)" by fastforce
  have s1: "apart u w w1"
    using RefreshToken_sent_to [OF x assms(2)] outside_keep [OF RefreshToken_outside [OF x]] RefreshToken_outside [OF x]
    by (simp add: apart_def outside_step_def)
  have f: "apart u w1 w2" if "refresh_fallback S ctx source e w1 = (y, w2)" for e y w2
    using that by (auto simp: refresh_fallback_def intro: apart_load split: sum.splits option.splits if_splits prod.splits)
  have c: "apart u w1 w2" if "refresh_commit S ctx source t w1 = (y, w2)" for t y w2
  proof -
    obtain c v where v: "detachedAuthContext ctx w1 = (c, v)" by fastforce
    obtain z v' where z: "as_transact S c (Some (persist_callback source t)) (no_captures\<lparr>cap_auth := Some t\<rparr>) v = (z, v')"
      by fastforce
    have "w2 = v'" using that v z by (auto simp: refresh_commit_def split: option.splits prod.splits)
    then show ?thesis
      using apart_ticks [OF detachedAuthContext_ticks [OF v]] apart_transact [OF z persist_pure] by (blast intro: apart_trans)
  qed
  show ?thesis
  proof (cases x)
    case (Inl e)
    with assms(1) x have "refresh_fallback S ctx source e w1 = (r, w')" by (simp add: runRefresh_def)
    from apart_trans [OF s1 f [OF this]] show ?thesis .
  next
    case (Inr t)
    with assms(1) x have "w' = w1 \<or> refresh_commit S ctx source t w1 = (r, w')"
      by (auto simp: runRefresh_def split: if_splits)
    then show ?thesis using s1 apart_trans [OF s1 c] by blast
  qed
qed

lemma token_apart:
  assumes "pv_storage p = Some S" "pv_auth p = Some a" "u \<noteq> c_authBaseURL (au_core a) @ ''/device/token''"
    and t: "token p ctx rq w = (x, w')"
  shows "apart u w w'"
proof -
  obtain e1 w1 where 1: "requireContext ctx w = (e1, w1)" by fastforce
  obtain e2 w2 where 2: "storageGate_lock ctx w1 = (e2, w2)" by fastforce
  obtain e3 w3 where 3: "as_load S ctx w2 = (e3, w3)" by fastforce
  have s1: "apart u w w1" using 1 by (auto simp: requireContext_eq intro: apart_ticks contextFailure_ticks)
  have s2: "apart u w w2" using s1 apart_ticks [OF storageGate_lock_ticks [OF 2]] by (rule apart_trans)
  have s3: "apart u w w3" using s2 apart_load [OF 3] by (rule apart_trans)
  show ?thesis
  proof (cases "e1 = None \<and> e2 = None \<and> (\<exists>s. e3 = Inr (Some s))")
    case False
    with t 1 2 3 s1 s2 s3 assms(1,2) show ?thesis
      by (auto simp: token_def split: option.splits sum.splits)
  next
    case True
    then obtain s where s: "e1 = None" "e2 = None" "e3 = Inr (Some s)" by blast
    obtain d w4 where 4: "decide rq (st_auth s) w3 = (d, w4)" by fastforce
    have s4: "apart u w w4" using s3 apart_ticks [OF decide_ticks [OF 4]] by (rule apart_trans)
    show ?thesis
    proof (cases d)
      case (Refresh stored)
      obtain rc w5 where 5: "detachedAuthContext ctx w4 = (rc, w5)" by fastforce
      obtain r w6 where 6: "runRefresh S a rc stored w5 = (r, w6)" by fastforce
      have "wait_alone ctx r w6 = (x, w')"
        using t 1 2 3 s 4 Refresh 5 6 assms(1,2) by (simp add: token_def)
      then show ?thesis
        using s4 apart_ticks [OF detachedAuthContext_ticks [OF 5]] runRefresh_apart [OF 6 assms(3)]
          apart_ticks [OF wait_alone_ticks] by (blast intro: apart_trans)
    qed (use t 1 2 3 s 4 s4 assms(1,2) in \<open>auto simp: token_def\<close>)
  qed
qed

text \<open>The refreshing source uses no URL but the token endpoint, and neither sets the clock nor turns the
  ticks back.\<close>

lemma refreshing_source:
  assumes "pv_storage p = Some S" "pv_auth p = Some a"
  shows "token_source (token p) (timed inv k n) {c_authBaseURL (au_core a) @ ''/device/token''}"
proof
  have out: "u \<noteq> c_authBaseURL (au_core a) @ ''/device/token'' \<Longrightarrow> token p ctx rq w = (x, w') \<Longrightarrow> apart u w w'" for u ctx rq w x w'
    by (rule token_apart [OF assms])
  show "timed inv k n w \<Longrightarrow> timed inv k n w'" if "outside_step w w'" for w w'
    using outside_keep [OF that] that by (auto simp: timed_def outside_step_def)
  show "token p ctx rq w = (x, w') \<Longrightarrow> timed inv k n w \<Longrightarrow> timed inv k n w'" for ctx rq w x w'
    using out [of "c_authBaseURL (au_core a) @ ''/device/token/''" ctx rq w x w'] by (auto simp: apart_def timed_def)
  show "token p ctx rq w = (x, w') \<Longrightarrow> timed inv k n w \<Longrightarrow> u \<notin> {c_authBaseURL (au_core a) @ ''/device/token''} \<Longrightarrow>
      sent_to u w' = sent_to u w" for ctx rq w x w' u
    using out [of u ctx rq w x w'] by (simp add: apart_def timed_def)
qed

sublocale refreshing: token_source "token \<lparr>pv_storage = Some S, pv_auth = Some a\<rparr>" "timed inv k n"
  "{c_authBaseURL (au_core a) @ ''/device/token''}" for a k n
  by (rule refreshing_source) simp_all

end

section \<open>Base URLs\<close>

text \<open>A URL the client may put a bearer token on: HTTPS, or HTTP to a loopback host, with a host that
  ends where its path begins, and neither query nor fragment for a path to be lost in.\<close>

definition secure_base :: "string \<Rightarrow> bool" where
  "secure_base s \<longleftrightarrow> (\<exists>v p. s = u_scheme v @ ''://'' @ url_escape EHost (u_host v) @ p \<and>
     (u_scheme v = ''https'' \<or> u_scheme v = ''http'' \<and> isLoopbackHost (url_hostname v)) \<and> u_host v \<noteq> [] \<and>
     set (url_escape EHost (u_host v)) \<inter> set ''/?#@'' = {} \<and>
     (p = [] \<or> hd p = CHR ''/'') \<and> set p \<inter> set ''?#'' = {})"

lemma hex_not_mark: "n < 16 \<Longrightarrow> upper_hex n \<notin> set ''/?#@''"
  by (auto simp: upper_hex_def char_of_eq_byte byte_def)

lemma escape_byte_avoids:
  assumes "\<forall>c \<in> set ms. should_escape m c" "set ms \<subseteq> set ''/?#@''"
  shows "set (escape_byte m c) \<inter> set ms = {}"
proof (cases "should_escape m c \<or> m = EQuery \<and> c = CHR '' ''")
  case True
  have "byte c div 16 < 16" "byte c mod 16 < 16" using byte_less [of c] by auto
  then have "upper_hex (byte c div 16) \<notin> set ''/?#@''" "upper_hex (byte c mod 16) \<notin> set ''/?#@''"
    by (simp_all only: hex_not_mark not_False_eq_True)
  moreover have "CHR ''%'' \<notin> set ''/?#@''" "CHR ''+'' \<notin> set ''/?#@''" by simp_all
  moreover have "set (escape_byte m c) \<subseteq>
      {CHR ''%'', CHR ''+'', upper_hex (byte c div 16), upper_hex (byte c mod 16)}"
    using True by (auto simp: escape_byte_def)
  ultimately show ?thesis using assms(2) by blast
next
  case False
  with assms(1) show ?thesis by (auto simp: escape_byte_def)
qed

lemma escape_avoids:
  "\<forall>c \<in> set ms. should_escape m c \<Longrightarrow> set ms \<subseteq> set ''/?#@'' \<Longrightarrow> set (url_escape m s) \<inter> set ms = {}"
  using escape_byte_avoids [of ms m] by (fastforce simp: url_escape_def)

lemma escaped_host_marks: "set (url_escape EHost s) \<inter> set ''/?#@'' = {}"
proof (rule escape_avoids)
  have "list_all (should_escape EHost) ''/?#@''" by code_simp
  then show "\<forall>c \<in> set ''/?#@''. should_escape EHost c" by (simp only: list_all_iff)
qed simp

lemma path_marks: "\<forall>c \<in> set ''?#''. should_escape EPath c"
proof -
  have "list_all (should_escape EPath) ''?#''" by code_simp
  then show ?thesis by (simp only: list_all_iff)
qed

lemma escaped_path_marks: "set (escaped_path u) \<inter> set ''?#'' = {}"
proof -
  have "set (u_raw_path u) \<inter> set ''?#'' = {}" if "valid_encoded EPath (u_raw_path u)"
    using that path_marks by (fastforce simp: valid_encoded_def list_all_iff)
  moreover have "set (url_escape EPath (u_path u)) \<inter> set ''?#'' = {}" by (rule escape_avoids [OF path_marks]) auto
  ultimately show ?thesis unfolding escaped_path_def by auto
qed

lemma url_string_base:
  assumes "u_scheme u \<noteq> []" "u_opaque u = []" "u_host u \<noteq> []" "u_user u = None" "\<not> u_force_query u"
    "u_raw_query u = []" "u_fragment u = []"
  shows "\<exists>p. url_string u = u_scheme u @ ''://'' @ url_escape EHost (u_host u) @ p \<and>
    (p = [] \<or> hd p = CHR ''/'') \<and> set p \<inter> set ''?#'' = {}"
  using assms escaped_path_marks [of u]
  by (cases "escaped_path u") (auto simp: url_string_def url_authority_def Let_def)

lemma trim_base_path_fields [simp]:
  "u_scheme (trim_base_path u) = u_scheme u" "u_opaque (trim_base_path u) = u_opaque u"
  "u_host (trim_base_path u) = u_host u" "u_user (trim_base_path u) = u_user u"
  "u_force_query (trim_base_path u) = u_force_query u" "u_raw_query (trim_base_path u) = u_raw_query u"
  "u_fragment (trim_base_path u) = u_fragment u"
  by (simp_all add: trim_base_path_def Let_def)

lemma normalizeBaseURL_secure:
  assumes "normalizeBaseURL raw = Inr s"
  shows "secure_base s"
proof -
  obtain u where u: "url_parse raw = Some u" using assms by (auto simp: normalizeBaseURL_def split: option.splits)
  with assms have g: "u_scheme u \<noteq> []" "u_opaque u = []" "u_host u \<noteq> []" "u_user u = None" "\<not> u_force_query u"
    "u_raw_query u = []" "u_fragment u = []" and s: "s = url_string (trim_base_path u)"
    and sch: "u_scheme u = ''https'' \<or> u_scheme u = ''http'' \<and> isLoopbackHost (url_hostname u)"
    by (cases "u_user u"; auto simp: normalizeBaseURL_def url_is_abs_def split: if_splits)+
  from url_string_base [of "trim_base_path u"] g obtain p where
    p: "s = u_scheme u @ ''://'' @ url_escape EHost (u_host u) @ p" "p = [] \<or> hd p = CHR ''/''"
      "set p \<inter> set ''?#'' = {}"
    unfolding s by auto
  then show ?thesis
    unfolding secure_base_def using sch g escaped_host_marks by (intro exI [of _ u] exI [of _ p]) blast
qed

section \<open>Default headers\<close>

definition lower_name :: "string \<Rightarrow> string" where "lower_name s = map to_lower s"

lemma byte_to_lower: "byte (to_lower c) = (if 65 \<le> byte c \<and> byte c \<le> 90 then byte c + 32 else byte c)"
  by (simp add: to_lower_def byte_char_of)

lemma byte_upper: "byte (upper c) = (if 97 \<le> byte c \<and> byte c \<le> 122 then byte c - 32 else byte c)"
  using byte_less [of c] by (simp add: upper_def byte_char_of)

lemma lower_upper: "to_lower (upper c) = to_lower c" "to_lower (to_lower c) = to_lower c" "upper (to_lower c) = upper c"
  by (auto simp: byte_inject [symmetric] byte_to_lower byte_upper)

lemma to_lower_dash: "to_lower c = CHR ''-'' \<longleftrightarrow> c = CHR ''-''"
  by (auto simp: byte_inject [symmetric] byte_to_lower) (auto simp: byte_def split: if_splits)

lemma lower_canonical: "lower_name (canonical_from up s) = lower_name s"
  by (induction up s rule: canonical_from.induct) (auto simp: lower_name_def lower_upper)

lemma canonical_lower: "canonical_from up (lower_name s) = canonical_from up s"
  by (induction up s rule: canonical_from.induct) (auto simp: lower_name_def lower_upper to_lower_dash)

lemma method_char_lower: "method_char (to_lower c) = method_char c"
proof (cases "65 \<le> byte c \<and> byte c \<le> 90")
  case True
  then have "is_alpha c" "is_alpha (to_lower c)" by (auto simp: is_alpha_def byte_to_lower)
  then show ?thesis by (simp add: method_char_def)
next
  case False
  then have "to_lower c = c" by (auto simp: to_lower_def)
  then show ?thesis by simp
qed

lemma reserved_canonical:
  "r \<in> set reservedDefaultHeaders \<Longrightarrow> list_all method_char r \<and> canonical_from True r = r"
proof -
  have "list_all (\<lambda>r. list_all method_char r \<and> canonical_from True r = r) reservedDefaultHeaders" by code_simp
  then show "r \<in> set reservedDefaultHeaders \<Longrightarrow> list_all method_char r \<and> canonical_from True r = r"
    by (simp only: list_all_iff) blast
qed

text \<open>A canonical name that is not reserved is not a reserved name in any capitalisation.\<close>

lemma canonical_not_reserved:
  assumes "CanonicalMIMEHeaderKey name \<notin> set reservedDefaultHeaders" "r \<in> set reservedDefaultHeaders"
  shows "lower_name (CanonicalMIMEHeaderKey name) \<noteq> lower_name r"
proof
  assume eq: "lower_name (CanonicalMIMEHeaderKey name) = lower_name r"
  then have l: "lower_name name = lower_name r"
    by (simp add: CanonicalMIMEHeaderKey_def lower_canonical split: if_splits)
  note rc = reserved_canonical [OF assms(2)]
  have m: "list_all method_char (lower_name s) = list_all method_char s" for s
    by (simp add: lower_name_def list_all_iff method_char_lower)
  have "list_all method_char name" using l rc m [of name] m [of r] by simp
  then have "CanonicalMIMEHeaderKey name = canonical_from True (lower_name name)"
    by (simp add: CanonicalMIMEHeaderKey_def canonical_lower)
  also have "\<dots> = r" using l rc by (simp add: canonical_lower)
  finally show False using assms by simp
qed

definition headers_safe :: "headers \<Rightarrow> bool" where
  "headers_safe h \<longleftrightarrow> (\<forall>e \<in> set h. \<forall>r \<in> set reservedDefaultHeaders. lower_name (fst e) \<noteq> lower_name r)"

lemma copy_headers_safe: "copy_headers hs acc = Inr h \<Longrightarrow> headers_safe acc \<Longrightarrow> headers_safe h"
proof (induction hs acc rule: copy_headers.induct)
  case (2 name v hs acc)
  let ?n = "CanonicalMIMEHeaderKey name"
  from 2(2) have ok: "?n \<notin> set reservedDefaultHeaders" and r: "copy_headers hs (header_set ?n v acc) = Inr h"
    and g: "\<not> (?n = [] \<or> contains_any name line_break)" "\<not> contains_any v line_break"
    by (auto simp: Let_def split: if_splits)
  have "headers_safe (header_set ?n v acc)"
    using 2(3) canonical_not_reserved [OF ok] by (auto simp: headers_safe_def header_set_def)
  with 2(1) [OF refl g(1) ok g(2) r] show ?case .
qed simp

lemma add_default_headers_other:
  assumes "\<forall>e \<in> set d. lower_name (fst e) \<noteq> k"
  shows "filter (\<lambda>e. lower_name (fst e) = k) (add_default_headers d h) = filter (\<lambda>e. lower_name (fst e) = k) h"
  using assms by (induction d arbitrary: h) (auto simp: add_default_headers_def)

end
