(* ===== verification/TypesSpec.thy ===== *)
theory TypesSpec
  imports Types GoJsonRound
begin

text \<open>
  Decoding what the encoders of Types print, and what every decoded value satisfies: integers fit
  their Go type at every depth of a decoded structure.
\<close>

section \<open>Decoders of one value\<close>

lemma scalar_simps [codec_simps]:
  "d_string [] = ([], True)" "d_int [] = (0, True)" "d_bool [] = (False, True)"
  "valid_utf8 s \<Longrightarrow> d_string [enc_string s] = (s, True)" "in_int64 i \<Longrightarrow> d_int [enc_int i] = (i, True)"
  by (simp_all add: d_string_def d_int_def d_bool_def enc_string_simps enc_int_simps)

lemma d_ptr_simps [codec_simps]:
  "d_ptr d [] = (None, snd (d []))"
  "v \<noteq> JNull \<Longrightarrow> d_ptr d [v] = (Some (fst (d [v])), snd (d [v]))"
  by (simp_all add: d_ptr_def)

lemma decode_over_Nil: "decode_over es [] = map (\<lambda>e. [e]) es"
  by (induction es) auto

lemma d_slice_simps [codec_simps]:
  "d_slice d [] = (None, True)"
  "d_slice d [JArr es] = (Some (map (\<lambda>e. fst (d [e])) es), list_all (\<lambda>e. snd (d [e])) es)"
  by (auto simp: d_slice_def decode_over_Nil comp_def list_all_iff)

lemma members_simps [codec_simps]:
  "members [JObj ms] = ms" "members [] = []" "objects [JObj ms]" "objects []"
  by (simp_all add: members_def objects_def)

section \<open>Members with omitzero\<close>

lemma field_values_append [codec_simps]: "field_values n (xs @ ys) = field_values n xs @ field_values n ys"
  by (simp add: field_values_def)

lemma optional_members [codec_simps]:
  assumes "plain_name n" "plain_name m"
  shows "field_values n (opt_member m enc x) = (if m = n then (case x of None \<Rightarrow> [] | Some v \<Rightarrow> [enc v]) else [])"
    "field_values n (str_member m s) = (if m = n \<and> s \<noteq> [] then [enc_string s] else [])"
    "field_values n (int_member m i) = (if m = n \<and> i \<noteq> 0 then [enc_int i] else [])"
    "field_values n (bool_member m b) = (if m = n \<and> b then [JBool True] else [])"
  using assms
  by (auto simp: opt_member_def str_member_def int_member_def bool_member_def field_values_Nil
      field_values_Cons split: option.splits)

lemma optional_scalars [codec_simps]:
  "valid_utf8 s \<Longrightarrow> d_string (if s \<noteq> [] then [enc_string s] else []) = (s, True)"
  "in_int64 i \<Longrightarrow> d_int (if i \<noteq> 0 then [enc_int i] else []) = (i, True)"
  by (simp_all add: scalar_simps)

text \<open>A pointer member decodes to itself when its value does.\<close>

lemma optional_pointer:
  assumes "\<And>v. x = Some v \<Longrightarrow> enc v \<noteq> JNull \<and> d [enc v] = (v, True)" "snd (d [])"
  shows "d_ptr d (case x of None \<Rightarrow> [] | Some v \<Rightarrow> [enc v]) = (x, True)"
  using assms by (cases x) (auto simp: d_ptr_simps)

lemma optional_slice:
  assumes "\<And>v. v \<in> set (case x of None \<Rightarrow> [] | Some vs \<Rightarrow> vs) \<Longrightarrow> d [enc v] = (v, True)"
  shows "d_slice d (case x of None \<Rightarrow> [] | Some vs \<Rightarrow> [enc_list enc vs]) = (x, True)"
  using assms by (cases x) (auto simp: d_slice_simps enc_list_def list_all_iff comp_def intro!: map_idI)

section \<open>Round trips\<close>

definition opt_text_ok :: "string option \<Rightarrow> bool" where
  "opt_text_ok x \<longleftrightarrow> (\<forall>s. x = Some s \<longrightarrow> valid_utf8 s)"

definition opt_int_ok :: "int option \<Rightarrow> bool" where
  "opt_int_ok x \<longleftrightarrow> (\<forall>i. x = Some i \<longrightarrow> in_int64 i)"

definition total_ok :: "total \<Rightarrow> bool" where
  "total_ok t \<longleftrightarrow> valid_utf8 (tt_type t) \<and> valid_utf8 (tt_display_text t) \<and> in_int64 (tt_amount t)"

definition line_item_ok :: "line_item \<Rightarrow> bool" where
  "line_item_ok l \<longleftrightarrow> valid_utf8 (li_name l) \<and> opt_text_ok (li_url l) \<and> opt_text_ok (li_image_url l) \<and>
     opt_text_ok (li_description l) \<and> opt_text_ok (li_sku l) \<and>
     (\<forall>t. t \<in> set (case li_totals l of None \<Rightarrow> [] | Some ts \<Rightarrow> ts) \<longrightarrow> total_ok t) \<and>
     opt_int_ok (li_quantity l) \<and> opt_int_ok (li_unit_amount l) \<and> opt_text_ok (li_product_url l)"

lemma pointer_string:
  "opt_text_ok x \<Longrightarrow> d_ptr d_string (case x of None \<Rightarrow> [] | Some v \<Rightarrow> [enc_string v]) = (x, True)"
  by (rule optional_pointer) (auto simp: opt_text_ok_def codec_simps)

lemma pointer_int:
  "opt_int_ok x \<Longrightarrow> d_ptr d_int (case x of None \<Rightarrow> [] | Some v \<Rightarrow> [enc_int v]) = (x, True)"
  by (rule optional_pointer) (auto simp: opt_int_ok_def codec_simps)

lemma wire_plain_names [codec_simps]:
  "plain_name (c # s) \<longleftrightarrow> name_char c \<and> plain_name s" "plain_name []"
  by (simp_all add: plain_name_def)

lemma dec_enc_total: "total_ok t \<Longrightarrow> dec_total [enc_total t] = (t, True)"
  by (simp add: dec_total_def enc_total_def total_ok_def codec_simps name_char_def byte_def)

lemma slice_totals:
  "\<forall>t. t \<in> set (case x of None \<Rightarrow> [] | Some ts \<Rightarrow> ts) \<longrightarrow> total_ok t \<Longrightarrow>
   d_slice dec_total (case x of None \<Rightarrow> [] | Some ts \<Rightarrow> [enc_list enc_total ts]) = (x, True)"
  by (rule optional_slice) (simp add: dec_enc_total)

lemma dec_enc_line_item: "line_item_ok l \<Longrightarrow> dec_line_item [enc_line_item l] = (l, True)"
  unfolding line_item_ok_def
  by (elim conjE, drule slice_totals)
     (simp add: dec_line_item_def enc_line_item_def codec_simps name_char_def byte_def pointer_string
      pointer_int)

lemma slice_line_items:
  "\<forall>t. t \<in> set (case x of None \<Rightarrow> [] | Some ts \<Rightarrow> ts) \<longrightarrow> line_item_ok t \<Longrightarrow>
   d_slice dec_line_item (case x of None \<Rightarrow> [] | Some ts \<Rightarrow> [enc_list enc_line_item ts]) = (x, True)"
  by (rule optional_slice) (simp add: dec_enc_line_item)

text \<open>What the parameters of Create decode to as a spend request.\<close>

definition create_text_ok :: "create_spend_request_params \<Rightarrow> bool" where
  "create_text_ok p \<longleftrightarrow> valid_utf8 (cs_payment_details p) \<and> valid_utf8 (cs_credential_type p) \<and>
     valid_utf8 (cs_network_id p) \<and> in_int64 (cs_amount p) \<and> valid_utf8 (cs_currency p) \<and>
     valid_utf8 (cs_merchant_name p) \<and> valid_utf8 (cs_merchant_url p) \<and> valid_utf8 (cs_context p) \<and>
     (\<forall>l. l \<in> set (case cs_line_items p of None \<Rightarrow> [] | Some ls \<Rightarrow> ls) \<longrightarrow> line_item_ok l) \<and>
     (\<forall>t. t \<in> set (case cs_totals p of None \<Rightarrow> [] | Some ts \<Rightarrow> ts) \<longrightarrow> total_ok t)"

definition requested :: "create_spend_request_params \<Rightarrow> spend_request" where
  "requested p = \<lparr>sr_id = [], sr_merchant_name = cs_merchant_name p, sr_merchant_url = cs_merchant_url p,
     sr_context = cs_context p, sr_amount = cs_amount p, sr_currency = cs_currency p,
     sr_line_items = cs_line_items p, sr_totals = cs_totals p, sr_payment_method = [],
     sr_payment_details = cs_payment_details p, sr_credential_type = cs_credential_type p,
     sr_network_id = cs_network_id p, sr_status = [], sr_approval_url = [], sr_card = None,
     sr_shared_payment_token = None, sr_link_pay_token = [], sr_payment_status_details = None,
     sr_created_at = [], sr_updated_at = []\<rparr>"

lemma decoders_zero [codec_simps]:
  "snd (dec_card [])" "snd (dec_shared_payment_token [])" "snd (dec_payment_status_details [])"
  by (simp_all add: dec_card_def dec_payment_status_details_def dec_billing_address_def
      dec_refund_details_def codec_simps)

lemma dec_enc_create: "create_text_ok p \<Longrightarrow> dec_spend_request [enc_create_params p] = (requested p, True)"
  unfolding create_text_ok_def
  by (elim conjE, drule slice_line_items, drule slice_totals)
     (simp add: dec_spend_request_def enc_create_params_def requested_def codec_simps name_char_def byte_def
      del: if_not_P)

section \<open>Printing\<close>

definition printable :: "nat \<Rightarrow> json \<Rightarrow> bool" where
  "printable k v \<longleftrightarrow> wf_json v \<and> html_tree v = v \<and> json_depth v \<le> k"

definition members_ok :: "nat \<Rightarrow> jmembers \<Rightarrow> bool" where
  "members_ok k ms \<longleftrightarrow> (\<forall>m \<in> set ms. plain_name (fst m) \<and> printable k (snd m))"

named_theorems print_intros \<open>what the encoders print is printable\<close>

lemma printable_obj [print_intros]: "members_ok k ms \<Longrightarrow> printable (Suc k) (JObj ms)"
  by (auto simp: printable_def members_ok_def list_all_iff html_escape_plain intro!: foldr_max_bound map_idI)

lemma printable_list [print_intros]:
  "(\<And>x. x \<in> set xs \<Longrightarrow> printable k (enc x)) \<Longrightarrow> printable (Suc k) (enc_list enc xs)"
  by (auto simp: printable_def enc_list_def list_all_iff intro!: foldr_max_bound)

lemma printable_leaf [print_intros]: "printable k (enc_string s)" "printable k (enc_int i)"
  by (simp_all add: printable_def codec_simps)

lemma members_ok_append [print_intros]: "members_ok k xs \<Longrightarrow> members_ok k ys \<Longrightarrow> members_ok k (xs @ ys)"
  by (auto simp: members_ok_def)

lemma members_ok_list [print_intros]:
  "members_ok k []" "plain_name n \<Longrightarrow> printable k v \<Longrightarrow> members_ok k ms \<Longrightarrow> members_ok k ((n, v) # ms)"
  by (auto simp: members_ok_def)

lemma members_ok_opt [print_intros]:
  "plain_name n \<Longrightarrow> (\<And>v. printable k (enc v)) \<Longrightarrow> members_ok k (opt_member n enc x)"
  "plain_name n \<Longrightarrow> members_ok k (str_member n s)" "plain_name n \<Longrightarrow> members_ok k (int_member n i)"
  "plain_name n \<Longrightarrow> members_ok k (bool_member n b)"
  by (auto simp: members_ok_def opt_member_def str_member_def int_member_def bool_member_def
      printable_leaf split: option.splits) (simp add: printable_def)

lemma printable_total: "printable (Suc k) (enc_total t)"
  unfolding enc_total_def by (intro print_intros; simp add: codec_simps name_char_def byte_def)

lemma printable_line_item: "printable (Suc (Suc (Suc k))) (enc_line_item t)"
  unfolding enc_line_item_def
  by (intro print_intros printable_total; simp add: codec_simps name_char_def byte_def)

lemma printable_create: "printable (Suc (Suc (Suc (Suc (Suc k))))) (enc_create_params p)"
  unfolding enc_create_params_def
  by (intro print_intros printable_total printable_line_item; simp add: codec_simps name_char_def byte_def)

lemma parse_printed: "printable max_depth v \<Longrightarrow> parse_json (compact v) = Some v"
  by (simp add: printable_def parse_compact)

lemma parse_create: "parse_json (compact (enc_create_params p)) = Some (enc_create_params p)"
  using printable_create [of 9995 p] by (intro parse_printed) (simp add: max_depth_def eval_nat_numeral)

section \<open>Integers fit their type\<close>

lemma d_int_in: "in_int64 (fst (d_int vs))"
  unfolding d_int_def by (rule get_int64_in)

lemma d_ptr_all: "(\<And>vs. P (fst (d vs))) \<Longrightarrow> fst (d_ptr d vs) = Some x \<Longrightarrow> P x"
  by (auto simp: d_ptr_def Let_def split: if_splits)

lemma d_slice_all:
  assumes "\<And>vs. P (fst (d vs))" "fst (d_slice d vs) = Some xs" "x \<in> set xs"
  shows "P x"
  using assms by (auto simp: d_slice_def split: prod.splits)

definition total_typed :: "total \<Rightarrow> bool" where
  "total_typed t \<longleftrightarrow> in_int64 (tt_amount t)"

definition line_item_typed :: "line_item \<Rightarrow> bool" where
  "line_item_typed l \<longleftrightarrow> (\<forall>ts. li_totals l = Some ts \<longrightarrow> (\<forall>t \<in> set ts. total_typed t)) \<and>
     opt_int_ok (li_quantity l) \<and> opt_int_ok (li_unit_amount l)"

definition card_typed :: "card \<Rightarrow> bool" where
  "card_typed c \<longleftrightarrow> in_int64 (cd_exp_month c) \<and> in_int64 (cd_exp_year c)"

definition refund_typed :: "refund_details \<Rightarrow> bool" where
  "refund_typed d \<longleftrightarrow> in_int64 (rd_amount d) \<and> in_int64 (rd_created d)"

definition status_typed :: "payment_status_details \<Rightarrow> bool" where
  "status_typed d \<longleftrightarrow> in_int64 (ps_amount d) \<and> opt_int_ok (ps_created d) \<and>
     (\<forall>r. ps_refund_details d = Some r \<longrightarrow> refund_typed r)"

definition spend_request_typed :: "spend_request \<Rightarrow> bool" where
  "spend_request_typed s \<longleftrightarrow> in_int64 (sr_amount s) \<and>
     (\<forall>ls. sr_line_items s = Some ls \<longrightarrow> (\<forall>l \<in> set ls. line_item_typed l)) \<and>
     (\<forall>ts. sr_totals s = Some ts \<longrightarrow> (\<forall>t \<in> set ts. total_typed t)) \<and>
     (\<forall>c. sr_card s = Some c \<longrightarrow> card_typed c) \<and>
     (\<forall>d. sr_payment_status_details s = Some d \<longrightarrow> status_typed d)"

lemma opt_int_in: "opt_int_ok (fst (d_ptr d_int vs))"
  unfolding opt_int_ok_def using d_ptr_all [of in_int64 d_int vs] d_int_in by blast

lemma dec_total_typed: "total_typed (fst (dec_total vs))"
  by (simp add: dec_total_def total_typed_def d_int_in Let_def)

lemma dec_line_item_typed: "line_item_typed (fst (dec_line_item vs))"
  by (auto simp: dec_line_item_def line_item_typed_def opt_int_in Let_def
      dest: d_slice_all [of total_typed, OF dec_total_typed])

lemma dec_card_typed: "card_typed (fst (dec_card vs))"
  by (simp add: dec_card_def card_typed_def d_int_in Let_def)

lemma dec_refund_typed: "refund_typed (fst (dec_refund_details vs))"
  by (simp add: dec_refund_details_def refund_typed_def d_int_in Let_def)

lemma dec_status_typed: "status_typed (fst (dec_payment_status_details vs))"
  by (auto simp: dec_payment_status_details_def status_typed_def d_int_in opt_int_in Let_def
      dest: d_ptr_all [of refund_typed, OF dec_refund_typed])

lemma dec_spend_request_typed: "spend_request_typed (fst (dec_spend_request vs))"
  by (auto simp: dec_spend_request_def spend_request_typed_def d_int_in Let_def
      dest: d_slice_all [of total_typed, OF dec_total_typed] d_slice_all [of line_item_typed, OF dec_line_item_typed]
        d_ptr_all [of card_typed, OF dec_card_typed] d_ptr_all [of status_typed, OF dec_status_typed])

end
