(* ===== verification/SpendTheorems.thy ===== *)
theory SpendTheorems
  imports SpendRequests TypesSpec TransportTheorems
begin

text \<open>
  What the spend-request operations return and send: every spend request handed to the caller is
  complete and well typed, an id cannot leave its path segment, a mutation reaches the wire at most
  once with exactly the encoded parameters, and those decode to what was asked for.
\<close>

section \<open>Validation decides completeness\<close>

definition titled :: "total \<Rightarrow> bool" where
  "titled t \<longleftrightarrow> trim_space (tt_type t) \<noteq> [] \<and> trim_space (tt_display_text t) \<noteq> []"

definition item_complete :: "line_item \<Rightarrow> bool" where
  "item_complete l \<longleftrightarrow> trim_space (li_name l) \<noteq> [] \<and> (\<forall>t \<in> set (elements (li_totals l)). titled t)"

definition address_complete :: "billing_address \<Rightarrow> bool" where
  "address_complete a \<longleftrightarrow> ba_name a \<noteq> [] \<and> ba_line1 a \<noteq> [] \<and> ba_country a \<noteq> []"

definition card_complete :: "card \<Rightarrow> bool" where
  "card_complete c \<longleftrightarrow> cd_id c \<noteq> [] \<and> cd_brand c \<noteq> [] \<and> cd_number c \<noteq> [] \<and> cd_exp_month c \<in> {1..12} \<and>
     1 \<le> cd_exp_year c \<and> (\<forall>a. cd_billing_address c = Some a \<longrightarrow> address_complete a)"

definition status_complete :: "payment_status_details \<Rightarrow> bool" where
  "status_complete d \<longleftrightarrow> ps_outcome d \<noteq> [] \<and> ps_currency d \<noteq> [] \<and>
     (\<forall>r. ps_refund_details d = Some r \<longrightarrow> rd_currency r \<noteq> [] \<and> rd_state r \<noteq> [])"

definition complete :: "spend_request \<Rightarrow> bool" where
  "complete r \<longleftrightarrow> sr_id r \<noteq> [] \<and> sr_payment_details r \<noteq> [] \<and> sr_status r \<noteq> [] \<and> sr_created_at r \<noteq> [] \<and>
     sr_updated_at r \<noteq> [] \<and>
     (\<exists>items totals. sr_line_items r = Some items \<and> sr_totals r = Some totals \<and>
        (\<forall>l \<in> set items. item_complete l) \<and> (\<forall>t \<in> set totals. titled t)) \<and>
     (\<forall>c. sr_card r = Some c \<longrightarrow> card_complete c) \<and>
     (\<forall>t a. sr_shared_payment_token r = Some t \<and> sp_billing_address t = Some a \<longrightarrow> address_complete a) \<and>
     (\<forall>d. sr_payment_status_details r = Some d \<longrightarrow> status_complete d)"

lemma case_None: "(case x of Some e \<Rightarrow> Some e | None \<Rightarrow> y) = None \<longleftrightarrow> x = None \<and> y = None"
  by (cases x) auto

lemma totals_from_None: "totals_from path i ts = None \<longleftrightarrow> (\<forall>t \<in> set ts. titled t)"
  by (induction ts arbitrary: i) (auto simp: titled_def)

lemma items_from_None: "items_from i ls = None \<longleftrightarrow> (\<forall>l \<in> set ls. item_complete l)"
  by (induction ls arbitrary: i)
     (simp_all add: item_complete_def validateSpendRequestTotals_def totals_from_None case_None)

lemma first_error_None: "first_error es = None \<longleftrightarrow> (\<forall>e \<in> set es. e = None)"
  by (induction es rule: first_error.induct) auto

lemma items_None:
  "validateSpendRequestItems ls ts = None \<longleftrightarrow> (\<forall>l \<in> set ls. item_complete l) \<and> (\<forall>t \<in> set ts. titled t)"
  by (simp add: validateSpendRequestItems_def validateSpendRequestTotals_def totals_from_None items_from_None
      case_None)

lemma credential_errors_None:
  "card_error c = None \<longleftrightarrow> card_complete c"
  "token_error t = None \<longleftrightarrow> (\<forall>a. sp_billing_address t = Some a \<longrightarrow> address_complete a)"
  "status_error d = None \<longleftrightarrow> status_complete d"
  by (auto simp: card_error_def token_error_def status_error_def card_complete_def status_complete_def
      address_ok_def address_complete_def split: option.splits)

lemma on_some_None: "on_some f x = None \<longleftrightarrow> (\<forall>y. x = Some y \<longrightarrow> f y = None)"
  by (auto simp: on_some_def split: option.splits)

lemma validate_None: "validateSpendRequestResponse r = None \<longleftrightarrow> complete r"
  by (auto simp: validateSpendRequestResponse_def complete_def first_error_None items_None on_some_None
      credential_errors_None split: option.splits)

section \<open>Results\<close>

definition good_request :: "spend_request \<Rightarrow> bool" where
  "good_request r \<longleftrightarrow> complete r \<and> spend_request_typed r"

lemma unmarshal_typed: "unmarshal dec_spend_request body = Some r \<Longrightarrow> spend_request_typed r"
  by (auto simp: unmarshal_def dec_spend_request_typed split: option.splits if_splits)

lemma decode_response_good: "decodeSpendRequestResponse operation body = Inr r \<Longrightarrow> good_request r"
  by (auto simp: decodeSpendRequestResponse_def good_request_def validate_None unmarshal_typed
      split: option.splits if_splits)

lemma items_error_None: "items_error i rs = None \<longleftrightarrow> (\<forall>r \<in> set rs. complete r)"
  by (induction rs arbitrary: i) (auto simp: validate_None [symmetric] split: option.split)

lemma decode_list_good: "decode_list body = Inr rs \<Longrightarrow> r \<in> set rs \<Longrightarrow> good_request r"
  unfolding good_request_def
  by (auto simp: decode_list_def items_error_None elements_def Let_def
      dest: d_slice_all [of spend_request_typed, OF dec_spend_request_typed]
      split: option.splits if_splits json.splits)

text \<open>A call hands on what its decoder makes of the body.\<close>

lemma spend_call_result:
  "spend_call r ctx req k w = (Inr x, w') \<Longrightarrow> \<exists>status body. k status body = Inr x"
  by (auto simp: spend_call_def split: sum.splits prod.splits)

lemma mutate_good: "mutateSpendRequest r ctx operation e b w = (Inr s, w') \<Longrightarrow> good_request s"
  unfolding mutateSpendRequest_def
  by (drule spend_call_result) (auto intro: decode_response_good split: if_splits)

lemma with_id_result:
  "with_id r ctx i k w = (Inr x, w') \<Longrightarrow> \<exists>e. k e w = (Inr x, w')"
  by (auto simp: with_id_def split: option.splits sum.splits)

lemma Create_good: "Create r ctx p w = (Inr s, w') \<Longrightarrow> good_request s"
  by (auto simp: Create_def intro: mutate_good split: option.splits if_splits)

lemma Update_good: "Update r ctx i p w = (Inr s, w') \<Longrightarrow> good_request s"
  unfolding Update_def by (drule with_id_result) (auto intro: mutate_good split: option.splits)

lemma Cancel_good: "Cancel r ctx i w = (Inr s, w') \<Longrightarrow> good_request s"
  unfolding Cancel_def by (drule with_id_result) (auto intro: mutate_good)

definition retrieve_outcome :: "int \<Rightarrow> string \<Rightarrow> (go_error, spend_request) result" where
  "retrieve_outcome status body =
     (if status = 404 then Inl (Sentinel ErrNotFound)
      else if \<not> successful status then Inl (APIErr (newSpendAPIError ''retrieve spend request'' status body))
      else decodeSpendRequestResponse ''retrieve spend request'' body)"

lemma Retrieve_good:
  assumes "Retrieve r ctx i include w = (Inr s, w')"
  shows "good_request s"
proof -
  from with_id_result [OF assms [unfolded Retrieve_def retrieve_outcome_def [symmetric]]] obtain e where
    e: "(case with_include include e of Inl x \<Rightarrow> (Inl x, w)
        | Inr u \<Rightarrow> spend_call r ctx (read_request u) retrieve_outcome w) = (Inr s, w')" by blast
  then obtain u where "with_include include e = Inr u" by (cases "with_include include e") auto
  with e have "spend_call r ctx (read_request u) retrieve_outcome w = (Inr s, w')" by simp
  from spend_call_result [OF this] show ?thesis
    by (auto simp: retrieve_outcome_def intro: decode_response_good split: if_splits)
qed

lemma List_good: "ListSpendRequests r ctx w = (Inr rs, w') \<Longrightarrow> s \<in> set rs \<Longrightarrow> good_request s"
  by (auto simp: ListSpendRequests_def dest!: spend_call_result intro: decode_list_good
      split: option.splits if_splits)

lemma fst_eq_Inr: "fst x = Inr s \<longleftrightarrow> (\<exists>w. x = (Inr s, w))"
  by (cases x) auto

text \<open>C11: every spend request the resource hands to its caller, from any operation and whatever the
  server answered, is complete (identified, with status and timestamps, both item lists present,
  every item and total labelled, attached credentials usable: a card with a month from 1 to 12) and
  well typed (every integer fits its Go type at every depth).\<close>

theorem spend_requests_well_formed:
  assumes "fst (Create r ctx p w) = Inr s \<or> fst (Update r ctx i q w) = Inr s \<or> fst (Cancel r ctx i w) = Inr s \<or>
    fst (Retrieve r ctx i include w) = Inr s \<or>
    (\<exists>rs. fst (ListSpendRequests r ctx w) = Inr rs \<and> s \<in> set rs)"
  shows "complete s \<and> spend_request_typed s"
proof -
  have "good_request s"
    using assms by (auto simp: fst_eq_Inr intro: Create_good Update_good Cancel_good Retrieve_good List_good)
  then show ?thesis by (simp add: good_request_def)
qed

text \<open>A server that answers with a minimal spend request.\<close>

definition minimal_request :: json where
  "minimal_request = JObj
     [(''id'', enc_string ''lsrq_1''), (''payment_details'', enc_string ''pm_1''),
      (''status'', enc_string ''approved''), (''created_at'', enc_string ''t0''),
      (''updated_at'', enc_string ''t1''), (''line_items'', JArr []), (''totals'', JArr [])]"

definition answering :: "int \<Rightarrow> string \<Rightarrow> world" where
  "answering status body = sample_world\<lparr>w_http := \<lambda>_ _. Inr \<lparr>rs_status = status, rs_headers = [],
     rs_body = Some \<lparr>hb_data = body, hb_read_err = None, hb_close_err = None\<rparr>\<rparr>\<rparr>"

lemma core_do_answering:
  assumes "url_parse (ar_url req) = Some u" "list_all method_char (ar_method req)" "ar_method req \<noteq> []"
    and "length body \<le> 1048576" "status < 300 \<or> 400 \<le> status" "status \<noteq> 401" "ar_authenticated req"
  shows "\<exists>w'. core_do (Some sample_core) (Some background) req ((answering status body)\<lparr>w_tick := n, w_clock := clock\<rparr>) =
    (Inr (status, body), w')"
  using assms
  by (subst core_do_def)
     (auto simp: sample_core_def background_def static_token_def do_loop.simps [of _ _ _ _ _ _ _ "Suc 0"] doAttempt_def
      new_request_def httpClient_Do_def peer_def write_log_def answering_def readBoundedAndClose_def
      read_limited_def max_int64_def attempt_outcome_def Let_def)

lemma answering_start:
  "(answering status body)\<lparr>w_tick := 0, w_clock := w_clock sample_world\<rparr> = answering status body"
  by (simp add: answering_def sample_world_def)

lemma minimal_decodes:
  "\<exists>s. decodeSpendRequestResponse operation (compact minimal_request) = Inr s \<and> sr_id s = ''lsrq_1''"
proof -
  have "printable max_depth minimal_request"
    by (simp add: minimal_request_def printable_def codec_simps html_escape_plain name_char_def byte_def max_depth_def)
  then have p: "parse_json (compact minimal_request) = Some minimal_request" by (rule parse_printed)
  have v: "valid_utf8 ''lsrq_1''" "valid_utf8 ''pm_1''" "valid_utf8 ''approved''" "valid_utf8 ''t0''" "valid_utf8 ''t1''"
    by code_simp+
  have o: "isJSONObject (compact minimal_request)" by code_simp
  obtain s where s: "dec_spend_request [minimal_request] = (s, True)" "sr_id s = ''lsrq_1''"
      "sr_payment_details s = ''pm_1''" "sr_status s = ''approved''" "sr_created_at s = ''t0''"
      "sr_updated_at s = ''t1''" "sr_line_items s = Some []" "sr_totals s = Some []" "sr_card s = None"
      "sr_shared_payment_token s = None" "sr_payment_status_details s = None"
    by (simp add: dec_spend_request_def minimal_request_def codec_simps v name_char_def byte_def)
  then have "complete s" by (simp add: complete_def)
  then show ?thesis using p o s by (simp add: decodeSpendRequestResponse_def unmarshal_def validate_None [symmetric])
qed

lemma retrieve_minimal:
  "\<exists>s w'. Retrieve (Some sample_core) (Some background) ''lsrq_1'' [] (answering 200 (compact minimal_request)) =
     (Inr s, w') \<and> sr_id s = ''lsrq_1''"
proof -
  let ?req = "read_request ''https://api.link.com/spend_requests/lsrq_1''"
  have "url_parse ''https://api.link.com/spend_requests/lsrq_1'' \<noteq> None" "list_all method_char ''GET''"
    by code_simp+
  moreover have "length (compact minimal_request) \<le> 200" by code_simp
  then have "length (compact minimal_request) \<le> 1048576" by linarith
  ultimately obtain w' where
    d: "core_do (Some sample_core) (Some background) ?req (answering 200 (compact minimal_request)) =
      (Inr (200, compact minimal_request), w')"
    using core_do_answering [of ?req _ "compact minimal_request" 200 "w_clock sample_world" 0]
    unfolding answering_start by (auto simp: read_request_def)
  obtain s where s: "decodeSpendRequestResponse ''retrieve spend request'' (compact minimal_request) = Inr s"
    "sr_id s = ''lsrq_1''" using minimal_decodes by blast
  have "idEndpoint sample_core ''lsrq_1'' = Inr ''https://api.link.com/spend_requests/lsrq_1''" by code_simp
  with d s show ?thesis
    by (simp add: Retrieve_def with_id_def spend_validate_def background_def sample_core_def with_include_def
        spend_call_def successful_def)
qed

theorem spend_requests_well_formed_witness:
  "\<exists>s w'. Retrieve (Some sample_core) (Some background) ''lsrq_1'' [] (answering 200 (compact minimal_request)) =
     (Inr s, w') \<and> sr_id s = ''lsrq_1'' \<and> complete s \<and> spend_request_typed s"
proof -
  obtain s w' where s: "Retrieve (Some sample_core) (Some background) ''lsrq_1'' []
      (answering 200 (compact minimal_request)) = (Inr s, w')" "sr_id s = ''lsrq_1''"
    using retrieve_minimal by blast
  then have "fst (Retrieve (Some sample_core) (Some background) ''lsrq_1'' []
      (answering 200 (compact minimal_request))) = Inr s" by simp
  from spend_requests_well_formed [OF disjI2, OF disjI2, OF disjI2, OF disjI1, OF this] s show ?thesis by blast
qed

section \<open>Endpoints\<close>

lemma hex_value_upper: "n < 16 \<Longrightarrow> is_hex (upper_hex n) \<and> hex_value (upper_hex n) = n"
  by (auto simp: upper_hex_def is_hex_def hex_value_def is_digit_def byte_char_of)

lemma unescape_escape:
  assumes "m \<noteq> EHost" "m \<noteq> EZone"
  shows "url_unescape m (url_escape m s) = Some s"
proof (induction s)
  case (Cons c s)
  have b: "byte c div 16 < 16" "byte c mod 16 < 16" "byte c div 16 * 16 + byte c mod 16 = byte c"
    using byte_less [of c] by auto
  have p: "should_escape m (CHR ''%'')" by (simp add: should_escape_def is_alpha_def is_digit_def byte_def)
  have q: "m = EQuery \<Longrightarrow> should_escape m (CHR ''+'')"
    by (simp add: should_escape_def is_alpha_def is_digit_def byte_def)
  show ?case
  proof (cases "should_escape m c")
    case True
    with Cons b hex_value_upper [OF b(1)] hex_value_upper [OF b(2)] assms show ?thesis
      by (auto simp: url_escape_def escape_byte_def)
  next
    case False
    then have "c \<noteq> CHR ''%''" "m = EQuery \<Longrightarrow> c \<noteq> CHR ''+''" using p q by auto
    with Cons False assms show ?thesis by (auto simp: url_escape_def escape_byte_def)
  qed
qed (simp add: url_escape_def)

text \<open>What a path segment may contain once escaped.\<close>

definition segment_char :: "char \<Rightarrow> bool" where
  "segment_char c \<longleftrightarrow> 33 \<le> byte c \<and> byte c < 127 \<and> byte c \<notin> {35, 44, 47, 59, 63}"

lemma plain_segment_char: "\<not> should_escape EPathSegment c \<Longrightarrow> segment_char c"
proof -
  assume e: "\<not> should_escape EPathSegment c"
  have l: "segment_char d" if "d \<in> set ''-_.~$&+:=@''" for d
    using that unfolding list.set insert_iff empty_iff by (elim disjE FalseE; simp add: segment_char_def byte_def)
  show "segment_char c"
  proof (cases "is_alpha c \<or> is_digit c")
    case True
    then show ?thesis by (auto simp: segment_char_def is_alpha_def is_digit_def)
  next
    case False
    with e have "c \<in> set ''-_.~'' \<or> c \<in> set ''$&+,/:;=?@'' \<and> c \<notin> set ''/;,?''"
      by (simp only: should_escape_def url_mode.case url_mode.distinct simp_thms if_False if_True split: if_split_asm)
    then have "c \<in> set ''-_.~$&+:=@''" by auto
    then show ?thesis by (rule l)
  qed
qed

lemma upper_hex_segment_char: "n < 16 \<Longrightarrow> segment_char (upper_hex n)"
  by (auto simp: upper_hex_def segment_char_def byte_char_of)

lemma escape_byte_chars: "list_all segment_char (escape_byte EPathSegment c)"
proof (cases "should_escape EPathSegment c")
  case True
  have "segment_char (CHR ''%'')" by (simp add: segment_char_def byte_def)
  moreover have "segment_char (upper_hex (byte c div 16))" "segment_char (upper_hex (byte c mod 16))"
    using byte_less [of c] by (auto intro: upper_hex_segment_char)
  ultimately show ?thesis using True by (simp add: escape_byte_def)
next
  case False
  then show ?thesis by (simp add: escape_byte_def plain_segment_char)
qed

lemma escape_segment_chars: "list_all segment_char (url_escape EPathSegment s)"
  using escape_byte_chars by (induction s) (simp_all add: url_escape_def)

lemma idEndpoint_segment:
  "idEndpoint c i = Inr e \<Longrightarrow> e = endpoint c @ ''/'' @ url_escape EPathSegment i \<and> validSpendRequestID i"
  by (auto simp: idEndpoint_def split: if_splits)

text \<open>C17: an accepted id stays one path segment: the endpoint is the collection's URL, a slash and a
  segment that has no separator, no query or fragment mark, no space or control character, is no dot
  segment, and unescapes to exactly the id; so two ids share an endpoint only if they are equal.\<close>

theorem id_endpoint_confined:
  assumes "idEndpoint c i = Inr e"
  shows "(\<exists>seg. e = endpoint c @ ''/'' @ seg \<and> url_unescape EPathSegment seg = Some i \<and> seg \<noteq> [] \<and>
      seg \<noteq> ''.'' \<and> seg \<noteq> ''..'' \<and>
      (\<forall>x \<in> set seg. 33 \<le> byte x \<and> byte x < 127 \<and> x \<notin> {CHR ''/'', CHR ''?'', CHR ''#''})) \<and>
    (\<forall>j. idEndpoint c j = Inr e \<longrightarrow> j = i)"
proof -
  let ?seg = "url_escape EPathSegment i"
  note e = idEndpoint_segment [OF assms]
  have u: "url_unescape EPathSegment (url_escape EPathSegment j) = Some j" for j
    by (rule unescape_escape) simp_all
  have dot: "url_unescape EPathSegment [] = Some []" "url_unescape EPathSegment ''.'' = Some ''.''"
    "url_unescape EPathSegment ''..'' = Some ''..''" by (simp_all add: byte_def)
  have "i \<noteq> []" "i \<noteq> ''.''" "i \<noteq> ''..''" using e by (auto simp: validSpendRequestID_def trim_space_def)
  with u [of i] dot have "?seg \<noteq> [] \<and> ?seg \<noteq> ''.'' \<and> ?seg \<noteq> ''..''" by force
  moreover have "\<forall>x \<in> set ?seg. 33 \<le> byte x \<and> byte x < 127 \<and> x \<notin> {CHR ''/'', CHR ''?'', CHR ''#''}"
    using escape_segment_chars [of i] by (auto simp: list_all_iff segment_char_def byte_def)
  moreover have "j = i" if "idEndpoint c j = Inr e" for j
  proof -
    from idEndpoint_segment [OF that] e have "url_escape EPathSegment j = url_escape EPathSegment i" by auto
    then show ?thesis using u [of i] u [of j] by (metis option.inject)
  qed
  ultimately show ?thesis using e u [of i] by blast
qed

theorem id_endpoint_confined_witness:
  "\<exists>e. idEndpoint sample_core ''a/../b?c'' = Inr e \<and> (\<forall>j. idEndpoint sample_core j = Inr e \<longrightarrow> j = ''a/../b?c'')"
proof -
  have "idEndpoint sample_core ''a/../b?c'' = Inr ''https://api.link.com/spend_requests/a%2F..%2Fb%3Fc''"
    by code_simp
  with id_endpoint_confined [OF this] show ?thesis by blast
qed

section \<open>Mutations\<close>

datatype mutation =
    CreateOf create_spend_request_params
  | UpdateOf string update_spend_request_params
  | CancelOf string
  | RequestApprovalOf string

fun run_mutation :: "resource \<Rightarrow> go_context \<Rightarrow> mutation \<Rightarrow> world \<Rightarrow> world" where
  "run_mutation r ctx (CreateOf p) w = snd (Create r ctx p w)"
| "run_mutation r ctx (UpdateOf i p) w = snd (Update r ctx i p w)"
| "run_mutation r ctx (CancelOf i) w = snd (Cancel r ctx i w)"
| "run_mutation r ctx (RequestApprovalOf i) w = snd (RequestApproval r ctx i w)"

definition at_id :: "core \<Rightarrow> string \<Rightarrow> (string \<Rightarrow> api_request) \<Rightarrow> api_request option" where
  "at_id c i f = (if validSpendRequestID i then Some (f (endpoint c @ ''/'' @ url_escape EPathSegment i)) else None)"

text \<open>The request a mutation is, when its arguments are acceptable.\<close>

fun mutation_request :: "core \<Rightarrow> mutation \<Rightarrow> api_request option" where
  "mutation_request c (CreateOf p) =
     (if trim_space (cs_payment_details p) \<noteq> [] \<and> trim_space (cs_context p) \<noteq> [] \<and>
         (\<forall>l \<in> set (elements (cs_line_items p)). item_complete l) \<and> (\<forall>t \<in> set (elements (cs_totals p)). titled t)
      then Some (write_request (endpoint c @ (if cs_approve p then ''/create_delegated'' else []))
                   (Some (compact (enc_create_params p))))
      else None)"
| "mutation_request c (UpdateOf i p) =
     (if (\<forall>l \<in> set (elements (us_line_items p)). item_complete l) \<and> (\<forall>t \<in> set (elements (us_totals p)). titled t)
      then at_id c i (\<lambda>e. write_request e (Some (compact (enc_update_params p)))) else None)"
| "mutation_request c (CancelOf i) = at_id c i (\<lambda>e. write_request (e @ ''/cancel'') None)"
| "mutation_request c (RequestApprovalOf i) = at_id c i (\<lambda>e. write_request (e @ ''/request_approval'') None)"

lemma ar_url_write: "ar_url (write_request u b) = u"
  by (simp add: write_request_def)

lemma snd_spend_call: "snd (spend_call r ctx req k w) = snd (core_do r ctx req w)"
  by (auto simp: spend_call_def split: sum.splits prod.splits)

lemma run_mutation_core:
  assumes "c_spendRequestBaseURL c \<noteq> []" "ctx \<noteq> None"
  shows "run_mutation (Some c) ctx op w =
    (case mutation_request c op of None \<Rightarrow> w | Some req \<Rightarrow> snd (core_do (Some c) ctx req w))"
  using assms
  by (cases op)
     (auto simp: Create_def Update_def Cancel_def RequestApproval_def with_id_def spend_validate_def idEndpoint_def
       at_id_def mutateSpendRequest_def snd_spend_call items_None [symmetric] split: option.splits)

text \<open>Creating, updating, cancelling or asking for approval of a spend request reaches the wire at
  most once, and only when its arguments are acceptable: then as one POST to the collection or to the
  id's own endpoint, with exactly the encoded parameters as its body and a non-empty bearer token;
  nothing is sent to any other URL, and with unacceptable arguments nothing happens at all.\<close>

lemma spend_mutation_sent_once:
  assumes "c_spendRequestBaseURL c \<noteq> []" "ctx \<noteq> None" "c_httpClient c = Some hc"
    and "c_getAccessToken c = Some g" "token_source g P used" "P w" "u \<notin> used"
  shows "case mutation_request c op of
      None \<Rightarrow> run_mutation (Some c) ctx op w = w
    | Some req \<Rightarrow> (\<exists>ts. sent_to u (run_mutation (Some c) ctx op w) = sent_to u w @
          (if u = ar_url req then map (\<lambda>t. sent_as hc (wire_request req ''POST'' t)) ts else []) \<and>
        length ts \<le> 1 \<and> [] \<notin> set ts)"
proof (cases "mutation_request c op")
  case None
  with assms(1,2) show ?thesis by (simp add: run_mutation_core)
next
  case (Some req)
  then have req: "ar_method req = ''POST''" "ar_authenticated req" "\<not> ar_retryOnUnauthorized req"
    by (cases op; auto simp: at_id_def write_request_def split: if_splits)+
  obtain x w' where d: "core_do (Some c) ctx req w = (x, w')" by fastforce
  have "wire_method req = ''POST''" "maximum_attempts req = 1"
    using req by (simp_all add: wire_method_def maximum_attempts_def)
  with sends_url [OF token_source.core_do_sends [OF assms(5) d assms(3,4,6,7)]] req(2) have
    "\<exists>ts. sent_to u w' = sent_to u w @
       (if u = ar_url req then map (\<lambda>t. sent_as hc (wire_request req ''POST'' t)) ts else []) \<and>
     length ts \<le> 1 \<and> [] \<notin> set ts" by (simp only: simp_thms)
  moreover have "run_mutation (Some c) ctx op w = w'" using Some d assms(1,2) by (simp add: run_mutation_core)
  ultimately show ?thesis using Some by (simp only: option.case)
qed

text \<open>A purchase of two items.\<close>

definition sample_item :: "string \<Rightarrow> line_item" where
  "sample_item name = \<lparr>li_name = name, li_url = None, li_image_url = None, li_description = Some ''x'',
     li_sku = None, li_totals = Some [\<lparr>tt_type = ''tax'', tt_display_text = ''Tax'', tt_amount = - 7\<rparr>],
     li_quantity = Some 2, li_unit_amount = None, li_product_url = None\<rparr>"

definition sample_params :: create_spend_request_params where
  "sample_params = \<lparr>cs_payment_details = ''pm_1'', cs_credential_type = ''card'', cs_network_id = [],
     cs_amount = 1200, cs_currency = ''usd'', cs_merchant_name = [], cs_merchant_url = ''https://m.example'',
     cs_context = ''socks'', cs_line_items = Some [sample_item ''a'', sample_item ''b''],
     cs_totals = None, cs_request_approval = False, cs_test = True, cs_approve = True\<rparr>"

lemma sample_mutation:
  assumes "c_spendRequestBaseURL c = base"
  shows "mutation_request c (CreateOf sample_params) =
    Some (write_request (base @ ''/spend_requests/create_delegated'') (Some (compact (enc_create_params sample_params))))"
proof -
  have "trim_space ''pm_1'' \<noteq> [] \<and> trim_space ''socks'' \<noteq> [] \<and> trim_space ''a'' \<noteq> [] \<and>
      trim_space ''b'' \<noteq> [] \<and> trim_space ''tax'' \<noteq> [] \<and> trim_space ''Tax'' \<noteq> []" by code_simp
  with assms show ?thesis
    by (simp add: sample_params_def sample_item_def item_complete_def titled_def elements_def endpoint_def)
qed

text \<open>C16: the body Create sends says what was asked: for valid UTF-8 texts and amounts in range, decoding
  it with the package's own decoder gives the parameters back as a spend request, omitted members as
  the zero values they were, every line item with its nested totals and its nil-or-present pointers
  unchanged.\<close>

theorem create_body_roundtrip:
  assumes "create_text_ok p"
  shows "unmarshal dec_spend_request (compact (enc_create_params p)) = Some (requested p)"
  using dec_enc_create [OF assms] by (simp add: unmarshal_def parse_create)

theorem create_body_roundtrip_witness:
  "\<exists>r. unmarshal dec_spend_request (compact (enc_create_params sample_params)) = Some r \<and>
     sr_line_items r = Some [sample_item ''a'', sample_item ''b''] \<and> sr_totals r = None \<and> sr_amount r = 1200"
proof -
  have "valid_utf8 ''pm_1''" "valid_utf8 ''card''" "valid_utf8 ''usd''" "valid_utf8 ''https://m.example''"
    "valid_utf8 ''socks''" "valid_utf8 ''x''" "valid_utf8 ''tax''" "valid_utf8 ''Tax''" "valid_utf8 ''a''"
    "valid_utf8 ''b''" by code_simp+
  then have "create_text_ok sample_params"
    by (simp add: create_text_ok_def sample_params_def line_item_ok_def sample_item_def total_ok_def opt_text_ok_def
        opt_int_ok_def in_int64_def min_int64_def max_int64_def)
  from create_body_roundtrip [OF this] show ?thesis by (simp add: requested_def sample_params_def)
qed

end
