(* ===== verification/ClientTheorems.thy ===== *)
theory ClientTheorems
  imports ClientSpec SpendTheorems AuthTheorems
begin

text \<open>
  What every client built by \<open>NewClient\<close> satisfies, and the composition of its parts: the URLs it
  talks to, the one Authorization header of an authenticated request, and mutations that reach the
  wire at most once even while the installed token provider refreshes.
\<close>

section \<open>Construction\<close>

lemma or_config_Inr: "or_config what r k = Inr y \<longleftrightarrow> (\<exists>x. r = Inr x \<and> k x = Inr y)"
  by (cases r) (auto simp: or_config_def)

lemma guard_Inr: "(if p then Inl e else x) = Inr y \<longleftrightarrow> \<not> p \<and> x = Inr y"
  by simp

lemma pass_Inr: "(case r of Inl e \<Rightarrow> Inl e | Inr x \<Rightarrow> k x) = Inr y \<longleftrightarrow> (\<exists>x. r = Inr x \<and> k x = Inr y)"
  by (cases r) auto

lemma or_config_Inl:
  "or_config what r k = Inl e \<Longrightarrow> (\<And>x e. k x = Inl e \<Longrightarrow> errors_Is e ErrInvalidConfiguration) \<Longrightarrow>
   errors_Is e ErrInvalidConfiguration"
  by (cases r) (auto simp: or_config_def invalid_configuration_def)

lemma resolve_storage_error: "resolve_storage env opts = Inl e \<Longrightarrow> errors_Is e ErrInvalidConfiguration"
  by (auto simp: resolve_storage_def invalid_configuration_def split: interface.splits sum.splits)

lemma new_core_error: "new_core env opts = Inl e \<Longrightarrow> errors_Is e ErrInvalidConfiguration"
  unfolding new_core_def
  by (drule or_config_Inl, drule or_config_Inl, drule or_config_Inl)
     (auto intro: resolve_storage_error split: if_splits sum.splits elim!: or_config_Inl)

definition core_ok :: "core \<Rightarrow> bool" where
  "core_ok c \<longleftrightarrow> secure_base (c_authBaseURL c) \<and> secure_base (c_apiBaseURL c) \<and>
     secure_base (c_spendRequestBaseURL c) \<and> 0 < c_maxResponseBodyBytes c \<and> c_clientName c \<noteq> [] \<and>
     (\<exists>hc. c_httpClient c = Some hc \<and> headers_safe (hc_default_headers hc))"

lemma resolveBaseURL_secure: "resolveBaseURL a b d = Inr s \<Longrightarrow> secure_base s"
  unfolding resolveBaseURL_def by (rule normalizeBaseURL_secure)

lemma resolveHTTPClient_headers: "resolveHTTPClient caller proxy dt h = Inr hc \<Longrightarrow> hc_default_headers hc = h"
  by (auto simp: resolveHTTPClient_def split: option.splits)

lemma copy_safe: "copyAndValidateDefaultHeaders hs = Inr h \<Longrightarrow> headers_safe h"
  unfolding copyAndValidateDefaultHeaders_def by (erule copy_headers_safe) (simp add: headers_safe_def)

lemma new_core_ok:
  assumes "new_core env opts = Inr c"
  shows "core_ok c"
proof -
  obtain a b d h hc where
    a: "resolveBaseURL (op_AuthBaseURL opts) (en_auth_base_url env) defaultAuthBaseURL = Inr a"
    and b: "resolveBaseURL (op_APIBaseURL opts) (en_api_base_url env) defaultAPIBaseURL = Inr b"
    and d: "(if op_SpendRequestBaseURL opts \<noteq> [] then normalizeBaseURL (op_SpendRequestBaseURL opts) else Inr b) = Inr d"
    and m: "0 \<le> op_MaxResponseBodyBytes opts"
    and h: "copyAndValidateDefaultHeaders (op_DefaultHeaders opts) = Inr h"
    and hc: "resolveHTTPClient (op_HTTPClient opts) (en_http_proxy env) (en_default_transport env) h = Inr hc"
    and c: "c_authBaseURL c = a" "c_apiBaseURL c = b" "c_spendRequestBaseURL c = d" "c_httpClient c = Some hc"
      "c_maxResponseBodyBytes c = (if op_MaxResponseBodyBytes opts = 0 then defaultMaxResponseBodyBytes
                                   else op_MaxResponseBodyBytes opts)"
      "c_clientName c = (if op_ClientName opts = [] then defaultClientName else op_ClientName opts)"
    using assms unfolding new_core_def or_config_Inr guard_Inr pass_Inr
    by (elim exE conjE) (rule that, assumption+, auto)
  have "secure_base d" using d resolveBaseURL_secure [OF b] normalizeBaseURL_secure by (auto split: if_splits)
  moreover have "0 < c_maxResponseBodyBytes c" using m c(5) by (simp add: defaultMaxResponseBodyBytes_def)
  moreover have "c_clientName c \<noteq> []" using c(6) by (simp add: defaultClientName_def)
  moreover have "headers_safe (hc_default_headers hc)" using copy_safe [OF h] resolveHTTPClient_headers [OF hc] by simp
  ultimately show ?thesis
    using c resolveBaseURL_secure [OF a] resolveBaseURL_secure [OF b] by (simp add: core_ok_def)
qed

lemma wire_tokens_fields [simp]:
  "c_authBaseURL (wire_tokens opts c) = c_authBaseURL c" "c_apiBaseURL (wire_tokens opts c) = c_apiBaseURL c"
  "c_spendRequestBaseURL (wire_tokens opts c) = c_spendRequestBaseURL c"
  "c_httpClient (wire_tokens opts c) = c_httpClient c" "c_storage (wire_tokens opts c) = c_storage c"
  "c_maxResponseBodyBytes (wire_tokens opts c) = c_maxResponseBodyBytes c"
  "c_clientName (wire_tokens opts c) = c_clientName c"
  by (auto simp: wire_tokens_def Let_def split: option.splits)

lemma wire_tokens_source: "c_getAccessToken (wire_tokens opts c) \<noteq> None"
  by (auto simp: wire_tokens_def Let_def split: option.splits)

lemma NewClient_core:
  assumes "NewClient env opts = Inr cl"
  obtains c where "new_core env opts = Inr c" "cl = client_of (wire_tokens opts c)"
  using assms by (cases "new_core env opts") (auto simp: NewClient_def)

text \<open>C10: \<open>NewClient\<close> either refuses with an error that is \<open>ErrInvalidConfiguration\<close>, or returns a client
  whose resources share one core that has a token source, a positive response bound, default headers
  without any reserved name in any capitalisation, and three base URLs that are HTTPS or HTTP to a
  loopback host, whose host cannot be extended and whose path cannot be cut off by what the
  resources append.\<close>

theorem new_client_secure:
  "case NewClient env opts of
     Inl e \<Rightarrow> errors_Is e ErrInvalidConfiguration
   | Inr cl \<Rightarrow> (let c = au_core (cl_Auth cl) in
       cl = client_of c \<and> c_getAccessToken c \<noteq> None \<and> 0 < c_maxResponseBodyBytes c \<and>
       (\<exists>hc. c_httpClient c = Some hc \<and> headers_safe (hc_default_headers hc)) \<and>
       secure_base (c_authBaseURL c) \<and> secure_base (c_apiBaseURL c) \<and> secure_base (c_spendRequestBaseURL c))"
proof (cases "new_core env opts")
  case (Inl e)
  then show ?thesis using new_core_error [OF Inl] by (simp add: NewClient_def)
next
  case (Inr c)
  then show ?thesis using new_core_ok [OF Inr] wire_tokens_source [of opts c]
    by (simp add: NewClient_def client_of_def core_ok_def Let_def)
qed

section \<open>The Authorization header\<close>

definition authorization :: string where "authorization = ''authorization''"

lemma authorization_reserved:
  "headers_safe h \<Longrightarrow> \<forall>e \<in> set h. lower_name (fst e) \<noteq> authorization"
proof -
  have "''Authorization'' \<in> set reservedDefaultHeaders" "lower_name ''Authorization'' = authorization"
    by code_simp+
  then show "headers_safe h \<Longrightarrow> \<forall>e \<in> set h. lower_name (fst e) \<noteq> authorization"
    unfolding headers_safe_def by metis
qed

definition authorization_of :: "http_request \<Rightarrow> (string \<times> string) list" where
  "authorization_of rq = filter (\<lambda>e. lower_name (fst e) = authorization) (rq_headers rq)"

lemma authorization_of_sent:
  assumes "headers_safe (hc_default_headers hc)" "ar_authenticated req"
    and "\<forall>e \<in> set (ar_header req). lower_name (fst e) \<noteq> authorization"
  shows "authorization_of (sent_as hc (wire_request req m t)) = [(''Authorization'', ''Bearer '' @ t)]"
proof -
  have "lower_name ''Authorization'' = authorization" by code_simp
  with assms show ?thesis
    by (auto simp: authorization_of_def sent_as_def wire_request_def
        add_default_headers_other [OF authorization_reserved] header_set_def filter_empty_conv)
qed

text \<open>C8: what \<open>core.do\<close> of a constructed client puts on the wire for an authenticated request: every request
  to the URL of the call has exactly one Authorization header in any capitalisation, and it is the
  bearer of the client's token source: on the first attempt the token of the source's first answer, on
  the second, which needs a replayable GET that was answered 401, the token the source returned when
  it was asked to replace exactly the rejected one. No default header can replace, duplicate or
  precede it, and nothing is sent when the source has no token.\<close>

theorem bearer_header_authentic:
  assumes "NewClient env opts = Inr cl" "c = au_core (cl_Auth cl)"
    and "c_httpClient c = Some hc" "c_getAccessToken c = Some g" "token_source g P used" "P w"
    and "ar_authenticated req" "\<forall>e \<in> set (ar_header req). lower_name (fst e) \<noteq> authorization"
    and "ar_url req \<notin> used" "core_do (Some c) ctx req w = (r, w')"
  shows "\<exists>sent ts. sent_to (ar_url req) w' = sent_to (ar_url req) w @ sent \<and>
    map authorization_of sent = map (\<lambda>t. [(''Authorization'', ''Bearer '' @ t)]) ts \<and> [] \<notin> set ts \<and>
    (ts = [] \<or>
     (\<exists>t w1. g ctx first_request w = (Inr t, w1) \<and>
        (ts = [t] \<or>
         (\<exists>b w2 t2 w3. ar_retryOnUnauthorized req \<and> ar_method req = ''GET'' \<and>
            doAttempt c hc req t 1 w1 = (Inr (401, b), w2) \<and>
            g ctx \<lparr>tr_ForceRefresh = True, tr_RejectedToken = t\<rparr> w2 = (Inr t2, w3) \<and> ts = [t, t2]))))"
proof -
  from NewClient_core [OF assms(1)] obtain b where "new_core env opts = Inr b" "cl = client_of (wire_tokens opts b)" .
  then have safe: "headers_safe (hc_default_headers hc)"
    using new_core_ok [of env opts b] assms(2,3) by (simp add: core_ok_def client_of_def)
  from token_source.core_do_bearers [OF assms(5,10,3,4,7,6,9)] obtain ts where
    ts: "sent_to (ar_url req) w' = sent_to (ar_url req) w @ map (\<lambda>t. sent_as hc (wire_request req (wire_method req) t)) ts"
      "bearers_of c hc g ctx req w ts" by blast
  have "map authorization_of (map (\<lambda>t. sent_as hc (wire_request req (wire_method req) t)) ts) =
      map (\<lambda>t. [(''Authorization'', ''Bearer '' @ t)]) ts"
    by (simp add: authorization_of_sent [OF safe assms(7,8)])
  moreover have "maximum_attempts req = 2 \<Longrightarrow> ar_retryOnUnauthorized req \<and> ar_method req = ''GET''"
    by (simp add: maximum_attempts_def split: if_splits)
  ultimately show ?thesis using ts unfolding bearers_of_def
    by (intro exI [of _ "map (\<lambda>t. sent_as hc (wire_request req (wire_method req) t)) ts"] exI [of _ ts]) metis
qed

text \<open>A configuration with a header of its own.\<close>

definition sample_environment :: environment where
  "sample_environment = \<lparr>en_auth_base_url = [], en_api_base_url = ''http://127.0.0.1:8080/v1/'', en_http_proxy = [],
     en_config_dir = Inl (Msg ''no home''), en_working_dir = Inr ''/tmp'', en_default_transport = True\<rparr>"

definition sample_options :: options where
  "sample_options = \<lparr>op_ClientName = [], op_AccessToken = [], op_GetAccessToken = None,
     op_AuthStorage = Value MemoryStorage, op_HTTPClient = None, op_DefaultHeaders = [(''x-agent'', ''test'')],
     op_MaxResponseBodyBytes = 0, op_AuthBaseURL = [], op_APIBaseURL = [], op_SpendRequestBaseURL = [],
     op_Verbose = False\<rparr>"

lemma sample_client:
  "\<exists>cl c. NewClient sample_environment sample_options = Inr cl \<and> cl_Auth cl = \<lparr>au_core = c, au_hostname = None\<rparr> \<and>
     cl_SpendRequests cl = Some c \<and> c_storage c = MemoryStorage \<and> c_authBaseURL c = ''https://login.link.com'' \<and>
     c_spendRequestBaseURL c = ''http://127.0.0.1:8080/v1'' \<and>
     c_httpClient c = Some \<lparr>hc_default_headers = [(''X-Agent'', ''test'')]\<rparr>"
proof -
  have "resolveBaseURL [] [] defaultAuthBaseURL = Inr ''https://login.link.com''"
    "resolveBaseURL [] ''http://127.0.0.1:8080/v1/'' defaultAPIBaseURL = Inr ''http://127.0.0.1:8080/v1''"
    "copyAndValidateDefaultHeaders [(''x-agent'', ''test'')] = Inr [(''X-Agent'', ''test'')]"
    by code_simp+
  then show ?thesis
    by (simp add: NewClient_def new_core_def or_config_def sample_environment_def sample_options_def
        resolveHTTPClient_def resolve_proxy_def resolve_storage_def client_of_def)
qed

text \<open>The same configuration with a fixed token, and a GET it replays.\<close>

definition fixed_options :: options where
  "fixed_options = sample_options\<lparr>op_AccessToken := ''tok''\<rparr>"

definition sample_get :: api_request where
  "sample_get = sample_post\<lparr>ar_method := ''GET'', ar_body := None\<rparr>"

lemma fixed_client:
  "\<exists>cl c. NewClient sample_environment fixed_options = Inr cl \<and> au_core (cl_Auth cl) = c \<and>
     c_getAccessToken c = Some static_token \<and> c_httpClient c = Some \<lparr>hc_default_headers = [(''X-Agent'', ''test'')]\<rparr>"
proof -
  have "resolveBaseURL [] [] defaultAuthBaseURL = Inr ''https://login.link.com''"
    "resolveBaseURL [] ''http://127.0.0.1:8080/v1/'' defaultAPIBaseURL = Inr ''http://127.0.0.1:8080/v1''"
    "copyAndValidateDefaultHeaders [(''x-agent'', ''test'')] = Inr [(''X-Agent'', ''test'')]"
    by code_simp+
  moreover have "static_token = (\<lambda>ctx rq w. (Inr ''tok'', w))" by (simp add: fun_eq_iff static_token_def)
  ultimately show ?thesis
    by (simp add: NewClient_def new_core_def or_config_def sample_environment_def sample_options_def fixed_options_def
        resolveHTTPClient_def resolve_proxy_def resolve_storage_def client_of_def wire_tokens_def)
qed

theorem bearer_header_authentic_witness:
  "\<exists>cl r w'. NewClient sample_environment fixed_options = Inr cl \<and>
     core_do (Some (au_core (cl_Auth cl))) (Some background) sample_get sample_world = (r, w') \<and>
     (\<forall>rq \<in> set (sent_to ''https://api.link.com/x'' w'). authorization_of rq = [(''Authorization'', ''Bearer tok'')])"
proof -
  obtain cl c where cl: "NewClient sample_environment fixed_options = Inr cl" "c = au_core (cl_Auth cl)"
    "c_httpClient c = Some \<lparr>hc_default_headers = [(''X-Agent'', ''test'')]\<rparr>" "c_getAccessToken c = Some static_token"
    using fixed_client by blast
  obtain r w' where d: "core_do (Some c) (Some background) sample_get sample_world = (r, w')" by fastforce
  have g: "ar_authenticated sample_get" "\<forall>e \<in> set (ar_header sample_get). lower_name (fst e) \<noteq> authorization"
    "ar_url sample_get = ''https://api.link.com/x''"
    by (simp_all add: sample_get_def sample_post_def)
  have u: "ar_url sample_get \<notin> {}" by simp
  obtain sent ts where s: "sent_to (ar_url sample_get) w' = sent_to (ar_url sample_get) sample_world @ sent"
    "map authorization_of sent = map (\<lambda>t. [(''Authorization'', ''Bearer '' @ t)]) ts" "set ts \<subseteq> {''tok''}"
    using bearer_header_authentic [OF cl static_source.token_source_axioms TrueI g(1,2) u d]
    by (elim exE conjE) (rule that, assumption+, auto simp: static_token_def)
  have n: "sent_to ''https://api.link.com/x'' sample_world = []" by (simp add: sent_to_def sample_world_def)
  have "authorization_of rq = [(''Authorization'', ''Bearer tok'')]" if "rq \<in> set sent" for rq
  proof -
    from that have "authorization_of rq \<in> set (map authorization_of sent)" by simp
    then show ?thesis using s(3) unfolding s(2) by auto
  qed
  then have "\<forall>rq \<in> set (sent_to ''https://api.link.com/x'' w'). authorization_of rq = [(''Authorization'', ''Bearer tok'')]"
    using s(1) unfolding g(3) by (simp add: n)
  with cl(1) d show ?thesis unfolding cl(2) by blast
qed

section \<open>Mutations through the whole client\<close>

text \<open>The source a constructed client uses: the caller's function, which may use the URLs it is known to
  use, the fixed token, or the provider installed on the client's storage.\<close>

lemma client_source:
  assumes "NewClient env opts = Inr cl" "cl_SpendRequests cl = Some c" "P w"
    and own: "\<And>g. op_GetAccessToken opts = Some g \<Longrightarrow> token_source g P used"
    and stored: "op_GetAccessToken opts = None \<Longrightarrow> op_AccessToken opts = [] \<Longrightarrow>
      auth_storage_contract (c_storage c) st P"
  shows "\<exists>g Q. c_getAccessToken c = Some g \<and> token_source g Q (insert (c_authBaseURL c @ ''/device/token'') used) \<and> Q w"
proof -
  let ?u = "c_authBaseURL c @ ''/device/token''"
  from NewClient_core [OF assms(1)] obtain b where b: "cl = client_of (wire_tokens opts b)" .
  then have c: "c = wire_tokens opts b" using assms(2) by (simp add: client_of_def)
  have more: "token_source g Q (insert ?u used)" if "token_source g Q V" "V \<subseteq> insert ?u used" for g Q V
    using that unfolding token_source_def by blast
  show ?thesis
  proof (cases "op_GetAccessToken opts")
    case (Some g)
    then have "c_getAccessToken c = Some g" by (simp add: c wire_tokens_def)
    with more [OF own [OF Some]] assms(3) show ?thesis by blast
  next
    case None
    show ?thesis
    proof (cases "op_AccessToken opts = []")
      case True
      note contract = stored [OF None True]
      let ?m = "b\<lparr>c_managesSession := True\<rparr>"
      let ?p = "\<lparr>pv_storage = Some (c_storage b), pv_auth = Some \<lparr>au_core = ?m, au_hostname = None\<rparr>\<rparr>"
      have g: "c_getAccessToken c = Some (token ?p)" using True None by (simp add: c wire_tokens_def Let_def)
      have "token_source (token ?p) (timed P (w_clock w) (w_tick w)) {c_authBaseURL (au_core \<lparr>au_core = ?m, au_hostname = None\<rparr>) @ ''/device/token''}"
        by (rule auth_storage_contract.refreshing_source [OF contract]) (simp_all add: c)
      from more [OF this] have "token_source (token ?p) (timed P (w_clock w) (w_tick w)) (insert ?u used)" by (simp add: c)
      with g timed_start [of P w] assms(3) show ?thesis by blast
    next
      case False
      then have "c_getAccessToken c = Some (\<lambda>ctx rq w. (Inr (op_AccessToken opts), w))"
        using None by (simp add: c wire_tokens_def)
      moreover have "token_source (\<lambda>ctx rq w. (Inr (op_AccessToken opts), w)) (\<lambda>_. True) (insert ?u used)"
        by unfold_locales simp_all
      ultimately show ?thesis by blast
    qed
  qed
qed

text \<open>C9: for every client that \<open>NewClient\<close> returns, creating, updating, cancelling or asking for approval of
  a spend request reaches the wire at most once, and only when its arguments are acceptable: then as
  one POST to the collection or to the id's own endpoint, with exactly the encoded parameters as its
  body and a non-empty bearer token; unacceptable arguments change nothing at all. The client may use a
  fixed token, a token function of the caller, whose own requests are excepted, or the provider
  \<open>NewClient\<close> installs, on any storage that keeps the contract of the interface: refreshes, retries
  and storage failures may all happen inside the call, and no URL but that one and the token endpoint
  is used.\<close>

theorem client_mutations_sent_once:
  assumes "NewClient env opts = Inr cl" "cl_SpendRequests cl = Some c" "P w"
    and "\<And>g. op_GetAccessToken opts = Some g \<Longrightarrow> token_source g P used"
    and "op_GetAccessToken opts = None \<Longrightarrow> op_AccessToken opts = [] \<Longrightarrow> auth_storage_contract (c_storage c) st P"
    and "ctx \<noteq> None" "c_httpClient c = Some hc" "u \<notin> used" "u \<noteq> c_authBaseURL c @ ''/device/token''"
  shows "case mutation_request c op of
      None \<Rightarrow> run_mutation (Some c) ctx op w = w
    | Some req \<Rightarrow> (\<exists>ts. sent_to u (run_mutation (Some c) ctx op w) = sent_to u w @
          (if u = ar_url req then map (\<lambda>t. sent_as hc (wire_request req ''POST'' t)) ts else []) \<and>
        length ts \<le> 1 \<and> [] \<notin> set ts)"
proof -
  from NewClient_core [OF assms(1)] obtain b where b: "new_core env opts = Inr b" "cl = client_of (wire_tokens opts b)" .
  then have c: "c = wire_tokens opts b" using assms(2) by (simp add: client_of_def)
  have "secure_base (c_spendRequestBaseURL c)" using new_core_ok [OF b(1)] by (simp add: core_ok_def c)
  then have ne: "c_spendRequestBaseURL c \<noteq> []" by (auto simp: secure_base_def)
  from client_source [OF assms(1-5)] obtain g Q where g: "c_getAccessToken c = Some g"
    "token_source g Q (insert (c_authBaseURL c @ ''/device/token'') used)" "Q w" by blast
  show ?thesis by (rule spend_mutation_sent_once [OF ne assms(6,7) g]) (use assms(8,9) in simp)
qed

theorem client_mutations_sent_once_witness:
  "\<exists>cl c. NewClient sample_environment sample_options = Inr cl \<and> cl_SpendRequests cl = Some c \<and>
     (\<exists>ts. sent_to ''http://127.0.0.1:8080/v1/spend_requests/create_delegated''
        (run_mutation (Some c) (Some background) (CreateOf sample_params) early_world) =
        map (\<lambda>t. sent_as \<lparr>hc_default_headers = [(''X-Agent'', ''test'')]\<rparr>
          (wire_request (write_request ''http://127.0.0.1:8080/v1/spend_requests/create_delegated''
          (Some (compact (enc_create_params sample_params)))) ''POST'' t)) ts \<and> length ts \<le> 1)"
proof -
  let ?u = "''http://127.0.0.1:8080/v1/spend_requests/create_delegated''"
  obtain cl c where cl: "NewClient sample_environment sample_options = Inr cl" "cl_SpendRequests cl = Some c"
    and s: "c_storage c = MemoryStorage" "c_authBaseURL c = ''https://login.link.com''"
      "c_spendRequestBaseURL c = ''http://127.0.0.1:8080/v1''"
      "c_httpClient c = Some \<lparr>hc_default_headers = [(''X-Agent'', ''test'')]\<rparr>" using sample_client by blast
  have m: "mutation_request c (CreateOf sample_params) =
      Some (write_request ?u (Some (compact (enc_create_params sample_params))))"
    using sample_mutation [OF s(3)] by simp
  have p1: "auth_storage_contract (c_storage c) mem_abs mem_inv"
    unfolding s by (rule package_contract [OF package_storage.memory])
  have p2: "op_GetAccessToken sample_options = Some g \<Longrightarrow> token_source g mem_inv {}" for g
    by (simp add: sample_options_def)
  have p3: "mem_inv early_world"
    using early_world_ok(1) by (simp add: mem_inv_def) (simp add: early_world_def empty_state_def state_wf_def)
  have p4: "?u \<noteq> c_authBaseURL c @ ''/device/token''" by (simp add: s)
  have "case mutation_request c (CreateOf sample_params) of
      None \<Rightarrow> run_mutation (Some c) (Some background) (CreateOf sample_params) early_world = early_world
    | Some req \<Rightarrow> (\<exists>ts. sent_to ?u (run_mutation (Some c) (Some background) (CreateOf sample_params) early_world) =
          sent_to ?u early_world @
          (if ?u = ar_url req then map (\<lambda>t. sent_as \<lparr>hc_default_headers = [(''X-Agent'', ''test'')]\<rparr>
             (wire_request req ''POST'' t)) ts else []) \<and>
        length ts \<le> 1 \<and> [] \<notin> set ts)"
    by (rule client_mutations_sent_once [OF cl p3 p2 p1 _ s(4) _ p4]) simp_all
  moreover have "sent_to ?u early_world = []" by (simp add: sent_to_def early_world_def sample_world_def)
  ultimately show ?thesis
    unfolding m option.case ar_url_write if_True append_Nil using cl by (intro exI [of _ cl] exI [of _ c]) auto
qed

end
