(* ===== verification/GoTime.thy ===== *)
theory GoTime
  imports GoText
begin

text \<open>
  \<open>time.Parse(time.RFC3339Nano, s)\<close>: the strict fast path and the general parser agree where both
  accept, so one grammar describes the function: a one-digit hour, a comma before the fraction and
  offsets up to 24:60 are accepted by the second only. The result is in nanoseconds since the epoch.
\<close>

section \<open>The calendar\<close>

definition leap_year :: "int \<Rightarrow> bool" where
  "leap_year y \<longleftrightarrow> y mod 4 = 0 \<and> (y mod 100 \<noteq> 0 \<or> y mod 400 = 0)"

definition days_in :: "int \<Rightarrow> int \<Rightarrow> int" where
  "days_in m y = (if m = 2 then (if leap_year y then 29 else 28) else if m \<in> {4, 6, 9, 11} then 30 else 31)"

text \<open>Days since 1970-01-01 in the proleptic Gregorian calendar, counting years from March.\<close>

definition epoch_days :: "int \<Rightarrow> int \<Rightarrow> int \<Rightarrow> int" where
  "epoch_days y m d =
     (let y' = (if m \<le> 2 then y - 1 else y);
          day_of_year = (153 * (if m > 2 then m - 3 else m + 9) + 2) div 5 + d - 1
      in 365 * y' + y' div 4 - y' div 100 + y' div 400 + day_of_year - 719468)"

section \<open>Fields\<close>

text \<open>A number of exactly \<open>n\<close> digits, and the rest.\<close>

definition fixed_num :: "nat \<Rightarrow> string \<Rightarrow> (int \<times> string) option" where
  "fixed_num n s =
     (if length s \<ge> n \<and> list_all is_digit (take n s) then Some (int (digits_value 0 (take n s)), drop n s) else None)"

text \<open>The hour may have one digit.\<close>

definition loose_num :: "string \<Rightarrow> (int \<times> string) option" where
  "loose_num s = (case fixed_num 2 s of Some r \<Rightarrow> Some r | None \<Rightarrow> fixed_num 1 s)"

definition expect :: "char \<Rightarrow> string \<Rightarrow> string option" where
  "expect c s = (case s of x # r \<Rightarrow> if x = c then Some r else None | [] \<Rightarrow> None)"

definition in_range :: "int \<Rightarrow> int \<Rightarrow> (int \<times> string) option \<Rightarrow> (int \<times> string) option" where
  "in_range lo hi x = (case x of Some (v, r) \<Rightarrow> if lo \<le> v \<and> v \<le> hi then Some (v, r) else None | None \<Rightarrow> None)"

definition then_expect :: "char \<Rightarrow> (int \<times> string) option \<Rightarrow> (int \<times> string) option" where
  "then_expect c x = (case x of Some (v, r) \<Rightarrow> map_option (Pair v) (expect c r) | None \<Rightarrow> None)"

text \<open>Nanoseconds of a fraction: digits past the ninth are dropped.\<close>

definition fraction :: "string \<Rightarrow> int \<times> string" where
  "fraction s =
     (case s of
        c # d # r \<Rightarrow>
          (if (c = CHR ''.'' \<or> c = CHR '','') \<and> is_digit d
           then (let ds = takeWhile is_digit (d # r); k = take 9 ds
                 in (int (digits_value 0 k) * 10 ^ (9 - length k), dropWhile is_digit (d # r)))
           else (0, s))
      | _ \<Rightarrow> (0, s))"

text \<open>Seconds east of UTC; the whole rest must be the zone.\<close>

definition zone :: "string \<Rightarrow> int option" where
  "zone s =
     (if s = ''Z'' then Some 0
      else (case s of
              sign # r \<Rightarrow>
                (case then_expect (CHR '':'') (in_range 0 24 (fixed_num 2 r)) of
                   Some (hr, r1) \<Rightarrow>
                     (case in_range 0 60 (fixed_num 2 r1) of
                        Some (mm, []) \<Rightarrow>
                          (if sign = CHR ''+'' then Some ((hr * 60 + mm) * 60)
                           else if sign = CHR ''-'' then Some (- ((hr * 60 + mm) * 60)) else None)
                      | _ \<Rightarrow> None)
                 | None \<Rightarrow> None)
            | [] \<Rightarrow> None))"

definition parse_clock :: "string \<Rightarrow> (int \<times> string) option" where
  "parse_clock s =
     (case then_expect (CHR '':'') (in_range 0 23 (loose_num s)) of
        None \<Rightarrow> None
      | Some (hour, s1) \<Rightarrow>
          (case then_expect (CHR '':'') (in_range 0 59 (fixed_num 2 s1)) of
             None \<Rightarrow> None
           | Some (minute, s2) \<Rightarrow>
               (case in_range 0 59 (fixed_num 2 s2) of
                  None \<Rightarrow> None
                | Some (sec, s3) \<Rightarrow> Some ((hour * 60 + minute) * 60 + sec, s3))))"

definition parse_date :: "string \<Rightarrow> (int \<times> string) option" where
  "parse_date s =
     (case then_expect (CHR ''-'') (fixed_num 4 s) of
        None \<Rightarrow> None
      | Some (year, s1) \<Rightarrow>
          (case then_expect (CHR ''-'') (in_range 1 12 (fixed_num 2 s1)) of
             None \<Rightarrow> None
           | Some (month, s2) \<Rightarrow>
               (case then_expect (CHR ''T'') (in_range 1 (days_in month year) (fixed_num 2 s2)) of
                  None \<Rightarrow> None
                | Some (day, s3) \<Rightarrow> Some (epoch_days year month day, s3))))"

definition parse_rfc3339 :: "string \<Rightarrow> int option" where
  "parse_rfc3339 s =
     (case parse_date s of
        None \<Rightarrow> None
      | Some (days, s1) \<Rightarrow>
          (case parse_clock s1 of
             None \<Rightarrow> None
           | Some (secs, s2) \<Rightarrow>
               (case fraction s2 of
                  (nanos, s3) \<Rightarrow>
                    (case zone s3 of
                       None \<Rightarrow> None
                     | Some off \<Rightarrow> Some ((days * 86400 + secs - off) * 1000000000 + nanos)))))"

lemma epoch_days_examples:
  "epoch_days 1970 1 1 = 0" "epoch_days 2000 3 1 = 11017" "epoch_days 2024 2 29 = 19782" "epoch_days 0 1 1 = - 719528"
  by (simp_all add: epoch_days_def)

lemma parse_rfc3339_examples:
  "parse_rfc3339 ''1970-01-01T00:00:01Z'' = Some 1000000000"
  "parse_rfc3339 ''1970-01-01T01:00:00.5+01:00'' = Some 500000000"
  "parse_rfc3339 ''2023-02-29T00:00:00Z'' = None"
  by code_simp+

end
