(* ===== verification/WebBotAuth.thy ===== *)
theory WebBotAuth
  imports Resources GoTime
begin

text \<open>
  The web-bot-auth resource of web_bot_auth.go: the identity of a merchant URL, the validation of a
  signature block, the request for one, and the cache with its shared in-flight calls. The critical
  sections of \<open>SignURL\<close>, \<open>releaseWebBotWaiter\<close> and \<open>signWebBotAuth\<close> are functions on a shared
  state; \<open>wb_step\<close> interleaves any number of callers and signing goroutines at their boundaries.

  \<open>lower\<close> is the lower-case mapping of the Unicode tables for encoded code points beyond ASCII.
\<close>

section \<open>Authorities\<close>

definition ToLower :: "(string \<Rightarrow> string) \<Rightarrow> string \<Rightarrow> string" where
  "ToLower lower s = concat (map (\<lambda>r. if length r = 1 then map to_lower r else lower r) (runes s))"

definition canonicalWebBotHostname :: "(string \<Rightarrow> string) \<Rightarrow> string \<Rightarrow> string" where
  "canonicalWebBotHostname lower hostname =
     (let h = trim_suffix hostname ''.''
      in case parse_ip h of Some ip \<Rightarrow> show_ip ip | None \<Rightarrow> ToLower lower h)"

definition blank_chars :: string where
  "blank_chars = [CHR '' '', CHR 0x09, CHR 0x0D, CHR 0x0A, CHR 0x00]"

definition webBotAuthority :: "(string \<Rightarrow> string) \<Rightarrow> string \<Rightarrow> (go_error, string) result" where
  "webBotAuthority lower rawURL =
     (case url_parse rawURL of
        None \<Rightarrow> Inl url_error
      | Some u \<Rightarrow>
          (if \<not> url_is_abs u \<or> u_opaque u \<noteq> [] \<or> u_host u = []
           then Inl (Msg ''must be an absolute hierarchical URL with a host'')
           else if fold_name (u_scheme u) \<noteq> fold_name ''http'' \<and> fold_name (u_scheme u) \<noteq> fold_name ''https''
           then Inl (Msg ''scheme must be HTTP or HTTPS'')
           else if u_user u \<noteq> None then Inl (Msg ''user information is not permitted'')
           else if url_hostname u = [] then Inl (Msg ''hostname must not be empty'')
           else if contains_any (url_hostname u) blank_chars then Inl (Msg ''hostname contains invalid whitespace'')
           else if canonicalWebBotHostname lower (url_hostname u) = [] then Inl (Msg ''hostname must not be empty'')
           else Inr (canonicalWebBotHostname lower (url_hostname u))))"

definition canonicalWebBotBlockAuthority :: "(string \<Rightarrow> string) \<Rightarrow> string \<Rightarrow> string option" where
  "canonicalWebBotBlockAuthority lower authority =
     (if authority \<noteq> trim_space authority \<or> contains_any authority (''/@?#'' @ blank_chars) then None
      else (let hostname = (if has_prefix authority ''['' \<and> has_suffix authority '']''
                            then trim_suffix (tl authority) '']'' else authority)
            in if hostname = [] \<or> (CHR '':'' \<in> set hostname \<and> parse_ip hostname = None) then None
               else Some (canonicalWebBotHostname lower hostname)))"

section \<open>Blocks\<close>

definition block_fields :: "web_bot_auth_block \<Rightarrow> (string \<times> string) list" where
  "block_fields b =
     [(''signature'', wb_signature b), (''signature_input'', wb_signature_input b),
      (''signature_agent'', wb_signature_agent b), (''authority'', wb_authority b),
      (''expires_at'', wb_expires_at b)]"

text \<open>The loop over the field map finds some blank field; here the first one listed.\<close>

definition validateWebBotAuthBlock ::
  "(string \<Rightarrow> string) \<Rightarrow> web_bot_auth_block \<Rightarrow> string \<Rightarrow> int \<Rightarrow> (go_error, int) result" where
  "validateWebBotAuthBlock lower block authority now =
     (case find (\<lambda>f. trim_space (snd f) = []) (block_fields block) of
        Some f \<Rightarrow> Inl (invalid_argument (''web_bot_auth.'' @ fst f @ '' must not be empty''))
      | None \<Rightarrow>
          (if canonicalWebBotBlockAuthority lower (wb_authority block) \<noteq> Some authority
           then Inl (invalid_argument ''web_bot_auth authority does not match requested hostname'')
           else (case parse_rfc3339 (wb_expires_at block) of
                   None \<Rightarrow> Inl (invalid_argument ''credentials response has invalid expires_at'')
                 | Some expiresAt \<Rightarrow>
                     (if \<not> now < expiresAt then Inl (invalid_argument ''credentials response is expired'')
                      else Inr expiresAt))))"

definition dec_sign_response :: "web_bot_auth_block option decoder" where
  "dec_sign_response vs =
     (let b = f_ptr dec_web_bot_auth_block ''web_bot_auth'' vs in (fst b, objects vs \<and> snd b))"

definition sign_body :: "string \<Rightarrow> string" where
  "sign_body rawURL = compact (JObj [(''url'', enc_string rawURL)])"

definition missing_block :: go_error where
  "missing_block = invalid_argument ''Sign response missing web_bot_auth block''"

type_synonym signed = "(go_error, web_bot_auth_block \<times> int) result"

definition fetchWebBotAuth ::
  "(string \<Rightarrow> string) \<Rightarrow> core \<Rightarrow> go_context \<Rightarrow> string \<Rightarrow> string \<Rightarrow> world \<Rightarrow> signed \<times> world" where
  "fetchWebBotAuth lower c ctx authority rawURL w =
     (case doJSON (\<lambda>v. d_ptr dec_sign_response [v]) (Some c) ctx
             (write_request (c_apiBaseURL c @ ''/web_bot_auth/sign'') (Some (sign_body rawURL))) w of
        (Inl e, w1) \<Rightarrow> (Inl (resourceOperationError e ''Failed to get web bot auth headers''), w1)
      | (Inr (Some (Some block)), w1) \<Rightarrow>
          (case time_now w1 of
             (now, w2) \<Rightarrow>
               (case validateWebBotAuthBlock lower block authority now of
                  Inl e \<Rightarrow> (Inl e, w2)
                | Inr expiresAt \<Rightarrow> (Inr (block, expiresAt), w2)))
      | (Inr _, w1) \<Rightarrow> (Inl missing_block, w1))"

section \<open>Shared state\<close>

definition webBotAuthExpiryBuffer :: int where "webBotAuthExpiryBuffer = seconds 30"

text \<open>A signing goroutine is about to fetch, about to publish, or finished.\<close>

datatype wb_job = Fetching | Publishing signed | Over

text \<open>\<open>webBotAuthCall\<close> with the goroutine that serves it; \<open>completed\<close> is also the closed channel.\<close>

record wb_call =
  wc_authority :: string
  wc_url :: string
  wc_cancelled :: bool
  wc_waiters :: nat
  wc_completed :: bool
  wc_result :: signed
  wc_job :: wb_job

text \<open>Where a caller of \<open>SignURL\<close> is: entering, before the lock, waiting, released from the wait (by a
  cancellation or not) but not yet counted out, returned.\<close>

datatype wb_caller =
    SignEntering
  | SignLooking string int
  | SignWaiting string nat
  | SignLeaving string nat bool
  | SignReturned "(go_error, web_bot_auth_block) result"

record wb_state =
  wb_world :: world
  wb_cache :: "string \<Rightarrow> (web_bot_auth_block \<times> int) option"
  wb_inflight :: "string \<Rightarrow> nat option"
  wb_calls :: "wb_call list"
  wb_args :: "nat \<Rightarrow> go_context \<times> string"
  wb_callers :: "nat \<Rightarrow> wb_caller"

definition wb_goto :: "nat \<Rightarrow> wb_caller \<Rightarrow> wb_state \<Rightarrow> wb_state" where
  "wb_goto i p st = st\<lparr>wb_callers := (wb_callers st)(i := p)\<rparr>"

definition wb_in_world :: "world \<Rightarrow> wb_state \<Rightarrow> wb_state" where
  "wb_in_world w st = st\<lparr>wb_world := w\<rparr>"

definition wb_update_call :: "nat \<Rightarrow> (wb_call \<Rightarrow> wb_call) \<Rightarrow> wb_state \<Rightarrow> wb_state" where
  "wb_update_call k f st = st\<lparr>wb_calls := (wb_calls st)[k := f (wb_calls st ! k)]\<rparr>"

definition drop_inflight :: "string \<Rightarrow> wb_state \<Rightarrow> wb_state" where
  "drop_inflight a st = st\<lparr>wb_inflight := (wb_inflight st)(a := None)\<rparr>"

text \<open>\<open>ctx.Err()\<close>, which is not the cause.\<close>

definition ctx_Err :: "gctx \<Rightarrow> world \<Rightarrow> go_error option \<times> world" where
  "ctx_Err c w = (case time_now w of (t, w1) \<Rightarrow> ((if ctx_done c t then Some (Sentinel (cx_err c)) else None), w1))"

section \<open>SignURL\<close>

text \<open>Up to the lock; \<open>r\<close> is the resource's core.\<close>

definition sign_enter :: "(string \<Rightarrow> string) \<Rightarrow> resource \<Rightarrow> nat \<Rightarrow> wb_state \<Rightarrow> wb_state" where
  "sign_enter lower r i st =
     (case wb_args st i of
        (None, rawURL) \<Rightarrow> wb_goto i (SignReturned (Inl (invalid_argument ''context must not be nil''))) st
      | (Some c, rawURL) \<Rightarrow>
          (case webBotAuthority lower rawURL of
             Inl e \<Rightarrow> wb_goto i (SignReturned (Inl (invalid_argument ''invalid merchant URL''))) st
           | Inr authority \<Rightarrow>
               (if r = None
                then wb_goto i (SignReturned (Inl (invalid_argument ''web-bot-auth resource is not configured''))) st
                else (case ctx_Err c (wb_world st) of
                        (Some e, w) \<Rightarrow> wb_goto i (SignReturned (Inl e)) (wb_in_world w st)
                      | (None, w) \<Rightarrow>
                          (case time_now w of (now, w1) \<Rightarrow> wb_goto i (SignLooking authority now) (wb_in_world w1 st))))))"

definition new_wb_call :: "string \<Rightarrow> string \<Rightarrow> wb_call" where
  "new_wb_call authority rawURL =
     \<lparr>wc_authority = authority, wc_url = rawURL, wc_cancelled = False, wc_waiters = 1, wc_completed = False,
      wc_result = Inl missing_block, wc_job = Fetching\<rparr>"

text \<open>Joining the call in flight, or starting one.\<close>

definition sign_join :: "nat \<Rightarrow> string \<Rightarrow> wb_state \<Rightarrow> wb_state" where
  "sign_join i authority st =
     (case wb_inflight st authority of
        Some k \<Rightarrow> wb_goto i (SignWaiting authority k) (wb_update_call k (\<lambda>c. c\<lparr>wc_waiters := wc_waiters c + 1\<rparr>) st)
      | None \<Rightarrow>
          wb_goto i (SignWaiting authority (length (wb_calls st)))
            (st\<lparr>wb_inflight := (wb_inflight st)(authority := Some (length (wb_calls st))),
                wb_calls := wb_calls st @ [new_wb_call authority (snd (wb_args st i))]\<rparr>))"

definition sign_lookup :: "nat \<Rightarrow> string \<Rightarrow> int \<Rightarrow> wb_state \<Rightarrow> wb_state" where
  "sign_lookup i authority now st =
     (case wb_cache st authority of
        Some (block, expiresAt) \<Rightarrow>
          (if now < expiresAt - webBotAuthExpiryBuffer then wb_goto i (SignReturned (Inr block)) st
           else sign_join i authority (st\<lparr>wb_cache := (wb_cache st)(authority := None)\<rparr>))
      | None \<Rightarrow> sign_join i authority st)"

section \<open>waitForWebBotAuth\<close>

text \<open>The select: a completed call, a done context, or, when both, either.\<close>

definition wait_select :: "nat \<Rightarrow> string \<Rightarrow> nat \<Rightarrow> wb_state \<Rightarrow> wb_state" where
  "wait_select i authority k st =
     (case wb_args st i of
        (None, _) \<Rightarrow> st
      | (Some c, _) \<Rightarrow>
          (case time_now (wb_world st) of
             (t, w) \<Rightarrow>
               (let completed = wc_completed (wb_calls st ! k)
                in if completed \<and> \<not> (ctx_done c t \<and> w_choose w (w_tick w))
                   then wb_goto i (SignLeaving authority k False) (wb_in_world w st)
                   else if ctx_done c t then wb_goto i (SignLeaving authority k True) (wb_in_world w st)
                   else wb_in_world w st)))"

definition releaseWebBotWaiter :: "string \<Rightarrow> nat \<Rightarrow> bool \<Rightarrow> wb_state \<Rightarrow> wb_state" where
  "releaseWebBotWaiter authority k canceled st =
     (let st1 = (if wc_waiters (wb_calls st ! k) > 0
                 then wb_update_call k (\<lambda>c. c\<lparr>wc_waiters := wc_waiters c - 1\<rparr>) st else st);
          call = wb_calls st1 ! k
      in if canceled \<and> wc_waiters call = 0 \<and> \<not> wc_completed call
         then wb_update_call k (\<lambda>c. c\<lparr>wc_cancelled := True\<rparr>)
                (if wb_inflight st1 authority = Some k then drop_inflight authority st1 else st1)
         else st1)"

definition wait_leave :: "nat \<Rightarrow> string \<Rightarrow> nat \<Rightarrow> bool \<Rightarrow> wb_state \<Rightarrow> wb_state" where
  "wait_leave i authority k canceled st =
     (let st1 = releaseWebBotWaiter authority k canceled st
      in wb_goto i
           (SignReturned
             (if canceled
              then (case fst (wb_args st i) of
                      Some c \<Rightarrow> Inl (Sentinel (cx_err c)) | None \<Rightarrow> Inl (Sentinel ContextCanceled))
              else (case wc_result (wb_calls st1 ! k) of Inl e \<Rightarrow> Inl e | Inr (block, e) \<Rightarrow> Inr block))) st1)"

fun sign_step :: "(string \<Rightarrow> string) \<Rightarrow> resource \<Rightarrow> nat \<Rightarrow> wb_caller \<Rightarrow> wb_state \<Rightarrow> wb_state" where
  "sign_step lower r i SignEntering st = sign_enter lower r i st"
| "sign_step lower r i (SignLooking authority now) st = sign_lookup i authority now st"
| "sign_step lower r i (SignWaiting authority k) st = wait_select i authority k st"
| "sign_step lower r i (SignLeaving authority k canceled) st = wait_leave i authority k canceled st"
| "sign_step lower r i (SignReturned x) st = st"

section \<open>signWebBotAuth\<close>

text \<open>The context of the shared work: done exactly once it is cancelled.\<close>

definition work_context :: "wb_call \<Rightarrow> go_context" where
  "work_context c =
     (if wc_cancelled c
      then Some \<lparr>cx_done_at = Some 0, cx_err = ContextCanceled, cx_cause = Sentinel ContextCanceled\<rparr>
      else Some background)"

definition publish_signed :: "nat \<Rightarrow> signed \<Rightarrow> wb_state \<Rightarrow> wb_state" where
  "publish_signed k r st =
     (let authority = wc_authority (wb_calls st ! k);
          current = (wb_inflight st authority = Some k);
          st1 = wb_update_call k (\<lambda>c. c\<lparr>wc_completed := True, wc_result := r, wc_job := Over, wc_cancelled := True\<rparr>) st
      in if \<not> current then st1
         else (case r of
                 Inl e \<Rightarrow> drop_inflight authority st1
               | Inr (block, expiresAt) \<Rightarrow>
                   (case time_now (wb_world st1) of
                      (t, w) \<Rightarrow>
                        (let st2 = drop_inflight authority (wb_in_world w st1)
                         in if t < expiresAt - webBotAuthExpiryBuffer
                            then st2\<lparr>wb_cache := (wb_cache st2)(authority := Some (block, expiresAt))\<rparr>
                            else st2))))"

definition signWebBotAuth :: "(string \<Rightarrow> string) \<Rightarrow> resource \<Rightarrow> nat \<Rightarrow> wb_state \<Rightarrow> wb_state" where
  "signWebBotAuth lower r k st =
     (let call = wb_calls st ! k
      in case wc_job call of
           Fetching \<Rightarrow>
             (case r of
                None \<Rightarrow> st
              | Some c \<Rightarrow>
                  (case fetchWebBotAuth lower c (work_context call) (wc_authority call) (wc_url call) (wb_world st) of
                     (x, w) \<Rightarrow> wb_update_call k (\<lambda>c. c\<lparr>wc_job := Publishing x\<rparr>) (wb_in_world w st)))
         | Publishing x \<Rightarrow> publish_signed k x st
         | Over \<Rightarrow> st)"

section \<open>Interleaving\<close>

inductive wb_step :: "(string \<Rightarrow> string) \<Rightarrow> resource \<Rightarrow> wb_state \<Rightarrow> wb_state \<Rightarrow> bool" for lower r where
  caller: "wb_step lower r st (sign_step lower r i (wb_callers st i) st)"
| job: "k < length (wb_calls st) \<Longrightarrow> wb_step lower r st (signWebBotAuth lower r k st)"
| outside: "w_clock w = w_clock (wb_world st) \<Longrightarrow> wb_step lower r st (wb_in_world w st)"

inductive wb_reachable :: "(string \<Rightarrow> string) \<Rightarrow> resource \<Rightarrow> wb_state \<Rightarrow> bool" for lower r where
  start: "wb_cache st = Map.empty \<Longrightarrow> wb_inflight st = Map.empty \<Longrightarrow> wb_calls st = [] \<Longrightarrow>
    \<forall>i. wb_callers st i = SignEntering \<Longrightarrow> wb_reachable lower r st"
| step: "wb_reachable lower r st \<Longrightarrow> wb_step lower r st st' \<Longrightarrow> wb_reachable lower r st'"

inductive_cases wb_stepE: "wb_step lower r st st'"

text \<open>A schedule.\<close>

datatype wb_pick = SignCaller nat | SignWorker nat

fun wb_run :: "(string \<Rightarrow> string) \<Rightarrow> resource \<Rightarrow> wb_pick list \<Rightarrow> wb_state \<Rightarrow> wb_state" where
  "wb_run lower r [] st = st"
| "wb_run lower r (SignCaller i # ps) st = wb_run lower r ps (sign_step lower r i (wb_callers st i) st)"
| "wb_run lower r (SignWorker k # ps) st =
     wb_run lower r ps (if k < length (wb_calls st) then signWebBotAuth lower r k st else st)"

lemma reachable_wb_run: "wb_reachable lower r st \<Longrightarrow> wb_reachable lower r (wb_run lower r ps st)"
  by (induction lower r ps st rule: wb_run.induct)
     (simp_all add: wb_reachable.step [OF _ wb_step.caller] wb_reachable.step [OF _ wb_step.job])

end
