(* ===== verification/WebBotSpec.thy ===== *)
theory WebBotSpec
  imports WebBotAuth
begin

text \<open>
  The invariant of every interleaving of the web-bot-auth resource: which calls are in flight,
  who waits for them, and which of them are cancelled.
\<close>

section \<open>Fields\<close>

lemma wb_fields [simp]:
  "wb_world (wb_goto i p st) = wb_world st" "wb_cache (wb_goto i p st) = wb_cache st"
  "wb_inflight (wb_goto i p st) = wb_inflight st" "wb_calls (wb_goto i p st) = wb_calls st"
  "wb_args (wb_goto i p st) = wb_args st" "wb_callers (wb_goto i p st) = (wb_callers st)(i := p)"
  "wb_world (wb_in_world w st) = w" "wb_cache (wb_in_world w st) = wb_cache st"
  "wb_inflight (wb_in_world w st) = wb_inflight st" "wb_calls (wb_in_world w st) = wb_calls st"
  "wb_args (wb_in_world w st) = wb_args st" "wb_callers (wb_in_world w st) = wb_callers st"
  "wb_world (wb_update_call k f st) = wb_world st" "wb_cache (wb_update_call k f st) = wb_cache st"
  "wb_inflight (wb_update_call k f st) = wb_inflight st"
  "wb_calls (wb_update_call k f st) = (wb_calls st)[k := f (wb_calls st ! k)]"
  "wb_args (wb_update_call k f st) = wb_args st" "wb_callers (wb_update_call k f st) = wb_callers st"
  "wb_world (drop_inflight a st) = wb_world st" "wb_cache (drop_inflight a st) = wb_cache st"
  "wb_inflight (drop_inflight a st) = (wb_inflight st)(a := None)" "wb_calls (drop_inflight a st) = wb_calls st"
  "wb_args (drop_inflight a st) = wb_args st" "wb_callers (drop_inflight a st) = wb_callers st"
  by (simp_all add: wb_goto_def wb_in_world_def wb_update_call_def drop_inflight_def)

section \<open>Calls in flight\<close>

definition wb_live :: "wb_call \<Rightarrow> bool" where
  "wb_live c \<longleftrightarrow> \<not> wc_completed c \<and> \<not> wc_cancelled c"

text \<open>The calls in flight are exactly the wb_live ones, so no two of them share an authority.\<close>

definition flight_inv :: "wb_call list \<Rightarrow> (string \<Rightarrow> nat option) \<Rightarrow> bool" where
  "flight_inv cs f \<longleftrightarrow>
     (\<forall>a k. f a = Some k \<longleftrightarrow> k < length cs \<and> wc_authority (cs ! k) = a \<and> wb_live (cs ! k))"

lemma flight_inv_iff:
  "flight_inv cs f \<Longrightarrow> f a = Some k \<longleftrightarrow> k < length cs \<and> wc_authority (cs ! k) = a \<and> wb_live (cs ! k)"
  by (simp add: flight_inv_def)

lemma flight_keep:
  assumes "flight_inv cs f" "wc_authority c = wc_authority (cs ! k)" "wb_live c = wb_live (cs ! k)"
  shows "flight_inv (cs[k := c]) f"
proof (cases "k < length cs")
  case True
  have "wc_authority (cs[k := c] ! j) = wc_authority (cs ! j)" "wb_live (cs[k := c] ! j) = wb_live (cs ! j)" for j
    using assms(2,3) True by (simp_all add: nth_list_update)
  then show ?thesis using assms(1) by (simp add: flight_inv_def)
qed (use assms(1) in \<open>simp add: list_update_beyond\<close>)

lemma flight_drop:
  assumes "flight_inv cs f" "k < length cs" "wc_authority c = wc_authority (cs ! k)" "\<not> wb_live c"
    and "a = wc_authority (cs ! k)"
  shows "flight_inv (cs[k := c]) (if f a = Some k then f(a := None) else f)"
  unfolding flight_inv_def
proof (intro allI)
  fix b j
  show "((if f a = Some k then f(a := None) else f) b = Some j) =
    (j < length (cs[k := c]) \<and> wc_authority (cs[k := c] ! j) = b \<and> wb_live (cs[k := c] ! j))"
  proof (cases "j = k")
    case True
    then show ?thesis using assms flight_inv_iff [OF assms(1), of b k] by auto
  next
    case False
    then show ?thesis
      using assms(2,5) flight_inv_iff [OF assms(1), of b j] flight_inv_iff [OF assms(1), of a k] by auto
  qed
qed

lemma flight_new:
  assumes "flight_inv cs f" "f (wc_authority c) = None" "wb_live c"
  shows "flight_inv (cs @ [c]) (f(wc_authority c := Some (length cs)))"
  unfolding flight_inv_def
proof (intro allI)
  fix b j
  have "f b = Some j \<Longrightarrow> j < length cs" using flight_inv_iff [OF assms(1), of b j] by simp
  then show "((f(wc_authority c := Some (length cs))) b = Some j) =
    (j < length (cs @ [c]) \<and> wc_authority ((cs @ [c]) ! j) = b \<and> wb_live ((cs @ [c]) ! j))"
    using assms(2,3) flight_inv_iff [OF assms(1), of b j]
    by (cases "j < length cs"; cases "j = length cs") (auto simp: nth_append)
qed

definition wb_calls_inv :: "wb_call list \<Rightarrow> bool" where
  "wb_calls_inv cs \<longleftrightarrow> (\<forall>k < length cs. (wc_completed (cs ! k) \<longleftrightarrow> wc_job (cs ! k) = Over) \<and>
     (wc_cancelled (cs ! k) \<and> \<not> wc_completed (cs ! k) \<longrightarrow> wc_waiters (cs ! k) = 0))"

text \<open>The call a caller is counted in.\<close>

fun wb_attached_to :: "wb_caller \<Rightarrow> nat option" where
  "wb_attached_to (SignWaiting a k) = Some k"
| "wb_attached_to (SignLeaving a k b) = Some k"
| "wb_attached_to _ = None"

definition wb_attached :: "(nat \<Rightarrow> wb_caller) \<Rightarrow> nat \<Rightarrow> nat set" where
  "wb_attached f k = {i. wb_attached_to (f i) = Some k}"

lemma wb_attached_upd:
  "wb_attached (f(i := p)) k = (if wb_attached_to p = Some k then insert i (wb_attached f k) else wb_attached f k - {i})"
  by (auto simp: wb_attached_def)

lemma wb_attached_mem: "i \<in> wb_attached f k \<longleftrightarrow> wb_attached_to (f i) = Some k"
  by (simp add: wb_attached_def)

definition wb_count_inv :: "wb_call list \<Rightarrow> (nat \<Rightarrow> wb_caller) \<Rightarrow> bool" where
  "wb_count_inv cs f \<longleftrightarrow>
     (\<forall>k. finite (wb_attached f k) \<and> (wb_attached f k \<noteq> {} \<longrightarrow> k < length cs)) \<and>
     (\<forall>k < length cs. wc_waiters (cs ! k) = card (wb_attached f k))"

text \<open>What a caller's phase says about the call it refers to.\<close>

fun wb_phase_ok :: "wb_call list \<Rightarrow> wb_caller \<Rightarrow> bool" where
  "wb_phase_ok cs (SignWaiting a k) = (wc_authority (cs ! k) = a)"
| "wb_phase_ok cs (SignLeaving a k b) = (wc_authority (cs ! k) = a \<and> (b \<or> wc_completed (cs ! k)))"
| "wb_phase_ok cs _ = True"

definition wb_inv :: "wb_state \<Rightarrow> bool" where
  "wb_inv st \<longleftrightarrow> flight_inv (wb_calls st) (wb_inflight st) \<and> wb_calls_inv (wb_calls st) \<and>
     wb_count_inv (wb_calls st) (wb_callers st) \<and> (\<forall>i. wb_phase_ok (wb_calls st) (wb_callers st i))"

lemma wb_attached_bound: "wb_inv st \<Longrightarrow> wb_attached_to (wb_callers st i) = Some k \<Longrightarrow> k < length (wb_calls st)"
  by (auto simp: wb_inv_def wb_count_inv_def wb_attached_def)

text \<open>Steps that move a caller without attaching or detaching it.\<close>

lemma wb_count_inv_move:
  "wb_count_inv cs f \<Longrightarrow> wb_attached_to p = wb_attached_to (f i) \<Longrightarrow> wb_count_inv cs (f(i := p))"
  by (auto simp: wb_count_inv_def wb_attached_upd wb_attached_mem insert_absorb)

lemma wb_inv_world [simp]: "wb_inv (wb_in_world w st) = wb_inv st"
  by (simp add: wb_inv_def)

lemma wb_inv_goto:
  "wb_inv st \<Longrightarrow> wb_attached_to p = wb_attached_to (wb_callers st i) \<Longrightarrow> wb_phase_ok (wb_calls st) p \<Longrightarrow> wb_inv (wb_goto i p st)"
  by (simp add: wb_inv_def wb_count_inv_move)

lemma wb_enter_inv: "wb_inv st \<Longrightarrow> wb_callers st i = SignEntering \<Longrightarrow> wb_inv (sign_enter lower r i st)"
  by (auto simp: sign_enter_def split: prod.splits option.splits sum.splits intro!: wb_inv_goto)

lemma wb_select_inv:
  "wb_inv st \<Longrightarrow> wb_callers st i = SignWaiting a k \<Longrightarrow> wb_inv (wait_select i a k st)"
proof -
  assume inv: "wb_inv st" and c: "wb_callers st i = SignWaiting a k"
  then have "wc_authority (wb_calls st ! k) = a" by (auto simp: wb_inv_def dest: spec [of _ i])
  with inv c show "wb_inv (wait_select i a k st)"
    by (auto simp: wait_select_def Let_def split: prod.splits option.splits intro!: wb_inv_goto)
qed

section \<open>Joining\<close>

lemma wb_count_inv_attach:
  assumes "wb_count_inv cs f" "wb_attached_to (f i) = None" "wb_attached_to p = Some k" "k < length cs"
    and "wc_waiters c = Suc (wc_waiters (cs ! k))"
  shows "wb_count_inv (cs[k := c]) (f(i := p))"
proof -
  have "i \<notin> wb_attached f j" for j using assms(2) by (simp add: wb_attached_mem)
  with assms show ?thesis
    by (auto simp: wb_count_inv_def wb_attached_upd nth_list_update)
qed

lemma wb_count_inv_new:
  assumes "wb_count_inv cs f" "wb_attached_to (f i) = None" "wc_waiters c = 1"
    "wb_attached_to p = Some (length cs)"
  shows "wb_count_inv (cs @ [c]) (f(i := p))"
proof -
  have n: "i \<notin> wb_attached f j" for j using assms(2) by (simp add: wb_attached_mem)
  have e: "wb_attached f (length cs) = {}" using assms(1) by (auto simp: wb_count_inv_def)
  show ?thesis unfolding wb_count_inv_def
  proof (intro conjI allI impI)
    fix k
    show "finite (wb_attached (f(i := p)) k)" using assms(1) by (auto simp: wb_count_inv_def wb_attached_upd)
    show "k < length (cs @ [c])" if "wb_attached (f(i := p)) k \<noteq> {}"
      using that assms(1,4) by (auto simp: wb_count_inv_def wb_attached_upd split: if_splits)
    show "wc_waiters ((cs @ [c]) ! k) = card (wb_attached (f(i := p)) k)" if "k < length (cs @ [c])"
      using that assms n e by (auto simp: wb_count_inv_def wb_attached_upd nth_append less_Suc_eq)
  qed
qed

lemma wb_phase_ok_keep:
  "wb_phase_ok cs p \<Longrightarrow> wc_authority c = wc_authority (cs ! k) \<Longrightarrow> (wc_completed (cs ! k) \<longrightarrow> wc_completed c) \<Longrightarrow>
   wb_phase_ok (cs[k := c]) p"
  by (cases "k < length cs"; cases p) (auto simp: nth_list_update list_update_beyond)

lemma wb_phase_ok_append:
  "wb_phase_ok cs p \<Longrightarrow> (\<And>k. wb_attached_to p = Some k \<Longrightarrow> k < length cs) \<Longrightarrow> wb_phase_ok (cs @ [c]) p"
  by (cases p) (auto simp: nth_append)

lemma wb_join_inv:
  assumes "wb_inv st" "wb_attached_to (wb_callers st i) = None"
  shows "wb_inv (sign_join i a st)"
proof (cases "wb_inflight st a")
  case (Some k)
  let ?c = "(wb_calls st ! k)\<lparr>wc_waiters := wc_waiters (wb_calls st ! k) + 1\<rparr>"
  from assms(1) Some have k: "k < length (wb_calls st)" "wc_authority (wb_calls st ! k) = a" "wb_live (wb_calls st ! k)"
    by (auto simp: wb_inv_def flight_inv_def)
  have "flight_inv ((wb_calls st)[k := ?c]) (wb_inflight st)"
    using assms(1) by (intro flight_keep) (auto simp: wb_inv_def wb_live_def)
  moreover have "wb_calls_inv ((wb_calls st)[k := ?c])"
    using assms(1) k by (auto simp: wb_inv_def wb_calls_inv_def nth_list_update wb_live_def)
  moreover have "wb_count_inv ((wb_calls st)[k := ?c]) ((wb_callers st)(i := SignWaiting a k))"
    using assms k by (intro wb_count_inv_attach) (auto simp: wb_inv_def)
  moreover have "wb_phase_ok ((wb_calls st)[k := ?c]) (wb_callers st j)" for j
    using assms(1) by (intro wb_phase_ok_keep) (auto simp: wb_inv_def)
  ultimately show ?thesis using Some k by (simp add: wb_inv_def sign_join_def)
next
  case None
  let ?c = "new_wb_call a (snd (wb_args st i))" and ?n = "length (wb_calls st)"
  have "flight_inv (wb_calls st @ [?c]) ((wb_inflight st)(a := Some ?n))"
    using assms(1) None flight_new [of "wb_calls st" "wb_inflight st" ?c]
    by (simp add: wb_inv_def new_wb_call_def wb_live_def)
  moreover have "wb_calls_inv (wb_calls st @ [?c])"
    using assms(1) by (auto simp: wb_inv_def wb_calls_inv_def nth_append new_wb_call_def)
  moreover have "wb_count_inv (wb_calls st @ [?c]) ((wb_callers st)(i := SignWaiting a ?n))"
    using assms by (intro wb_count_inv_new) (auto simp: wb_inv_def new_wb_call_def)
  moreover have "wb_phase_ok (wb_calls st @ [?c]) (wb_callers st j)" for j
    using assms(1) wb_attached_bound [OF assms(1)] by (intro wb_phase_ok_append) (auto simp: wb_inv_def)
  ultimately show ?thesis using None by (simp add: wb_inv_def sign_join_def new_wb_call_def)
qed

lemma wb_lookup_inv:
  assumes "wb_inv st" "wb_callers st i = SignLooking a now"
  shows "wb_inv (sign_lookup i a now st)"
proof -
  have "wb_inv (sign_join i a (st\<lparr>wb_cache := c\<rparr>))" for c
    using assms by (intro wb_join_inv) (simp_all add: wb_inv_def)
  moreover have "wb_inv (sign_join i a st)" using assms by (intro wb_join_inv) simp_all
  moreover have "wb_inv (wb_goto i (SignReturned x) st)" for x
    using assms by (intro wb_inv_goto) auto
  ultimately show ?thesis by (auto simp: sign_lookup_def split: option.splits)
qed

section \<open>Leaving\<close>

lemma wb_count_inv_detach:
  assumes "wb_count_inv cs f" "wb_attached_to (f i) = Some k" "wb_attached_to p = None" "wc_waiters c = wc_waiters (cs ! k) - 1"
  shows "wb_count_inv (cs[k := c]) (f(i := p))"
proof -
  have k: "k < length cs" using assms(1,2) by (auto simp: wb_count_inv_def wb_attached_def)
  have i: "i \<in> wb_attached f k" "\<And>j. j \<noteq> k \<Longrightarrow> i \<notin> wb_attached f j" using assms(2) by (auto simp: wb_attached_mem)
  with assms k show ?thesis
    by (auto simp: wb_count_inv_def wb_attached_upd nth_list_update)
qed

lemma wb_attached_waiters:
  assumes "wb_inv st" "wb_attached_to (wb_callers st i) = Some k"
  shows "0 < wc_waiters (wb_calls st ! k)"
proof -
  have "i \<in> wb_attached (wb_callers st) k" using assms(2) by (simp add: wb_attached_mem)
  moreover have "finite (wb_attached (wb_callers st) k)" using assms(1) by (simp add: wb_inv_def wb_count_inv_def)
  ultimately have "0 < card (wb_attached (wb_callers st) k)" by (auto simp: card_gt_0_iff)
  then show ?thesis using assms(1) wb_attached_bound [OF assms] by (simp add: wb_inv_def wb_count_inv_def)
qed

text \<open>The release as one update of the call.\<close>

definition wb_released :: "bool \<Rightarrow> wb_call \<Rightarrow> wb_call" where
  "wb_released canceled c =
     c\<lparr>wc_waiters := wc_waiters c - 1,
       wc_cancelled := wc_cancelled c \<or> canceled \<and> wc_waiters c = 1 \<and> \<not> wc_completed c\<rparr>"

lemma wb_release_call:
  assumes "k < length (wb_calls st)" "0 < wc_waiters (wb_calls st ! k)"
  shows "wb_calls (releaseWebBotWaiter a k b st) = (wb_calls st)[k := wb_released b (wb_calls st ! k)]"
    "wb_inflight (releaseWebBotWaiter a k b st) =
      (if b \<and> wc_waiters (wb_calls st ! k) = 1 \<and> \<not> wc_completed (wb_calls st ! k) \<and> wb_inflight st a = Some k
       then (wb_inflight st)(a := None) else wb_inflight st)"
    "wb_callers (releaseWebBotWaiter a k b st) = wb_callers st" "wb_cache (releaseWebBotWaiter a k b st) = wb_cache st"
    "wb_world (releaseWebBotWaiter a k b st) = wb_world st" "wb_args (releaseWebBotWaiter a k b st) = wb_args st"
  using assms by (auto simp: releaseWebBotWaiter_def wb_released_def Let_def)

lemma wb_leave_inv:
  assumes "wb_inv st" "wb_callers st i = SignLeaving a k b"
  shows "wb_inv (wait_leave i a k b st)"
proof -
  have att: "wb_attached_to (wb_callers st i) = Some k" using assms(2) by simp
  note k = wb_attached_bound [OF assms(1) att] and w = wb_attached_waiters [OF assms(1) att]
  have a: "wc_authority (wb_calls st ! k) = a" using assms by (auto simp: wb_inv_def dest: spec [of _ i])
  let ?c = "wb_released b (wb_calls st ! k)" and ?st = "releaseWebBotWaiter a k b st"
  note rel = wb_release_call [OF k w, of a b]
  have "flight_inv (wb_calls ?st) (wb_inflight ?st)"
  proof (cases "b \<and> wc_waiters (wb_calls st ! k) = 1 \<and> \<not> wc_completed (wb_calls st ! k)")
    case True
    have "flight_inv ((wb_calls st)[k := ?c])
        (if wb_inflight st a = Some k then (wb_inflight st)(a := None) else wb_inflight st)"
      using assms(1) k a True by (intro flight_drop) (simp_all add: wb_inv_def wb_live_def wb_released_def)
    then show ?thesis using True unfolding rel by simp
  next
    case False
    have "flight_inv ((wb_calls st)[k := ?c]) (wb_inflight st)"
      using assms(1) False by (intro flight_keep) (auto simp: wb_inv_def wb_live_def wb_released_def)
    then show ?thesis using False unfolding rel by auto
  qed
  moreover have "wb_calls_inv (wb_calls ?st)"
    using assms(1) k w unfolding rel by (auto simp: wb_inv_def wb_calls_inv_def nth_list_update wb_released_def)
  moreover have "wb_count_inv (wb_calls ?st) ((wb_callers ?st)(i := SignReturned x))" for x
    using assms att unfolding rel by (intro wb_count_inv_detach) (auto simp: wb_inv_def wb_released_def)
  moreover have "wb_phase_ok (wb_calls ?st) (wb_callers st j)" for j
    using assms(1) unfolding rel by (intro wb_phase_ok_keep) (auto simp: wb_inv_def wb_released_def)
  ultimately show ?thesis by (auto simp: wait_leave_def Let_def wb_inv_def rel)
qed

section \<open>Signing\<close>

lemma wb_count_inv_keep: "wb_count_inv cs f \<Longrightarrow> wc_waiters c = wc_waiters (cs ! k) \<Longrightarrow> wb_count_inv (cs[k := c]) f"
  by (cases "k < length cs") (auto simp: wb_count_inv_def nth_list_update list_update_beyond)

lemma wb_publish_fields:
  "wb_calls (publish_signed k r st) =
     (wb_calls st)[k := (wb_calls st ! k)\<lparr>wc_completed := True, wc_result := r, wc_job := Over, wc_cancelled := True\<rparr>]"
  "wb_inflight (publish_signed k r st) =
     (if wb_inflight st (wc_authority (wb_calls st ! k)) = Some k
      then (wb_inflight st)(wc_authority (wb_calls st ! k) := None) else wb_inflight st)"
  "wb_callers (publish_signed k r st) = wb_callers st" "wb_args (publish_signed k r st) = wb_args st"
  "w_clock (wb_world (publish_signed k r st)) = w_clock (wb_world st)"
  by (auto simp: publish_signed_def Let_def time_now_def split: sum.splits prod.splits)

lemma wb_publish_inv:
  assumes "wb_inv st" "k < length (wb_calls st)"
  shows "wb_inv (publish_signed k r st)"
proof -
  let ?c = "(wb_calls st ! k)\<lparr>wc_completed := True, wc_result := r, wc_job := Over, wc_cancelled := True\<rparr>"
  have "flight_inv ((wb_calls st)[k := ?c]) (wb_inflight (publish_signed k r st))"
    using assms unfolding wb_publish_fields by (intro flight_drop) (simp_all add: wb_inv_def wb_live_def)
  moreover have "wb_calls_inv ((wb_calls st)[k := ?c])"
    using assms by (auto simp: wb_inv_def wb_calls_inv_def nth_list_update)
  moreover have "wb_count_inv ((wb_calls st)[k := ?c]) (wb_callers st)"
    using assms by (intro wb_count_inv_keep) (auto simp: wb_inv_def)
  moreover have "wb_phase_ok ((wb_calls st)[k := ?c]) (wb_callers st j)" for j
    using assms(1) by (intro wb_phase_ok_keep) (auto simp: wb_inv_def)
  ultimately show ?thesis by (simp add: wb_inv_def wb_publish_fields(1,3))
qed

lemma wb_fetched_inv:
  assumes "wb_inv st" "k < length (wb_calls st)" "wc_job (wb_calls st ! k) = Fetching"
  shows "wb_inv (wb_update_call k (\<lambda>c. c\<lparr>wc_job := Publishing x\<rparr>) (wb_in_world w st))"
proof -
  let ?c = "(wb_calls st ! k)\<lparr>wc_job := Publishing x\<rparr>"
  have "flight_inv ((wb_calls st)[k := ?c]) (wb_inflight st)"
    using assms(1) by (intro flight_keep) (auto simp: wb_inv_def wb_live_def)
  moreover have "wb_calls_inv ((wb_calls st)[k := ?c])"
    using assms by (auto simp: wb_inv_def wb_calls_inv_def nth_list_update)
  moreover have "wb_count_inv ((wb_calls st)[k := ?c]) (wb_callers st)"
    using assms by (intro wb_count_inv_keep) (auto simp: wb_inv_def)
  moreover have "wb_phase_ok ((wb_calls st)[k := ?c]) (wb_callers st j)" for j
    using assms(1) by (intro wb_phase_ok_keep) (auto simp: wb_inv_def)
  ultimately show ?thesis by (simp add: wb_inv_def)
qed

lemma wb_sign_inv: "wb_inv st \<Longrightarrow> k < length (wb_calls st) \<Longrightarrow> wb_inv (signWebBotAuth lower r k st)"
  using wb_publish_inv [of st k] wb_fetched_inv [of st k]
  by (auto simp: signWebBotAuth_def Let_def split: wb_job.splits option.splits prod.splits)

lemma wb_caller_inv: "wb_inv st \<Longrightarrow> wb_inv (sign_step lower r i (wb_callers st i) st)"
  by (cases "wb_callers st i") (auto intro: wb_enter_inv wb_lookup_inv wb_select_inv wb_leave_inv)

lemma wb_reachable_inv: "wb_reachable lower r st \<Longrightarrow> wb_inv st"
proof (induction rule: wb_reachable.induct)
  case (start st)
  then show ?case by (auto simp: wb_inv_def flight_inv_def wb_calls_inv_def wb_count_inv_def wb_attached_def)
next
  case (step st st')
  from step(2,3) show ?case
    by (cases rule: wb_step.cases) (auto intro: wb_caller_inv wb_sign_inv)
qed

end
