(* ===== verification/WebBotValues.thy ===== *)
theory WebBotValues
  imports WebBotSpec SpendTheorems
begin

text \<open>
  The blocks that circulate: every block in the cache, in a call or in a returned result was accepted
  by \<open>validateWebBotAuthBlock\<close> for the authority it is filed under, at some reading of the clock.
\<close>

section \<open>Fetching\<close>

text \<open>A token source that leaves the clock alone.\<close>

definition keeps_clock :: "resource \<Rightarrow> bool" where
  "keeps_clock r \<longleftrightarrow> (\<forall>c g ctx rq w. r = Some c \<longrightarrow> c_getAccessToken c = Some g \<longrightarrow> w_clock (snd (g ctx rq w)) = w_clock w)"

lemma keeps_clockD:
  "keeps_clock (Some c) \<Longrightarrow> c_getAccessToken c = Some g \<Longrightarrow> g ctx rq w = (x, w') \<Longrightarrow> w_clock w' = w_clock w"
  unfolding keeps_clock_def by (metis snd_conv)

lemma core_do_clock:
  assumes "core_do (Some c) ctx req w = (r, w')" "keeps_clock (Some c)" "maximum_attempts req = 1"
  shows "w_clock w' = w_clock w"
proof -
  have out: "w_clock v' = w_clock v" if "do_loop c hc g ctx req 1 t 1 v = (x, v')" for hc g t v x v'
    using that doAttempt_outside by (fastforce simp: do_loop_last outside_step_def)
  show ?thesis
  proof (cases "ar_authenticated req")
    case False
    with assms out show ?thesis by (auto simp: core_do_def split: option.splits if_splits)
  next
    case True
    with assms out keeps_clockD [OF assms(2)] show ?thesis
      by (fastforce simp: core_do_def split: option.splits if_splits prod.splits sum.splits)
  qed
qed

lemma doJSON_clock:
  assumes "doJSON dec (Some c) ctx req w = (x, w')" "keeps_clock (Some c)" "maximum_attempts req = 1"
  shows "w_clock w' = w_clock w"
proof -
  obtain r w1 where r: "core_do (Some c) ctx req w = (r, w1)" by fastforce
  then have "w' = w1" using assms(1)
    by (auto simp: doJSON_def split: sum.splits prod.splits option.splits if_splits)
  then show ?thesis using core_do_clock [OF r assms(2,3)] by simp
qed

text \<open>Accepted for the authority \<open>a\<close> at a reading of the clock.\<close>

definition vouched :: "(string \<Rightarrow> string) \<Rightarrow> (nat \<Rightarrow> int) \<Rightarrow> string \<Rightarrow> web_bot_auth_block \<times> int \<Rightarrow> bool" where
  "vouched lower clock a x \<longleftrightarrow> (\<exists>n. validateWebBotAuthBlock lower (fst x) a (clock n) = Inr (snd x))"

definition vouched_result :: "(string \<Rightarrow> string) \<Rightarrow> (nat \<Rightarrow> int) \<Rightarrow> string \<Rightarrow> signed \<Rightarrow> bool" where
  "vouched_result lower clock a r = (case r of Inl e \<Rightarrow> True | Inr x \<Rightarrow> vouched lower clock a x)"

lemma vouched_result_simps [simp]:
  "vouched_result lower clock a (Inl e)" "vouched_result lower clock a (Inr x) = vouched lower clock a x"
  by (simp_all add: vouched_result_def)

lemma fetch_vouched:
  assumes "fetchWebBotAuth lower c ctx a u w = (r, w')" "keeps_clock (Some c)"
  shows "w_clock w' = w_clock w \<and> vouched_result lower (w_clock w) a r"
proof -
  let ?req = "write_request (c_apiBaseURL c @ ''/web_bot_auth/sign'') (Some (sign_body u))"
  obtain x w1 where x: "doJSON (\<lambda>v. d_ptr dec_sign_response [v]) (Some c) ctx ?req w = (x, w1)" by fastforce
  have "maximum_attempts ?req = 1" by (simp add: maximum_attempts_def write_request_def)
  then have w1: "w_clock w1 = w_clock w" by (rule doJSON_clock [OF x assms(2)])
  show ?thesis
  proof (cases "\<exists>block. x = Inr (Some (Some block))")
    case True
    then obtain block where "x = Inr (Some (Some block))" by blast
    with assms(1) x w1 show ?thesis
      by (auto simp: fetchWebBotAuth_def time_now_def tick_def vouched_def split: sum.splits)
  next
    case False
    with assms(1) x w1 show ?thesis
      by (auto simp: fetchWebBotAuth_def split: sum.splits option.splits)
  qed
qed

section \<open>The invariant\<close>

text \<open>What a caller's phase says about its URL and its block.\<close>

fun caller_value :: "(string \<Rightarrow> string) \<Rightarrow> (nat \<Rightarrow> int) \<Rightarrow> go_context \<times> string \<Rightarrow> wb_caller \<Rightarrow> bool" where
  "caller_value lower clock x SignEntering = True"
| "caller_value lower clock x (SignLooking a now) =
     (fst x \<noteq> None \<and> webBotAuthority lower (snd x) = Inr a \<and> now \<in> range clock)"
| "caller_value lower clock x (SignWaiting a k) = (fst x \<noteq> None \<and> webBotAuthority lower (snd x) = Inr a)"
| "caller_value lower clock x (SignLeaving a k b) = (fst x \<noteq> None \<and> webBotAuthority lower (snd x) = Inr a)"
| "caller_value lower clock x (SignReturned y) =
     (case y of Inl e \<Rightarrow> True
      | Inr block \<Rightarrow> (\<exists>a e. webBotAuthority lower (snd x) = Inr a \<and> vouched lower clock a (block, e)))"

definition cache_inv :: "(string \<Rightarrow> string) \<Rightarrow> (nat \<Rightarrow> int) \<Rightarrow> (string \<Rightarrow> (web_bot_auth_block \<times> int) option) \<Rightarrow> bool" where
  "cache_inv lower clock m \<longleftrightarrow> (\<forall>a x. m a = Some x \<longrightarrow> vouched lower clock a x)"

definition call_value :: "(string \<Rightarrow> string) \<Rightarrow> (nat \<Rightarrow> int) \<Rightarrow> wb_call \<Rightarrow> bool" where
  "call_value lower clock c \<longleftrightarrow> vouched_result lower clock (wc_authority c) (wc_result c) \<and>
     (\<forall>x. wc_job c = Publishing x \<longrightarrow> vouched_result lower clock (wc_authority c) x)"

definition wb_values :: "(string \<Rightarrow> string) \<Rightarrow> wb_state \<Rightarrow> bool" where
  "wb_values lower st \<longleftrightarrow> cache_inv lower (w_clock (wb_world st)) (wb_cache st) \<and>
     (\<forall>c \<in> set (wb_calls st). call_value lower (w_clock (wb_world st)) c) \<and>
     (\<forall>i. caller_value lower (w_clock (wb_world st)) (wb_args st i) (wb_callers st i))"

lemma cache_inv_drop: "cache_inv lower clock m \<Longrightarrow> cache_inv lower clock (m(a := None))"
  by (simp add: cache_inv_def)

lemma cache_inv_put: "cache_inv lower clock m \<Longrightarrow> vouched lower clock a x \<Longrightarrow> cache_inv lower clock (m(a := Some x))"
  by (cases x) (simp add: cache_inv_def)

lemma set_update_call: "(\<forall>c \<in> set cs. P c) \<Longrightarrow> P c \<Longrightarrow> \<forall>d \<in> set (cs[k := c]). P d"
  using set_update_subset_insert [of cs k c] by blast

lemma values_goto:
  "wb_values lower st \<Longrightarrow> caller_value lower (w_clock (wb_world st)) (wb_args st i) p \<Longrightarrow> wb_values lower (wb_goto i p st)"
  by (simp add: wb_values_def)

lemma values_world: "w_clock w = w_clock (wb_world st) \<Longrightarrow> wb_values lower (wb_in_world w st) = wb_values lower st"
  by (simp add: wb_values_def)

lemma values_update_call:
  "wb_values lower st \<Longrightarrow> call_value lower (w_clock (wb_world st)) (f (wb_calls st ! k)) \<Longrightarrow>
   wb_values lower (wb_update_call k f st)"
  unfolding wb_values_def wb_fields by (blast intro: set_update_call [rule_format])

lemma values_drop: "wb_values lower (drop_inflight a st) = wb_values lower st"
  by (simp add: wb_values_def)

lemmas values_intros = values_goto values_update_call values_world [THEN iffD2] values_drop [THEN iffD2]

lemma values_call: "wb_values lower st \<Longrightarrow> k < length (wb_calls st) \<Longrightarrow> call_value lower (w_clock (wb_world st)) (wb_calls st ! k)"
  by (simp add: wb_values_def)

lemma values_caller:
  "wb_values lower st \<Longrightarrow> caller_value lower (w_clock (wb_world st)) (wb_args st i) (wb_callers st i)"
  by (simp add: wb_values_def)

section \<open>Preservation\<close>

lemma enter_values: "wb_values lower st \<Longrightarrow> wb_values lower (sign_enter lower r i st)"
  by (auto simp: sign_enter_def ctx_Err_def time_now_def tick_def split: prod.splits option.splits sum.splits
      intro!: values_intros)

lemma join_values:
  assumes "wb_values lower st" "wb_inv st" "fst (wb_args st i) \<noteq> None" "webBotAuthority lower (snd (wb_args st i)) = Inr a"
  shows "wb_values lower (sign_join i a st)"
proof (cases "wb_inflight st a")
  case (Some k)
  then have "k < length (wb_calls st)" using assms(2) by (auto simp: wb_inv_def flight_inv_def)
  with Some assms values_call [OF assms(1)] show ?thesis
    by (auto simp: sign_join_def call_value_def intro!: values_intros)
next
  case None
  let ?st = "st\<lparr>wb_inflight := (wb_inflight st)(a := Some (length (wb_calls st))),
    wb_calls := wb_calls st @ [new_wb_call a (snd (wb_args st i))]\<rparr>"
  have "wb_values lower ?st" using assms(1) by (simp add: wb_values_def call_value_def new_wb_call_def)
  then have "wb_values lower (wb_goto i (SignWaiting a (length (wb_calls st))) ?st)"
    by (rule values_goto) (use assms(3,4) in simp)
  with None show ?thesis by (simp add: sign_join_def)
qed

lemma lookup_values:
  assumes "wb_values lower st" "wb_inv st" "wb_callers st i = SignLooking a now"
  shows "wb_values lower (sign_lookup i a now st)"
proof -
  have c: "fst (wb_args st i) \<noteq> None" "webBotAuthority lower (snd (wb_args st i)) = Inr a"
    using values_caller [OF assms(1), of i] assms(3) by simp_all
  show ?thesis
  proof (cases "wb_cache st a")
    case None
    then show ?thesis using join_values [OF assms(1,2) c] by (simp add: sign_lookup_def)
  next
    case (Some x)
    let ?st = "st\<lparr>wb_cache := (wb_cache st)(a := None)\<rparr>"
    have "vouched lower (w_clock (wb_world st)) a x" using Some assms(1) by (cases x) (simp add: wb_values_def cache_inv_def)
    then have "wb_values lower (wb_goto i (SignReturned (Inr (fst x))) st)"
      using assms(1) c(2) by (cases x) (auto intro!: values_goto)
    moreover have "wb_values lower (sign_join i a ?st)"
      using assms(1,2) c by (intro join_values) (simp_all add: wb_values_def wb_inv_def cache_inv_drop)
    ultimately show ?thesis using Some by (cases x) (simp add: sign_lookup_def)
  qed
qed

lemma select_values:
  assumes "wb_values lower st" "wb_callers st i = SignWaiting a k"
  shows "wb_values lower (wait_select i a k st)"
  using assms values_caller [OF assms(1), of i]
  by (auto simp: wait_select_def Let_def time_now_def tick_def split: prod.splits option.splits intro!: values_intros)

lemma release_values:
  assumes "wb_values lower st" "k < length (wb_calls st)"
  shows "wb_values lower (releaseWebBotWaiter a k b st)"
  using assms(1) values_call [OF assms] assms(2)
  by (auto simp: releaseWebBotWaiter_def Let_def call_value_def intro!: values_intros)

lemma leave_values:
  assumes "wb_values lower st" "wb_inv st" "wb_callers st i = SignLeaving a k b"
  shows "wb_values lower (wait_leave i a k b st)"
proof -
  have att: "wb_attached_to (wb_callers st i) = Some k" using assms(3) by simp
  note k = wb_attached_bound [OF assms(2) att] and w = wb_attached_waiters [OF assms(2) att]
  let ?st = "releaseWebBotWaiter a k b st"
  note rel = wb_release_call [OF k w, of a b]
  have v: "wb_values lower ?st" by (rule release_values [OF assms(1) k])
  have a: "wc_authority (wb_calls st ! k) = a" using assms(2,3) by (auto simp: wb_inv_def dest: spec [of _ i])
  have c: "call_value lower (w_clock (wb_world ?st)) (wb_calls ?st ! k)"
    by (rule values_call [OF v]) (use k in \<open>simp add: rel\<close>)
  have u: "wc_authority (wb_calls ?st ! k) = a" using a k by (simp add: rel wb_released_def)
  have p: "webBotAuthority lower (snd (wb_args ?st i)) = Inr a"
    using values_caller [OF assms(1), of i] assms(3) by (simp add: rel)
  show ?thesis unfolding wait_leave_def Let_def
    by (rule values_goto [OF v]) (use c u p in \<open>auto simp: call_value_def split: sum.splits prod.splits option.splits\<close>)
qed

lemma publish_values:
  assumes "wb_values lower st" "k < length (wb_calls st)" "wc_job (wb_calls st ! k) = Publishing r"
  shows "wb_values lower (publish_signed k r st)"
proof -
  let ?f = "\<lambda>c. c\<lparr>wc_completed := True, wc_result := r, wc_job := Over, wc_cancelled := True\<rparr>"
  let ?a = "wc_authority (wb_calls st ! k)"
  have r: "vouched_result lower (w_clock (wb_world st)) ?a r"
    using values_call [OF assms(1,2)] assms(3) by (simp add: call_value_def)
  then have v: "wb_values lower (wb_update_call k ?f st)"
    using assms(1) by (intro values_update_call) (simp_all add: call_value_def)
  have put: "wb_values lower (s\<lparr>wb_cache := (wb_cache s)(?a := Some x)\<rparr>)"
    if "wb_values lower s" "w_clock (wb_world s) = w_clock (wb_world st)" "r = Inr x" for s x
    using that r by (simp add: wb_values_def cache_inv_put)
  show ?thesis
  proof (cases r)
    case (Inl e)
    then show ?thesis using v by (simp add: publish_signed_def Let_def values_drop)
  next
    case (Inr x)
    let ?s = "drop_inflight ?a (wb_in_world (tick (wb_world st)) (wb_update_call k ?f st))"
    have s: "w_clock (wb_world ?s) = w_clock (wb_world st)" by (simp add: tick_def)
    then have vs: "wb_values lower ?s" using v by (simp add: values_drop values_world)
    from v vs put [OF vs s Inr] Inr show ?thesis
      by (cases x) (simp add: publish_signed_def Let_def time_now_def)
  qed
qed

lemma sign_values:
  assumes "wb_values lower st" "k < length (wb_calls st)" "keeps_clock r"
  shows "wb_values lower (signWebBotAuth lower r k st)"
proof (cases "wc_job (wb_calls st ! k)")
  case Fetching
  show ?thesis
  proof (cases r)
    case (Some c)
    let ?c = "wb_calls st ! k"
    obtain x w where x: "fetchWebBotAuth lower c (work_context ?c) (wc_authority ?c) (wc_url ?c) (wb_world st) = (x, w)"
      by fastforce
    note f = fetch_vouched [OF x assms(3) [unfolded Some]]
    have "wb_values lower (wb_in_world w st)" using f assms(1) by (simp add: values_world)
    then have "wb_values lower (wb_update_call k (\<lambda>c. c\<lparr>wc_job := Publishing x\<rparr>) (wb_in_world w st))"
      using f values_call [OF assms(1,2)] by (intro values_update_call) (simp_all add: call_value_def)
    then show ?thesis using Fetching Some x by (simp add: signWebBotAuth_def Let_def)
  qed (use assms(1) Fetching in \<open>simp add: signWebBotAuth_def\<close>)
next
  case (Publishing x)
  then show ?thesis using publish_values [OF assms(1,2)] by (simp add: signWebBotAuth_def)
qed (use assms(1) in \<open>simp add: signWebBotAuth_def\<close>)

lemma caller_step_values:
  assumes "wb_values lower st" "wb_inv st"
  shows "wb_values lower (sign_step lower r i (wb_callers st i) st)"
  using assms
  by (cases "wb_callers st i") (auto intro: enter_values lookup_values select_values leave_values)

lemma wb_reachable_values:
  assumes "wb_reachable lower r st" "keeps_clock r"
  shows "wb_values lower st"
  using assms(1)
proof (induction rule: wb_reachable.induct)
  case (start st)
  then show ?case by (simp add: wb_values_def cache_inv_def)
next
  case (step st st')
  note inv = wb_reachable_inv [OF step.hyps(1)]
  from step.hyps(2) step.IH show ?case
    by (cases rule: wb_step.cases) (auto intro: caller_step_values [OF _ inv] sign_values [OF _ _ assms(2)] simp: values_world)
qed

section \<open>A signing server\<close>

definition sample_block :: web_bot_auth_block where
  "sample_block = \<lparr>wb_signature = ''s'', wb_signature_input = ''i'', wb_signature_agent = ''g'',
     wb_authority = ''m.example'', wb_expires_at = ''2030-01-01T00:00:00Z''\<rparr>"

definition signed_response :: json where
  "signed_response = JObj [(''web_bot_auth'', JObj
     [(''signature'', enc_string ''s''), (''signature_input'', enc_string ''i''),
      (''signature_agent'', enc_string ''g''), (''authority'', enc_string ''m.example''),
      (''expires_at'', enc_string ''2030-01-01T00:00:00Z'')])]"

definition signing_world :: "nat \<Rightarrow> world" where
  "signing_world n = (answering 200 (compact signed_response))\<lparr>w_tick := n, w_clock := \<lambda>_. 1700000000000000000\<rparr>"

lemma signed_response_decodes:
  "parse_json (compact signed_response) = Some signed_response"
  "d_ptr dec_sign_response [signed_response] = (Some (Some sample_block), True)"
proof -
  have "printable max_depth signed_response"
    by (simp add: signed_response_def printable_def codec_simps html_escape_plain name_char_def byte_def max_depth_def)
  then show "parse_json (compact signed_response) = Some signed_response" by (rule parse_printed)
  have v: "valid_utf8 ''s''" "valid_utf8 ''i''" "valid_utf8 ''g''" "valid_utf8 ''m.example''"
    "valid_utf8 ''2030-01-01T00:00:00Z''" by code_simp+
  show "d_ptr dec_sign_response [signed_response] = (Some (Some sample_block), True)"
    by (simp add: dec_sign_response_def signed_response_def dec_web_bot_auth_block_def sample_block_def codec_simps v
        name_char_def byte_def)
qed

lemma sample_block_valid:
  "now < 1893456000000000000 \<Longrightarrow>
   validateWebBotAuthBlock id sample_block ''m.example'' now = Inr 1893456000000000000"
proof -
  have "find (\<lambda>f. trim_space (snd f) = []) (block_fields sample_block) = None"
    "canonicalWebBotBlockAuthority id (wb_authority sample_block) = Some ''m.example''"
    "parse_rfc3339 (wb_expires_at sample_block) = Some 1893456000000000000" by code_simp+
  then show "now < 1893456000000000000 \<Longrightarrow>
   validateWebBotAuthBlock id sample_block ''m.example'' now = Inr 1893456000000000000"
    by (simp add: validateWebBotAuthBlock_def)
qed

lemma static_keeps_clock: "keeps_clock (Some sample_core)"
  by (simp add: keeps_clock_def sample_core_def static_token_def)

lemma fetch_sample:
  "\<exists>w'. fetchWebBotAuth id sample_core (Some background) ''m.example'' u (signing_world n) =
    (Inr (sample_block, 1893456000000000000), w') \<and> w_clock w' = (\<lambda>_. 1700000000000000000)"
proof -
  let ?req = "write_request ''https://api.link.com/web_bot_auth/sign'' (Some (sign_body u))"
  have "url_parse ''https://api.link.com/web_bot_auth/sign'' \<noteq> None" "list_all method_char ''POST''" by code_simp+
  moreover have "length (compact signed_response) \<le> 200" by code_simp
  then have "length (compact signed_response) \<le> 1048576" by linarith
  ultimately obtain w' where
    d: "core_do (Some sample_core) (Some background) ?req (signing_world n) = (Inr (200, compact signed_response), w')"
    using core_do_answering [of ?req _ "compact signed_response" 200 "\<lambda>_. 1700000000000000000" n]
    by (auto simp: write_request_def signing_world_def)
  have "maximum_attempts ?req = 1" by (simp add: maximum_attempts_def write_request_def)
  with core_do_clock [OF d static_keeps_clock] have w: "w_clock w' = (\<lambda>_. 1700000000000000000)"
    by (simp add: signing_world_def)
  have u: "c_apiBaseURL sample_core @ ''/web_bot_auth/sign'' = ''https://api.link.com/web_bot_auth/sign''"
    by (simp add: sample_core_def)
  show ?thesis unfolding fetchWebBotAuth_def doJSON_def u
    using w by (simp add: d signed_response_decodes time_now_def tick_def sample_block_valid)
qed

end
