(* ===== verification/WebBotTheorems.thy ===== *)
theory WebBotTheorems
  imports WebBotValues
begin

text \<open>
  What every interleaving of \<open>SignURL\<close> callers and signing goroutines guarantees: one request per
  authority, cancellation of abandoned work only, blocks that belong to the merchant asked for, a
  cache that serves no stale signature, and callers that can always return.
\<close>

section \<open>Sharing and abandonment\<close>

text \<open>C6: in every reachable state the calls that can still publish and nobody cancelled are at most one
  per authority, and the map of calls in flight holds exactly them: a caller that finds no entry may
  start a request without racing another, and one that finds an entry joins work that still counts.\<close>

theorem web_bot_single_flight:
  assumes "wb_reachable lower r st" "k < length (wb_calls st)" "wb_live (wb_calls st ! k)"
  shows "wb_inflight st (wc_authority (wb_calls st ! k)) = Some k \<and>
    (\<forall>j < length (wb_calls st). wb_live (wb_calls st ! j) \<and>
       wc_authority (wb_calls st ! j) = wc_authority (wb_calls st ! k) \<longrightarrow> j = k)"
proof -
  have f: "flight_inv (wb_calls st) (wb_inflight st)" using wb_reachable_inv [OF assms(1)] by (simp add: wb_inv_def)
  then have "wb_inflight st (wc_authority (wb_calls st ! k)) = Some k" using assms(2,3) by (simp add: flight_inv_iff)
  then show ?thesis using flight_inv_iff [OF f] by (metis option.inject)
qed

text \<open>C14: the waiter count of every call is the number of callers attached to it, and work is cancelled
  before it completes only when that number is zero: no caller ever waits for doomed work, and no call
  in flight, which a new caller may still join, is cancelled.\<close>

theorem web_bot_cancels_abandoned_only:
  assumes "wb_reachable lower r st" "k < length (wb_calls st)"
  shows "finite {i. wb_attached_to (wb_callers st i) = Some k} \<and>
    wc_waiters (wb_calls st ! k) = card {i. wb_attached_to (wb_callers st i) = Some k} \<and>
    (wc_cancelled (wb_calls st ! k) \<and> \<not> wc_completed (wb_calls st ! k) \<longrightarrow>
       (\<forall>i. wb_attached_to (wb_callers st i) \<noteq> Some k) \<and> (\<forall>a. wb_inflight st a \<noteq> Some k))"
proof -
  note i = wb_reachable_inv [OF assms(1)]
  have w: "wc_waiters (wb_calls st ! k) = card (wb_attached (wb_callers st) k)"
    and fin: "finite (wb_attached (wb_callers st) k)"
    using i assms(2) by (simp_all add: wb_inv_def wb_count_inv_def)
  have "flight_inv (wb_calls st) (wb_inflight st)" using i by (simp add: wb_inv_def)
  then have l: "wb_inflight st a = Some k \<Longrightarrow> wb_live (wb_calls st ! k)" for a by (simp add: flight_inv_iff)
  have "wb_calls_inv (wb_calls st)" using i by (simp add: wb_inv_def)
  then have "wc_waiters (wb_calls st ! k) = 0" if "wc_cancelled (wb_calls st ! k)" "\<not> wc_completed (wb_calls st ! k)"
    using that assms(2) by (simp add: wb_calls_inv_def)
  with w fin l show ?thesis by (auto simp: wb_attached_def wb_live_def)
qed

section \<open>Blocks\<close>

lemma validate_block:
  assumes "validateWebBotAuthBlock lower b a now = Inr e"
  shows "\<forall>f \<in> set (block_fields b). trim_space (snd f) \<noteq> []" "parse_rfc3339 (wb_expires_at b) = Some e" "now < e"
    "canonicalWebBotBlockAuthority lower (wb_authority b) = Some a"
  using assms by (auto simp: validateWebBotAuthBlock_def find_None_iff split: option.splits if_splits)

text \<open>C13: a block \<open>SignURL\<close> returns, be it from the cache, from a request of its own or from one it joined, is
  bound to the merchant asked for: its authority has the same canonical form as the host of the
  caller's URL, none of its fields is blank, and its expiry is a date that was still ahead when the
  clock was read.\<close>

theorem web_bot_block_valid:
  assumes "wb_reachable lower r st" "keeps_clock r" "wb_callers st i = SignReturned (Inr b)"
  shows "\<exists>a e n. webBotAuthority lower (snd (wb_args st i)) = Inr a \<and>
    canonicalWebBotBlockAuthority lower (wb_authority b) = Some a \<and>
    (\<forall>f \<in> set (block_fields b). trim_space (snd f) \<noteq> []) \<and>
    parse_rfc3339 (wb_expires_at b) = Some e \<and> w_clock (wb_world st) n < e"
proof -
  obtain a e n where a: "webBotAuthority lower (snd (wb_args st i)) = Inr a"
    and v: "validateWebBotAuthBlock lower b a (w_clock (wb_world st) n) = Inr e"
    using values_caller [OF wb_reachable_values [OF assms(1,2)], of i] assms(3) by (auto simp: vouched_def)
  show ?thesis using a validate_block [OF v] by (intro exI [of _ a] exI [of _ e] exI [of _ n] conjI)
qed

text \<open>C33: the cache serves a block exactly while more than thirty seconds of its life remain at the
  reading taken before the lock, without touching the network: the expiry it compares with is the one
  the block itself states, and the block is the requested authority's.\<close>

theorem web_bot_cache_fresh:
  assumes "wb_reachable lower r st" "keeps_clock r" "wb_callers st i = SignLooking a now"
  shows "wb_callers (sign_step lower r i (wb_callers st i) st) i = SignReturned (Inr b) \<longleftrightarrow>
    (\<exists>e. wb_cache st a = Some (b, e) \<and> parse_rfc3339 (wb_expires_at b) = Some e \<and> now + seconds 30 < e \<and>
      canonicalWebBotBlockAuthority lower (wb_authority b) = Some a \<and>
      wb_world (sign_step lower r i (wb_callers st i) st) = wb_world st)"
proof -
  have v: "wb_cache st a = Some (b, e) \<Longrightarrow> parse_rfc3339 (wb_expires_at b) = Some e \<and>
      canonicalWebBotBlockAuthority lower (wb_authority b) = Some a" for e
    using wb_reachable_values [OF assms(1,2)] validate_block
    by (fastforce simp: wb_values_def cache_inv_def vouched_def)
  have j: "wb_callers (sign_join i a s) i \<noteq> SignReturned (Inr b)" for s
    by (simp add: sign_join_def split: option.splits)
  show ?thesis using v j assms(3)
    by (auto simp: sign_lookup_def webBotAuthExpiryBuffer_def split: option.splits)
qed

section \<open>Returning\<close>

fun in_progress :: "wb_caller \<Rightarrow> bool" where
  "in_progress SignEntering = False"
| "in_progress (SignReturned x) = False"
| "in_progress _ = True"

definition wb_started :: "resource \<Rightarrow> wb_state \<Rightarrow> bool" where
  "wb_started r st \<longleftrightarrow> (\<forall>i. in_progress (wb_callers st i) \<longrightarrow> r \<noteq> None \<and> fst (wb_args st i) \<noteq> None)"

lemma started_progress: "wb_started r st \<Longrightarrow> in_progress (wb_callers st i) \<Longrightarrow> r \<noteq> None \<and> fst (wb_args st i) \<noteq> None"
  by (simp add: wb_started_def)

lemma started_goto:
  "wb_started r st \<Longrightarrow> (in_progress p \<Longrightarrow> r \<noteq> None \<and> fst (wb_args st i) \<noteq> None) \<Longrightarrow> wb_started r (wb_goto i p st)"
  by (simp add: wb_started_def)

lemma started_other:
  "wb_callers st' = wb_callers st \<Longrightarrow> wb_args st' = wb_args st \<Longrightarrow> wb_started r st \<Longrightarrow> wb_started r st'"
  by (simp add: wb_started_def)

lemma release_callers [simp]:
  "wb_callers (releaseWebBotWaiter a k b st) = wb_callers st" "wb_args (releaseWebBotWaiter a k b st) = wb_args st"
  by (simp_all add: releaseWebBotWaiter_def Let_def)

lemma worker_callers [simp]:
  "wb_callers (signWebBotAuth lower r k st) = wb_callers st" "wb_args (signWebBotAuth lower r k st) = wb_args st"
  by (simp_all add: signWebBotAuth_def Let_def wb_publish_fields split: wb_job.splits option.splits prod.splits)

lemma join_callers:
  "wb_callers (sign_join i a st) = (wb_callers st)(i := SignWaiting a (case wb_inflight st a of Some k \<Rightarrow> k | None \<Rightarrow> length (wb_calls st)))"
  "wb_args (sign_join i a st) = wb_args st"
  by (simp_all add: sign_join_def split: option.splits)

lemma started_caller:
  assumes "wb_started r st"
  shows "wb_started r (sign_step lower r i (wb_callers st i) st)"
proof (cases "wb_callers st i")
  case SignEntering
  then show ?thesis using assms
    by (auto simp: sign_enter_def split: prod.splits option.splits sum.splits intro!: started_goto intro: started_other)
next
  case (SignLooking a now)
  then have "r \<noteq> None \<and> fst (wb_args st i) \<noteq> None" using started_progress [OF assms, of i] by simp
  with SignLooking assms show ?thesis
    by (auto simp: sign_lookup_def wb_started_def join_callers split: option.splits)
next
  case (SignWaiting a k)
  then have "r \<noteq> None \<and> fst (wb_args st i) \<noteq> None" using started_progress [OF assms, of i] by simp
  with SignWaiting assms show ?thesis
    by (auto simp: wait_select_def Let_def split: prod.splits option.splits intro!: started_goto intro: started_other)
qed (use assms in \<open>auto simp: wait_leave_def Let_def intro!: started_goto intro: started_other\<close>)

lemma wb_reachable_started: "wb_reachable lower r st \<Longrightarrow> wb_started r st"
proof (induction rule: wb_reachable.induct)
  case (start st)
  then show ?case by (simp add: wb_started_def)
next
  case (step st st')
  from step.hyps(2) step.IH show ?case
    by (cases rule: wb_step.cases) (auto intro: started_caller started_other [of _ st])
qed

text \<open>A schedule of this caller and of signing goroutines that makes it return.\<close>

definition can_return :: "(string \<Rightarrow> string) \<Rightarrow> resource \<Rightarrow> nat \<Rightarrow> nat \<Rightarrow> wb_state \<Rightarrow> bool" where
  "can_return lower r n i st \<longleftrightarrow> (\<exists>ps x. length ps \<le> n \<and> set ps \<subseteq> insert (SignCaller i) (range SignWorker) \<and>
     wb_callers (wb_run lower r ps st) i = SignReturned x)"

lemma can_return_now: "wb_callers st i = SignReturned x \<Longrightarrow> can_return lower r n i st"
  unfolding can_return_def by (intro exI [of _ "[]"]) simp

lemma can_return_caller:
  "can_return lower r n i (sign_step lower r i (wb_callers st i) st) \<Longrightarrow> can_return lower r (Suc n) i st"
  unfolding can_return_def by (elim exE, rule_tac x = "SignCaller i # ps" in exI) auto

lemma can_return_worker:
  "k < length (wb_calls st) \<Longrightarrow> can_return lower r n i (signWebBotAuth lower r k st) \<Longrightarrow> can_return lower r (Suc n) i st"
  unfolding can_return_def by (elim exE, rule_tac x = "SignWorker k # ps" in exI) auto

lemma can_return_mono: "can_return lower r n i st \<Longrightarrow> n \<le> m \<Longrightarrow> can_return lower r m i st"
  unfolding can_return_def by (meson le_trans)

lemma leaving_returns: "wb_callers st i = SignLeaving a k b \<Longrightarrow> can_return lower r 1 i st"
  using can_return_caller [OF can_return_now, of lower r i st _ 0] by (simp add: wait_leave_def Let_def)

lemma completed_returns:
  assumes "wb_started r st" "wb_callers st i = SignWaiting a k" "wc_completed (wb_calls st ! k)"
  shows "can_return lower r 2 i st"
proof -
  obtain c u where c: "wb_args st i = (Some c, u)"
    using started_progress [OF assms(1), of i] assms(2) by (cases "wb_args st i") auto
  have "\<exists>b. wb_callers (wait_select i a k st) i = SignLeaving a k b"
    using c assms(3) by (auto simp: wait_select_def Let_def split: prod.splits)
  then have "can_return lower r 1 i (wait_select i a k st)" using leaving_returns by blast
  then show ?thesis using assms(2) can_return_caller [of lower r 1 i st] by (simp add: numeral_2_eq_2)
qed

lemma waiting_returns:
  assumes "wb_reachable lower r st" "wb_callers st i = SignWaiting a k"
  shows "can_return lower r 4 i st"
proof -
  note inv = wb_reachable_inv [OF assms(1)] and started = wb_reachable_started [OF assms(1)]
  have k: "k < length (wb_calls st)" by (rule wb_attached_bound [OF inv, of i]) (simp add: assms(2))
  obtain c where r: "r = Some c" using started_progress [OF started, of i] assms(2) by auto
  have fin: "can_return lower r 3 i s"
    if "wb_started r s" "k < length (wb_calls s)" "wc_job (wb_calls s ! k) = Publishing x" "wb_callers s i = SignWaiting a k" for s x
  proof -
    let ?s = "signWebBotAuth lower r k s"
    have "wc_completed (wb_calls ?s ! k)" using that by (simp add: signWebBotAuth_def wb_publish_fields)
    moreover have "wb_started r ?s" using that(1) by (rule started_other [rotated 2]) simp_all
    ultimately have "can_return lower r 2 i ?s" using that(4) by (intro completed_returns) simp_all
    then show ?thesis using can_return_worker [OF that(2), of lower r 2 i] by (simp add: numeral_3_eq_3 numeral_2_eq_2)
  qed
  show ?thesis
  proof (cases "wc_job (wb_calls st ! k)")
    case Over
    then have "wc_completed (wb_calls st ! k)" using inv k by (simp add: wb_inv_def wb_calls_inv_def)
    then show ?thesis using can_return_mono [OF completed_returns [OF started assms(2)]] by simp
  next
    case (Publishing x)
    then show ?thesis using can_return_mono [OF fin [OF started k]] assms(2) by simp
  next
    case Fetching
    let ?s = "signWebBotAuth lower r k st"
    have "\<exists>x. wc_job (wb_calls ?s ! k) = Publishing x" and l: "length (wb_calls ?s) = length (wb_calls st)"
      using Fetching k r by (simp_all add: signWebBotAuth_def Let_def split: prod.splits)
    moreover have "wb_started r ?s" using started by (rule started_other [rotated 2]) simp_all
    ultimately have "can_return lower r 3 i ?s" using fin assms(2) k by fastforce
    then show ?thesis using can_return_worker [OF k, of lower r 3 i] by (simp add: numeral_eq_Suc)
  qed
qed

lemma looking_returns:
  assumes "wb_reachable lower r st" "wb_callers st i = SignLooking a now"
  shows "can_return lower r 5 i st"
proof -
  let ?s = "sign_step lower r i (wb_callers st i) st"
  have "wb_reachable lower r ?s" by (rule wb_reachable.step [OF assms(1) wb_step.caller])
  moreover have "(\<exists>x. wb_callers ?s i = SignReturned x) \<or> (\<exists>k. wb_callers ?s i = SignWaiting a k)"
    using assms(2) by (auto simp: sign_lookup_def join_callers split: option.splits)
  ultimately have "can_return lower r 4 i ?s" using can_return_now waiting_returns by blast
  then show ?thesis using can_return_caller [of lower r 4 i st] by (simp add: numeral_eq_Suc)
qed

text \<open>C19: a caller of \<open>SignURL\<close> is never stuck: from every reachable state six steps, of this caller and of
  signing goroutines only, make it return; it depends on no other caller, whatever those wait for and
  whichever of them gave up.\<close>

theorem web_bot_caller_returns:
  assumes "wb_reachable lower r st"
  shows "\<exists>ps x. length ps \<le> 6 \<and> set ps \<subseteq> insert (SignCaller i) (range SignWorker) \<and>
    wb_callers (wb_run lower r ps st) i = SignReturned x"
proof -
  have "can_return lower r 6 i st"
  proof (cases "wb_callers st i")
    case SignEntering
    let ?s = "sign_step lower r i (wb_callers st i) st"
    have "wb_reachable lower r ?s" by (rule wb_reachable.step [OF assms wb_step.caller])
    moreover have "(\<exists>x. wb_callers ?s i = SignReturned x) \<or> (\<exists>a now. wb_callers ?s i = SignLooking a now)"
      using SignEntering by (auto simp: sign_enter_def split: prod.splits option.splits sum.splits)
    ultimately have "can_return lower r 5 i ?s" using can_return_now looking_returns by blast
    then show ?thesis using can_return_caller [of lower r 5 i st] by (simp add: numeral_eq_Suc)
  next
    case (SignLooking a now)
    then show ?thesis using can_return_mono [OF looking_returns [OF assms]] by simp
  next
    case (SignWaiting a k)
    then show ?thesis using can_return_mono [OF waiting_returns [OF assms]] by simp
  next
    case (SignLeaving a k b)
    then show ?thesis using can_return_mono [OF leaving_returns] by simp
  next
    case (SignReturned x)
    then show ?thesis by (rule can_return_now)
  qed
  then show ?thesis by (simp add: can_return_def)
qed

section \<open>A run\<close>

text \<open>Caller 0 starts the request, caller 1 joins it; then caller 0 gets the block and caller 2 finds it in
  the cache.\<close>

definition wb_start :: wb_state where
  "wb_start = \<lparr>wb_world = signing_world 0, wb_cache = Map.empty, wb_inflight = Map.empty, wb_calls = [],
     wb_args = (\<lambda>_. (Some background, ''https://M.example:443/x'')), wb_callers = (\<lambda>_. SignEntering)\<rparr>"

lemma wb_start_reachable: "wb_reachable lower r wb_start"
  by (rule wb_reachable.start) (simp_all add: wb_start_def)

lemma sample_authority: "webBotAuthority id ''https://M.example:443/x'' = Inr ''m.example''"
  by code_simp

lemma signing_world_tick [simp]:
  "tick (signing_world n) = signing_world (Suc n)" "w_tick (signing_world n) = n"
  "w_clock (signing_world n) m = 1700000000000000000"
  by (simp_all add: signing_world_def tick_def)

lemma sample_enter:
  "wb_args st i = (Some background, ''https://M.example:443/x'') \<Longrightarrow> wb_world st = signing_world n \<Longrightarrow>
   sign_enter id (Some sample_core) i st =
     wb_goto i (SignLooking ''m.example'' 1700000000000000000) (wb_in_world (signing_world (Suc (Suc n))) st)"
  by (simp add: sign_enter_def sample_authority ctx_Err_def time_now_def ctx_done_def background_def wb_in_world_def wb_goto_def)

definition joined_state :: wb_state where
  "joined_state = wb_run id (Some sample_core) [SignCaller 0, SignCaller 0, SignCaller 1, SignCaller 1] wb_start"

lemma joined_state_eq:
  "joined_state = wb_start\<lparr>wb_world := signing_world 4, wb_inflight := [''m.example'' \<mapsto> 0],
     wb_calls := [(new_wb_call ''m.example'' ''https://M.example:443/x'')\<lparr>wc_waiters := 2\<rparr>],
     wb_callers := (\<lambda>_. SignEntering)(0 := SignWaiting ''m.example'' 0, 1 := SignWaiting ''m.example'' 0)\<rparr>"
  unfolding joined_state_def
  by (simp add: sample_enter [where n = 0] sample_enter [where n = "Suc (Suc 0)"] wb_start_def sign_lookup_def sign_join_def
      wb_goto_def wb_in_world_def wb_update_call_def new_wb_call_def numeral_eq_Suc)

definition served_state :: wb_state where
  "served_state = wb_run id (Some sample_core)
     [SignWorker 0, SignWorker 0, SignCaller 0, SignCaller 0, SignCaller 2] joined_state"

lemma served_state_reachable: "wb_reachable id (Some sample_core) served_state"
  unfolding served_state_def joined_state_def by (intro reachable_wb_run wb_start_reachable)

lemma served_state_facts:
  "wb_callers served_state 0 = SignReturned (Inr sample_block)"
  "wb_callers served_state 2 = SignLooking ''m.example'' 1700000000000000000"
  "wb_cache served_state ''m.example'' = Some (sample_block, 1893456000000000000)"
  "wb_args served_state = (\<lambda>_. (Some background, ''https://M.example:443/x''))"
proof -
  obtain w' where w': "fetchWebBotAuth id sample_core (Some background) ''m.example'' ''https://M.example:443/x'' (signing_world 4) =
      (Inr (sample_block, 1893456000000000000), w')" "w_clock w' = (\<lambda>_. 1700000000000000000)"
    using fetch_sample by blast
  let ?s = "joined_state\<lparr>wb_world := w', wb_calls :=
        [(new_wb_call ''m.example'' ''https://M.example:443/x'')\<lparr>wc_waiters := 2,
           wc_job := Publishing (Inr (sample_block, 1893456000000000000))\<rparr>]\<rparr>"
  have u: "wb_run id (Some sample_core) [SignWorker 0] joined_state = ?s"
    by (simp add: joined_state_eq signWebBotAuth_def Let_def new_wb_call_def work_context_def w' wb_update_call_def
        wb_in_world_def wb_start_def)
  have e: "served_state = wb_run id (Some sample_core) [SignWorker 0, SignCaller 0, SignCaller 0, SignCaller 2] ?s"
    unfolding u [symmetric] by (simp add: served_state_def)
  note facts = e joined_state_eq wb_start_def signWebBotAuth_def Let_def new_wb_call_def publish_signed_def
      time_now_def tick_def w'(2) seconds_def webBotAuthExpiryBuffer_def wait_select_def wait_leave_def
      releaseWebBotWaiter_def ctx_done_def background_def sign_enter_def sample_authority ctx_Err_def
  show "wb_callers served_state 0 = SignReturned (Inr sample_block)"
    "wb_callers served_state 2 = SignLooking ''m.example'' 1700000000000000000"
    "wb_cache served_state ''m.example'' = Some (sample_block, 1893456000000000000)"
    "wb_args served_state = (\<lambda>_. (Some background, ''https://M.example:443/x''))"
    by (simp_all add: facts)
qed

section \<open>The theorems at this run\<close>

lemma joined_state_reachable: "wb_reachable id (Some sample_core) joined_state"
  unfolding joined_state_def by (intro reachable_wb_run wb_start_reachable)

theorem web_bot_single_flight_witness:
  "wb_inflight joined_state ''m.example'' = Some 0 \<and> wb_live (wb_calls joined_state ! 0) \<and>
   wb_callers joined_state 1 = SignWaiting ''m.example'' 0"
proof -
  have l: "0 < length (wb_calls joined_state)" "wb_live (wb_calls joined_state ! 0)"
    by (simp_all add: joined_state_eq new_wb_call_def wb_live_def)
  from web_bot_single_flight [OF joined_state_reachable l] l(2) show ?thesis
    by (simp add: joined_state_eq new_wb_call_def)
qed

theorem web_bot_cancels_abandoned_only_witness:
  "wc_waiters (wb_calls joined_state ! 0) = 2 \<and>
   card {i. wb_attached_to (wb_callers joined_state i) = Some 0} = 2"
proof -
  have "0 < length (wb_calls joined_state)" by (simp add: joined_state_eq)
  from web_bot_cancels_abandoned_only [OF joined_state_reachable this] show ?thesis
    by (simp add: joined_state_eq new_wb_call_def)
qed

theorem web_bot_block_valid_witness:
  "wb_callers served_state 0 = SignReturned (Inr sample_block) \<and>
   (\<exists>e n. parse_rfc3339 (wb_expires_at sample_block) = Some e \<and> w_clock (wb_world served_state) n < e \<and>
      canonicalWebBotBlockAuthority id (wb_authority sample_block) = Some ''m.example'')"
  using web_bot_block_valid [OF served_state_reachable static_keeps_clock served_state_facts(1)] served_state_facts(1,4)
  by (auto simp: sample_authority)

theorem web_bot_cache_fresh_witness:
  "wb_callers (sign_step id (Some sample_core) 2 (wb_callers served_state 2) served_state) 2 =
    SignReturned (Inr sample_block)"
proof -
  have "wb_world (sign_step id (Some sample_core) 2 (wb_callers served_state 2) served_state) = wb_world served_state"
    using served_state_facts(2,3) by (simp add: sign_lookup_def webBotAuthExpiryBuffer_def seconds_def)
  moreover have "parse_rfc3339 (wb_expires_at sample_block) = Some 1893456000000000000"
    "canonicalWebBotBlockAuthority id (wb_authority sample_block) = Some ''m.example''" by code_simp+
  ultimately show ?thesis
    unfolding web_bot_cache_fresh [OF served_state_reachable static_keeps_clock served_state_facts(2)]
    using served_state_facts(3) by (simp add: seconds_def)
qed

theorem web_bot_caller_returns_witness:
  "\<exists>ps x. length ps \<le> 6 \<and> set ps \<subseteq> insert (SignCaller 1) (range SignWorker) \<and>
    wb_callers (wb_run id (Some sample_core) ps joined_state) 1 = SignReturned x"
  by (rule web_bot_caller_returns [OF joined_state_reachable])

end
