(* ===== verification/LogSecrecy.thy ===== *)
theory LogSecrecy
  imports TransportTheorems
begin

text \<open>
  What the verbose log can reveal: two runs that differ in the bearer token, in the values of the
  request's headers and in its body are compared entry by entry.
\<close>

section \<open>Requests that look alike\<close>

definition look_alike :: "http_request \<Rightarrow> http_request \<Rightarrow> bool" where
  "look_alike r s \<longleftrightarrow> rq_method r = rq_method s \<and> rq_url r = rq_url s \<and>
     map fst (rq_headers r) = map fst (rq_headers s)"

definition calls_alike :: "api_request \<Rightarrow> api_request \<Rightarrow> bool" where
  "calls_alike r s \<longleftrightarrow> ar_method r = ar_method s \<and> ar_url r = ar_url s \<and>
     map fst (ar_header r) = map fst (ar_header s) \<and> ar_authenticated r = ar_authenticated s \<and>
     ar_retryOnUnauthorized r = ar_retryOnUnauthorized s"

text \<open>A network that answers requests that look alike alike, and a token source with a fixed token.\<close>

definition blind_network :: "world \<Rightarrow> bool" where
  "blind_network w \<longleftrightarrow> (\<forall>n r s. look_alike r s \<longrightarrow> w_http w n r = w_http w n s)"

definition fixed_token :: "string \<Rightarrow> token_func" where
  "fixed_token t ctx rq w = (Inr t, w)"

definition with_token :: "string \<Rightarrow> core \<Rightarrow> core" where
  "with_token t c = c\<lparr>c_getAccessToken := Some (fixed_token t)\<rparr>"

lemma filter_names:
  "map fst h = map fst k \<Longrightarrow> map fst (filter (\<lambda>e. P (fst e)) h) = map fst (filter (\<lambda>e. P (fst e)) k)"
  by (induction h k rule: list_induct2') (auto split: if_splits)

lemma header_set_names: "map fst h = map fst k \<Longrightarrow> map fst (header_set n u h) = map fst (header_set n v k)"
  using filter_names [of h k "\<lambda>m. m \<noteq> n"] by (simp add: header_set_def)

lemma headerPresent_names: "map fst h = map fst k \<Longrightarrow> headerPresent h n = headerPresent k n"
  by (induction h k rule: list_induct2') (auto simp: headerPresent_def)

lemma add_default_headers_names:
  "map fst h = map fst k \<Longrightarrow> map fst (add_default_headers d h) = map fst (add_default_headers d k)"
proof (induction d arbitrary: h k)
  case (Cons e d)
  let ?add = "\<lambda>h. if headerPresent h (fst e) then h else h @ [e]"
  have "map fst (?add h) = map fst (?add k)" using headerPresent_names [OF Cons.prems] Cons.prems by simp
  from Cons.IH [OF this] show ?case by (simp add: add_default_headers_def)
qed (simp add: add_default_headers_def)

section \<open>Runs that differ in secrets\<close>

text \<open>Worlds that differ only in what was sent, on a network that does not look at secrets.\<close>

definition same_view :: "world \<Rightarrow> world \<Rightarrow> bool" where
  "same_view w1 w2 \<longleftrightarrow> w1\<lparr>w_sent := []\<rparr> = w2\<lparr>w_sent := []\<rparr> \<and> blind_network w1"

lemma same_viewD: "same_view w1 w2 \<Longrightarrow> w_log w1 = w_log w2 \<and> w_tick w1 = w_tick w2 \<and> w_http w1 = w_http w2"
  by (cases w1; cases w2) (simp add: same_view_def)

lemma same_view_write: "same_view w1 w2 \<Longrightarrow> same_view (write_log v e w1) (write_log v e w2)"
  by (cases w1; cases w2) (simp add: same_view_def write_log_def blind_network_def)

lemma same_view_send: "same_view w1 w2 \<Longrightarrow> same_view ((tick w1)\<lparr>w_sent := l1\<rparr>) ((tick w2)\<lparr>w_sent := l2\<rparr>)"
  by (cases w1; cases w2) (simp add: same_view_def tick_def blind_network_def)

lemma peer_view:
  "same_view w1 w2 \<Longrightarrow> look_alike r s \<Longrightarrow> peer r w1 = (x, v1) \<Longrightarrow> \<exists>v2. peer s w2 = (x, v2) \<and> same_view v1 v2"
proof -
  assume v: "same_view w1 w2" and a: "look_alike r s" and p: "peer r w1 = (x, v1)"
  have "w_http w1 (w_tick w1) r = w_http w2 (w_tick w2) s"
    using same_viewD [OF v] v a unfolding same_view_def blind_network_def by metis
  with p same_view_send [OF v] show "\<exists>v2. peer s w2 = (x, v2) \<and> same_view v1 v2" by (auto simp: peer_def)
qed

lemma httpClient_Do_view:
  assumes "same_view w1 w2" "look_alike r s" "httpClient_Do hc r w1 = (x, v1)"
  shows "\<exists>v2. httpClient_Do hc s w2 = (x, v2) \<and> same_view v1 v2"
proof (cases "hc_default_headers hc = []")
  case True
  with peer_view [OF assms(1,2), of x v1] assms(3) show ?thesis by (simp add: httpClient_Do_def)
next
  case False
  let ?h = "\<lambda>r. r\<lparr>rq_headers := add_default_headers (hc_default_headers hc) (rq_headers r)\<rparr>"
  have "look_alike (?h r) (?h s)" using assms(2) add_default_headers_names [of "rq_headers r" "rq_headers s"]
    by (simp add: look_alike_def)
  from peer_view [OF assms(1) this, of x v1] False assms(3) show ?thesis by (simp add: httpClient_Do_def RoundTrip_def)
qed

lemma wire_request_alike:
  "calls_alike r s \<Longrightarrow> look_alike (wire_request r m t) (wire_request s m u)"
  using header_set_names [of "ar_header r" "ar_header s" "''Authorization''" "''Bearer '' @ t" "''Bearer '' @ u"]
  by (simp add: calls_alike_def look_alike_def wire_request_def)

lemma request_log_alike: "look_alike r s \<Longrightarrow> request_log m u n (rq_headers r) = request_log m u n (rq_headers s)"
  by (simp add: look_alike_def request_log_def sortedHeaderNames_def)

lemma doAttempt_view:
  assumes "same_view w1 w2" "calls_alike req req'" "doAttempt c hc req t n w1 = (r, v1)"
    and "c' = c\<lparr>c_getAccessToken := g\<rparr>"
  shows "\<exists>v2. doAttempt c' hc req' u n w2 = (r, v2) \<and> same_view v1 v2"
proof -
  have e: "ar_method req' = ar_method req" "ar_url req' = ar_url req" using assms(2) by (simp_all add: calls_alike_def)
  show ?thesis
  proof (cases "new_request (ar_method req) (ar_url req)")
    case (Inl x)
    with assms(1,3) e show ?thesis by (auto simp: doAttempt_def)
  next
    case (Inr mv)
    obtain m v where mv: "mv = (m, v)" by fastforce
    let ?rq = "wire_request req m t" and ?rq' = "wire_request req' m u"
    have a: "look_alike ?rq ?rq'" by (rule wire_request_alike [OF assms(2)])
    let ?l = "\<lambda>rq w. write_log (c_verbose c) (request_log m (sanitizeURLForLog v) n (rq_headers rq)) w"
    have l: "same_view (?l ?rq w1) (?l ?rq' w2)"
      using same_view_write [OF assms(1)] request_log_alike [OF a] by simp
    obtain x y where x: "httpClient_Do hc ?rq (?l ?rq w1) = (x, y)" by fastforce
    from httpClient_Do_view [OF l a x] obtain z where
      z: "httpClient_Do hc ?rq' (?l ?rq' w2) = (x, z)" "same_view y z" by blast
    from assms(3,4) Inr mv x z e show ?thesis
      by (cases x) (auto simp: doAttempt_def Let_def intro: same_view_write)
  qed
qed

lemma replay_view:
  assumes "same_view w1 w2" "calls_alike req req'" "t \<noteq> []" "u \<noteq> []"
    and "replay (with_token t c) hc (fixed_token t) ctx req t w1 = (r, v1)"
  shows "\<exists>v2. replay (with_token u c) hc (fixed_token u) ctx req' u w2 = (r, v2) \<and> same_view v1 v2"
proof -
  have c: "with_token u c = (with_token t c)\<lparr>c_getAccessToken := Some (fixed_token u)\<rparr>" by (simp add: with_token_def)
  obtain x y where x: "doAttempt (with_token t c) hc req t 1 w1 = (x, y)" by fastforce
  from doAttempt_view [OF assms(1,2) x c, of u] obtain y' where
    x': "doAttempt (with_token u c) hc req' u 1 w2 = (x, y')" "same_view y y'" by blast
  show ?thesis
  proof (cases "\<exists>b. x = Inr (401, b)")
    case True
    then obtain b where b: "x = Inr (401, b)" ..
    with assms(3,5) x have "doAttempt (with_token t c) hc req t 2 y = (r, v1)" by (simp add: replay_def fixed_token_def)
    from doAttempt_view [OF x'(2) assms(2) this c, of u] b x'(1) assms(4) show ?thesis
      by (auto simp: replay_def fixed_token_def)
  next
    case False
    with assms(5) x x' show ?thesis by (auto simp: replay_def split: sum.splits)
  qed
qed

text \<open>C15: neither the log nor the outcome of a call betrays a secret: two calls that agree on method, URL
  and header names, made with any two bearer tokens, header values and bodies, produce the same result
  and the same log entries on a network that answers them alike, however often they are replayed. So
  no log entry and no returned error carries information about a token, a header value or a body sent.\<close>

theorem log_hides_secrets:
  assumes "calls_alike req req'" "t \<noteq> []" "u \<noteq> []" "blind_network w"
    and "core_do (Some (with_token t c)) ctx req w = (r, w1)"
  shows "\<exists>w2. core_do (Some (with_token u c)) ctx req' w = (r, w2) \<and> w_log w2 = w_log w1"
proof -
  have s: "same_view w w" using assms(4) by (simp add: same_view_def)
  have c: "with_token u c = (with_token t c)\<lparr>c_getAccessToken := Some (fixed_token u)\<rparr>" by (simp add: with_token_def)
  have g: "c_getAccessToken (with_token x c) = Some (fixed_token x)" "c_httpClient (with_token x c) = c_httpClient c"
    "c_maxResponseBodyBytes (with_token x c) = c_maxResponseBodyBytes c" for x by (simp_all add: with_token_def)
  have a: "ar_authenticated req' = ar_authenticated req" "maximum_attempts req' = maximum_attempts req"
    using assms(1) by (simp_all add: calls_alike_def maximum_attempts_def)
  show ?thesis
  proof (cases "ctx = None \<or> c_httpClient c = None \<or> c_maxResponseBodyBytes c \<le> 0")
    case True
    with assms(5) show ?thesis by (cases ctx; cases "c_httpClient c") (auto simp: core_do_def g)
  next
    case False
    then obtain hc where hc: "c_httpClient c = Some hc" and ok: "ctx \<noteq> None" "\<not> c_maxResponseBodyBytes c \<le> 0" by auto
    have loop: "\<exists>w2. do_loop (with_token u c) hc (Some (fixed_token u)) ctx req' (maximum_attempts req) y 1 w = (r, w2) \<and>
        same_view w1 w2"
      if "do_loop (with_token t c) hc (Some (fixed_token t)) ctx req (maximum_attempts req) x 1 w = (r, w1)"
        "ar_authenticated req \<and> x = t \<and> y = u \<or> \<not> ar_authenticated req" for x y
    proof (cases "maximum_attempts req = 2")
      case True
      then have "x = t" "y = u" using that(2) by (auto simp: maximum_attempts_def split: if_splits)
      with True that(1) replay_view [OF s assms(1-3)] show ?thesis by (simp add: do_loop_two del: One_nat_def)
    next
      case False
      then have "maximum_attempts req = 1" by (simp add: maximum_attempts_def split: if_splits)
      with that(1) doAttempt_view [OF s assms(1) _ c] show ?thesis by (simp add: do_loop_last)
    qed
    show ?thesis
    proof (cases "ar_authenticated req")
      case True
      with assms(2,5) hc ok have "do_loop (with_token t c) hc (Some (fixed_token t)) ctx req (maximum_attempts req) t 1 w = (r, w1)"
        by (auto simp: core_do_def g fixed_token_def [of t])
      from loop [OF this, of u] True assms(3) hc ok show ?thesis
        by (auto simp: core_do_def g a fixed_token_def [of u] dest: same_viewD)
    next
      case no: False
      with assms(5) hc ok have "do_loop (with_token t c) hc (Some (fixed_token t)) ctx req (maximum_attempts req) [] 1 w = (r, w1)"
        by (auto simp: core_do_def g)
      from loop [OF this, of "[]"] no hc ok show ?thesis by (auto simp: core_do_def g a dest: same_viewD)
    qed
  qed
qed

text \<open>A purchase with a token and a card number, and the same call without either.\<close>

theorem log_hides_secrets_witness:
  "\<exists>r w1 w2. core_do (Some (with_token ''secret'' (sample_core\<lparr>c_verbose := True\<rparr>))) (Some background)
       (sample_post\<lparr>ar_body := Some ''4242424242424242''\<rparr>) sample_world = (r, w1) \<and>
     core_do (Some (with_token ''x'' (sample_core\<lparr>c_verbose := True\<rparr>))) (Some background) sample_post sample_world = (r, w2) \<and>
     w_log w2 = w_log w1"
proof -
  obtain r w1 where r: "core_do (Some (with_token ''secret'' (sample_core\<lparr>c_verbose := True\<rparr>))) (Some background)
       (sample_post\<lparr>ar_body := Some ''4242424242424242''\<rparr>) sample_world = (r, w1)" by fastforce
  have "calls_alike (sample_post\<lparr>ar_body := Some ''4242424242424242''\<rparr>) sample_post" "blind_network sample_world"
    by (simp_all add: calls_alike_def blind_network_def sample_world_def)
  from log_hides_secrets [OF this(1) _ _ this(2) r, of "''x''"] r show ?thesis by auto
qed

end
