(* ===== verification/ErrorText.thy ===== *)
theory ErrorText
  imports Client TransportTheorems
begin

text \<open>
  What the package's values print: the credential-safe summaries of errors.go, types.go, auth.go,
  storage.go and client.go. Every \<open>String\<close> method is a function here; the \<open>Format\<close> methods of the
  data types write it for every verb, those of the two error types also look at the sharp flag.

  \<open>pr\<close> is \<open>strconv.IsPrint\<close> for code points beyond ASCII, a table of the standard library.
\<close>

section \<open>Quoting\<close>

definition code_point :: "string \<Rightarrow> nat" where
  "code_point r =
     (case map byte r of
        [a, b] \<Rightarrow> (a - 192) * 64 + (b - 128)
      | [a, b, c] \<Rightarrow> (a - 224) * 4096 + (b - 128) * 64 + (c - 128)
      | [a, b, c, d] \<Rightarrow> (a - 240) * 262144 + (b - 128) * 4096 + (c - 128) * 64 + (d - 128)
      | _ \<Rightarrow> 0)"

fun hex_digits :: "nat \<Rightarrow> nat \<Rightarrow> string" where
  "hex_digits 0 v = []"
| "hex_digits (Suc n) v = hex_digits n (v div 16) @ [hex_digit (v mod 16)]"

text \<open>\<open>strconv.Quote\<close>, which \<open>fmt\<close> uses for \<open>%q\<close>: one ASCII byte, one longer rune, the string.\<close>

definition quote_ascii :: "char \<Rightarrow> string" where
  "quote_ascii c =
     (if c = CHR 0x22 \<or> c = CHR 0x5C then [CHR 0x5C, c]
      else if 32 \<le> byte c \<and> byte c < 127 then [c]
      else if byte c = 7 then [CHR 0x5C, CHR ''a'']
      else if byte c = 8 then [CHR 0x5C, CHR ''b'']
      else if byte c = 12 then [CHR 0x5C, CHR ''f'']
      else if byte c = 10 then [CHR 0x5C, CHR ''n'']
      else if byte c = 13 then [CHR 0x5C, CHR ''r'']
      else if byte c = 9 then [CHR 0x5C, CHR ''t'']
      else if byte c = 11 then [CHR 0x5C, CHR ''v'']
      else [CHR 0x5C, CHR ''x''] @ hex_digits 2 (byte c))"

definition quote_rune :: "(nat \<Rightarrow> bool) \<Rightarrow> string \<Rightarrow> string" where
  "quote_rune pr r =
     (if pr (code_point r) then r
      else if code_point r < 65536 then [CHR 0x5C, CHR ''u''] @ hex_digits 4 (code_point r)
      else [CHR 0x5C, CHR ''U''] @ hex_digits 8 (code_point r))"

function quote_body :: "(nat \<Rightarrow> bool) \<Rightarrow> string \<Rightarrow> string" where
  "quote_body pr [] = []"
| "quote_body pr (c # cs) =
     (let n = rune_width (c # cs)
      in if n = 0 then [CHR 0x5C, CHR ''x''] @ hex_digits 2 (byte c) @ quote_body pr cs
         else if n = 1 then quote_ascii c @ quote_body pr cs
         else quote_rune pr (c # take (n - 1) cs) @ quote_body pr (drop (n - 1) cs))"
  by pat_completeness auto
termination
  by (relation "measure (length \<circ> snd)") auto

declare quote_body.simps(2) [simp del]

definition go_quote :: "(nat \<Rightarrow> bool) \<Rightarrow> string \<Rightarrow> string" where
  "go_quote pr s = [CHR 0x22] @ quote_body pr s @ [CHR 0x22]"

definition show_bool :: "bool \<Rightarrow> string" where
  "show_bool b = (if b then ''true'' else ''false'')"

section \<open>Errors\<close>

text \<open>A nil receiver is \<open>None\<close>.\<close>

definition APIError_Error :: "api_error option \<Rightarrow> string" where
  "APIError_Error e =
     (case e of None \<Rightarrow> ''<nil>'' | Some x \<Rightarrow> sanitizeDiagnosticText (ae_message x) remote_failed)"

definition APIError_safeSummary :: "(nat \<Rightarrow> bool) \<Rightarrow> api_error option \<Rightarrow> string" where
  "APIError_safeSummary pr e =
     (case e of
        None \<Rightarrow> ''(*stripelink.APIError)(nil)''
      | Some x \<Rightarrow>
          truncateDiagnostic
            (''&stripelink.APIError{Code:'' @ go_quote pr (sanitizeDiagnosticText (ae_code x) ''api_error'') @
             '', Message:'' @ go_quote pr (APIError_Error e) @ '', Status:'' @ show_int (ae_status x) @
             '', RawBody:<redacted '' @ show_nat (length (ae_raw_body x)) @
             '' bytes>, Details:<redacted '' @
             show_nat (case ae_details x of None \<Rightarrow> 0 | Some d \<Rightarrow> length d) @ '' bytes>}''))"

definition APIError_Format :: "(nat \<Rightarrow> bool) \<Rightarrow> bool \<Rightarrow> char \<Rightarrow> api_error option \<Rightarrow> string" where
  "APIError_Format pr sharp verb e =
     (if verb = CHR ''v'' \<and> sharp then APIError_safeSummary pr e else APIError_Error e)"

record transport_error =
  te_code :: string
  te_method :: string
  te_url :: string
  te_err :: go_error

definition TransportError_Error :: "transport_error option \<Rightarrow> string" where
  "TransportError_Error e =
     (case e of
        None \<Rightarrow> ''<nil>''
      | Some x \<Rightarrow>
          truncateDiagnostic
            (''Request failed: '' @ sanitizeDiagnosticText (te_method x) ''HTTP'' @ '' '' @
             safeURLDiagnostic (te_url x)))"

definition TransportError_safeSummary :: "(nat \<Rightarrow> bool) \<Rightarrow> transport_error option \<Rightarrow> string" where
  "TransportError_safeSummary pr e =
     (case e of
        None \<Rightarrow> ''(*stripelink.TransportError)(nil)''
      | Some x \<Rightarrow>
          truncateDiagnostic
            (''&stripelink.TransportError{Code:'' @
             go_quote pr (sanitizeDiagnosticText (te_code x) ''transport_error'') @
             '', Method:'' @ go_quote pr (sanitizeDiagnosticText (te_method x) ''HTTP'') @
             '', URL:'' @ go_quote pr (safeURLDiagnostic (te_url x)) @ '', Err:<redacted>}''))"

definition TransportError_Format :: "(nat \<Rightarrow> bool) \<Rightarrow> bool \<Rightarrow> char \<Rightarrow> transport_error option \<Rightarrow> string" where
  "TransportError_Format pr sharp verb e =
     (if verb = CHR ''v'' \<and> sharp then TransportError_safeSummary pr e else TransportError_Error e)"

section \<open>Credentials\<close>

definition DeviceAuth_String :: "device_auth \<Rightarrow> string" where
  "DeviceAuth_String d =
     ''DeviceAuth{DeviceCode:<redacted> UserCode:<redacted> VerificationURL:<redacted> VerificationURLComplete:<redacted> ExpiresIn:'' @
     show_int (da_expires_in d) @ '' ExpiresAt:'' @ show_int (da_expires_at d) @ '' Interval:'' @
     show_int (da_interval d) @ ''}''"

definition AuthTokens_String :: "auth_tokens \<Rightarrow> string" where
  "AuthTokens_String t =
     ''AuthTokens{AccessToken:<redacted> RefreshToken:<redacted> ExpiresIn:'' @ show_int (at_expires_in t) @
     '' TokenType:<redacted> ExpiresAt:'' @ show_int (at_expires_at t) @ ''}''"

definition PendingDeviceAuth_String :: "pending_device_auth \<Rightarrow> string" where
  "PendingDeviceAuth_String p =
     ''PendingDeviceAuth{DeviceCode:<redacted> Interval:'' @ show_int (pd_interval p) @ '' ExpiresAt:'' @
     show_int (pd_expires_at p) @ '' VerificationURL:<redacted> Phrase:<redacted>}''"

definition AuthStorageState_String :: "auth_storage_state \<Rightarrow> string" where
  "AuthStorageState_String s =
     ''AuthStorageState{Auth:<redacted> PendingDeviceAuth:<redacted> DeviceAuthGeneration:'' @
     show_nat (unat (st_generation s)) @ ''}''"

definition AccessTokenRequest_String :: "access_token_request \<Rightarrow> string" where
  "AccessTokenRequest_String r =
     ''AccessTokenRequest{ForceRefresh:'' @ show_bool (tr_ForceRefresh r) @ '' RejectedToken:<redacted>}''"

definition Options_String :: "options \<Rightarrow> string" where
  "Options_String o' =
     ''Options{ClientName:<redacted> AccessToken:<redacted> GetAccessToken:<redacted> AuthStorage:<redacted> HTTPClient:<redacted> DefaultHeaders:<redacted> MaxResponseBodyBytes:'' @
     show_int (op_MaxResponseBodyBytes o') @
     '' AuthBaseURL:<redacted> APIBaseURL:<redacted> SpendRequestBaseURL:<redacted> Logger:<redacted> Verbose:'' @
     show_bool (op_Verbose o') @ ''}''"

definition Card_String :: "card \<Rightarrow> string" where
  "Card_String c =
     ''Card{ID:<redacted> Brand:<redacted> ExpMonth:'' @ show_int (cd_exp_month c) @ '' ExpYear:'' @
     show_int (cd_exp_year c) @
     '' Number:<redacted> CVC:<redacted> BillingAddress:<redacted> ValidUntil:<redacted>}''"

definition SharedPaymentToken_String :: "shared_payment_token \<Rightarrow> string" where
  "SharedPaymentToken_String t = ''SharedPaymentToken{ID:<redacted> BillingAddress:<redacted> ValidUntil:<redacted>}''"

definition SpendRequest_String :: "spend_request \<Rightarrow> string" where
  "SpendRequest_String s =
     ''SpendRequest{ID:<redacted> Status:<redacted> Amount:'' @ show_int (sr_amount s) @
     '' Currency:<redacted> CredentialType:<redacted> Card:<redacted> SharedPaymentToken:<redacted> LinkPayToken:<redacted>}''"

definition RequestApprovalResponse_String :: "request_approval_response \<Rightarrow> string" where
  "RequestApprovalResponse_String r = ''RequestApprovalResponse{ID:<redacted> ApprovalLink:<redacted>}''"

definition WebBotAuthBlock_String :: "web_bot_auth_block \<Rightarrow> string" where
  "WebBotAuthBlock_String b =
     ''WebBotAuthBlock{Signature:<redacted> SignatureInput:<redacted> SignatureAgent:<redacted> Authority:<redacted> ExpiresAt:<redacted>}''"

end
