(* ===== verification/ErrorTextTheorems.thy ===== *)
theory ErrorTextTheorems
  imports ErrorText
begin

text \<open>
  What a printed error can do to a log line, and what it cannot contain.
\<close>

section \<open>Quoting\<close>

lemma no_ctl_high: "\<forall>c \<in> set s. 128 \<le> byte c \<Longrightarrow> no_ctl s"
  by (induction s) auto

lemma rune_bytes_high:
  assumes "rune_width (c # cs) = n" "n \<noteq> 0" "n \<noteq> 1"
  shows "no_ctl (c # take (n - 1) cs)"
proof (rule no_ctl_high)
  show "\<forall>d \<in> set (c # take (n - 1) cs). 128 \<le> byte d"
    using assms by (cases "c # cs" rule: rune_width.cases)
      (auto simp: lead_width_def second_ok_def is_cont_def split: if_splits)
qed

lemma no_ctl_hex_digits: "no_ctl (hex_digits n v)"
proof (induction n arbitrary: v)
  case (Suc n)
  have "v mod 16 < 16" by simp
  then have "no_ctl [hex_digit (v mod 16)]" by (auto simp: hex_digit_def byte_char_of)
  with Suc show ?case by simp
qed simp

lemma no_ctl_quote_ascii: "no_ctl (quote_ascii c)"
  using no_ctl_hex_digits [of 2 "byte c"] by (auto simp: quote_ascii_def byte_def)

lemma no_ctl_quote_rune: "no_ctl r \<Longrightarrow> no_ctl (quote_rune pr r)"
  using no_ctl_hex_digits by (auto simp: quote_rune_def byte_def)

lemma no_ctl_quote_body: "no_ctl (quote_body pr s)"
proof (induction pr s rule: quote_body.induct)
  case (2 pr c cs)
  let ?n = "rune_width (c # cs)"
  have r: "no_ctl (quote_rune pr (c # take (?n - 1) cs))" if "?n \<noteq> 0" "?n \<noteq> 1"
    by (rule no_ctl_quote_rune) (rule rune_bytes_high [OF refl that])
  have x: "no_ctl ([CHR 0x5C, CHR ''x''] @ hex_digits 2 (byte c))"
    using no_ctl_hex_digits by (simp add: byte_def)
  show ?case
  proof (cases "?n = 0")
    case True
    with x 2(1) [OF refl True] show ?thesis by (subst quote_body.simps) simp
  next
    case False
    show ?thesis
    proof (cases "?n = 1")
      case True
      with 2(2) [OF refl False True] no_ctl_quote_ascii show ?thesis by (subst quote_body.simps) simp
    next
      case one: False
      with False 2(3) [OF refl False one] r show ?thesis by (subst quote_body.simps) (simp add: Let_def del: no_ctl_Cons)
    qed
  qed
qed simp

lemma no_ctl_go_quote: "no_ctl (go_quote pr s)"
  using no_ctl_quote_body [of pr s] by (simp add: go_quote_def byte_def)

lemma rune_bytes_closes: "rune_width (c # cs) = n \<Longrightarrow> n \<noteq> 0 \<Longrightarrow> n \<noteq> 1 \<Longrightarrow> \<not> closes (c # take (n - 1) cs)"
  by (cases "c # cs" rule: rune_width.cases)
    (auto simp: closes_def lead_width_def second_ok_def is_cont_def byte_def split: if_splits)

lemma lead_width_one: "lead_width n = 1 \<Longrightarrow> n < 128"
  by (simp add: lead_width_def split: if_splits)

lemma rune_width_lead: "rune_width (c # cs) = 1 \<Longrightarrow> lead_width (byte c) = 1"
proof (rule ccontr)
  assume "rune_width (c # cs) = 1" "lead_width (byte c) \<noteq> 1"
  then show False by (cases "c # cs" rule: rune_width.cases) (auto split: if_splits)
qed

lemma rune_width_1: "rune_width (c # cs) = 1 \<Longrightarrow> byte c < 128"
  using lead_width_one rune_width_lead by blast

lemma rune_bytes_opens: "rune_width (c # cs) = n \<Longrightarrow> n \<noteq> 0 \<Longrightarrow> \<not> c1_byte c"
  by (cases "c # cs" rule: rune_width.cases) (auto simp: c1_byte_def lead_width_def split: if_splits)

lemma ascii_hex_digits: "ascii (hex_digits n v)"
proof (induction n arbitrary: v)
  case (Suc n)
  have "v mod 16 < 16" by simp
  then have "ascii [hex_digit (v mod 16)]" by (auto simp: hex_digit_def byte_char_of)
  with Suc show ?case by simp
qed simp

lemma ascii_quote_ascii: "byte c < 128 \<Longrightarrow> ascii (quote_ascii c)"
  using ascii_hex_digits [of 2 "byte c"] by (auto simp: quote_ascii_def byte_def)

lemma quote_rune_cases: "quote_rune pr r = r \<or> ascii (quote_rune pr r)"
  using ascii_hex_digits by (auto simp: quote_rune_def byte_def)

lemma piece_then: "no_c1 x \<Longrightarrow> \<not> opens x \<Longrightarrow> \<not> closes x \<Longrightarrow> no_c1 y \<and> \<not> opens y \<Longrightarrow> no_c1 (x @ y) \<and> \<not> opens (x @ y)"
  by (auto simp: no_c1_append opens_append)

lemma no_c1_quote_body: "no_c1 s \<Longrightarrow> no_c1 (quote_body pr s) \<and> \<not> opens (quote_body pr s)"
proof (induction pr s rule: quote_body.induct)
  case (2 pr c cs)
  let ?n = "rune_width (c # cs)"
  have tl: "no_c1 cs" "no_c1 (drop (?n - 1) cs)" "no_c1 (c # take (?n - 1) cs)"
    using 2(4) no_c1_take [OF 2(4), of "Suc (?n - 1)"] by (simp_all add: no_c1_Cons no_c1_drop)
  have asc: "no_c1 (x @ y) \<and> \<not> opens (x @ y)" if "ascii x" "no_c1 y \<and> \<not> opens y" for x y
    using that ascii_no_c1 ascii_ends by (intro piece_then) auto
  show ?case
  proof (cases "?n = 0")
    case True
    with asc [OF _ 2(1) [OF refl True tl(1)], of "[CHR 0x5C, CHR ''x''] @ hex_digits 2 (byte c)"] show ?thesis
      using ascii_hex_digits [of 2 "byte c"] by (subst (1 2) quote_body.simps) (simp add: Let_def byte_def)
  next
    case False
    show ?thesis
    proof (cases "?n = 1")
      case True
      with rune_width_1 have "byte c < 128" by blast
      with True asc [OF ascii_quote_ascii 2(2) [OF refl False True tl(1)]] show ?thesis
        by (subst (1 2) quote_body.simps) (simp add: Let_def)
    next
      case one: False
      let ?r = "c # take (?n - 1) cs"
      note ih = 2(3) [OF refl False one tl(2)]
      have "no_c1 (quote_rune pr ?r @ quote_body pr (drop (?n - 1) cs)) \<and>
          \<not> opens (quote_rune pr ?r @ quote_body pr (drop (?n - 1) cs))"
        using quote_rune_cases [of pr ?r]
      proof
        assume "quote_rune pr ?r = ?r"
        moreover have "\<not> opens ?r" using rune_bytes_opens [OF refl False] by simp
        ultimately show ?thesis using tl(3) rune_bytes_closes [OF refl False one] ih by (intro piece_then) simp_all
      next
        assume "ascii (quote_rune pr ?r)"
        then show ?thesis using ih by (rule asc)
      qed
      with False one show ?thesis by (subst (1 2) quote_body.simps) (simp add: Let_def)
    qed
  qed
qed simp

lemma no_c1_go_quote: "no_c1 s \<Longrightarrow> no_c1 (go_quote pr s) \<and> \<not> opens (go_quote pr s) \<and> \<not> closes (go_quote pr s)"
  using no_c1_quote_body [of s pr]
  by (auto simp: go_quote_def no_c1_append no_c1_Cons closes_def c1_byte_def byte_def)

lemma ascii_show: "ascii (show_nat n)" "ascii (show_int i)"
proof -
  have d: "ascii s" if "list_all is_digit s" for s using that by (induction s) (auto simp: is_digit_def)
  then have n: "ascii (show_nat m)" for m using list_all_show_nat by blast
  show "ascii (show_nat n)" by (rule n)
  show "ascii (show_int i)" using n by (auto simp: show_int_def byte_def)
qed

lemma no_ctl_digits: "list_all is_digit s \<Longrightarrow> no_ctl s"
  by (induction s) (auto simp: is_digit_def)

lemma no_ctl_show_nat: "no_ctl (show_nat n)"
proof (rule no_ctl_digits)
  show "list_all is_digit (show_nat n)" by (rule list_all_show_nat)
qed

lemma no_ctl_show_int: "no_ctl (show_int i)"
  using no_ctl_show_nat by (auto simp: show_int_def byte_def)

section \<open>Errors\<close>

lemma truncate_nonempty: "v \<noteq> [] \<Longrightarrow> truncateDiagnostic v \<noteq> []"
  by (auto simp: truncateDiagnostic_def ellipsis_def)

definition printable_text :: "string \<Rightarrow> bool" where
  "printable_text s \<longleftrightarrow> s \<noteq> [] \<and> length s \<le> 512 \<and> no_ctl s \<and> no_c1 s"

text \<open>Read as runes, such a text has no rune of which \<open>unicode.IsControl\<close> holds.\<close>

lemma no_control_runes: "no_ctl s \<Longrightarrow> no_c1 s \<Longrightarrow> list_all (\<lambda>r. \<not> is_control_rune r) (runes s)"
proof (induction s rule: runes.induct)
  case (2 c cs)
  let ?n = "rune_width (c # cs)"
  have tl: "no_ctl cs" "no_c1 cs" "no_ctl (drop (?n - 1) cs)" "no_c1 (drop (?n - 1) cs)"
    using 2(3,4) no_ctl_subset [OF _ set_drop_subset, of cs] by (auto simp: no_c1_Cons no_c1_drop)
  show ?case
  proof (cases "?n = 0")
    case True
    with 2(1) [OF refl True tl(1,2)] show ?thesis
      by (subst runes.simps) (simp add: is_control_rune_def rune_error_def)
  next
    case False
    have "\<not> is_control_rune (c # take (?n - 1) cs)"
      using 2(3,4) by (cases cs; cases "?n - 1")
        (auto simp: is_control_rune_def c1_byte_def split: list.split)
    with False 2(2) [OF refl False tl(3,4)] show ?thesis by (subst runes.simps) (simp add: Let_def)
  qed
qed simp

lemma printable_truncated: "v \<noteq> [] \<Longrightarrow> no_ctl v \<Longrightarrow> no_c1 v \<Longrightarrow> printable_text (truncateDiagnostic v)"
  using length_truncateDiagnostic [of v] truncate_nonempty [of v] no_ctl_truncate [of v] no_c1_truncate [of v]
  by (simp add: printable_text_def maxDiagnosticBytes_def)

lemma printable_sanitized:
  assumes "fallback \<noteq> []" "length fallback \<le> 512" "no_ctl fallback" "ascii fallback"
  shows "printable_text (sanitizeDiagnosticText v fallback)"
  using assms sanitize_nonempty [OF assms(1), of v] sanitize_length [of fallback v] sanitize_no_ctl [OF assms(3), of v]
    sanitize_no_c1 [OF ascii_no_c1 [OF assms(4)], of v]
  by (simp add: printable_text_def maxDiagnosticBytes_def)

text \<open>C32: however an \<open>APIError\<close> is printed, with any verb and flag, nil or not, with whatever code,
  message and body a server chose, the text has between 1 and 512 bytes and, read as runes, no control
  character, neither of ASCII nor of the range U+0080 to U+009F: it cannot break or flood a log
  line.\<close>

theorem api_error_text_safe:
  "(let s = APIError_Format pr sharp verb e in
    s \<noteq> [] \<and> length s \<le> 512 \<and> list_all (\<lambda>r. \<not> is_control_rune r) (runes s))"
proof -
  have m: "printable_text (APIError_Error e)"
  proof (cases e)
    case None
    then show ?thesis by (simp add: APIError_Error_def printable_text_def byte_def no_c1_Cons)
  next
    case (Some x)
    have "printable_text (sanitizeDiagnosticText (ae_message x) remote_failed)"
      by (rule printable_sanitized) (simp_all add: remote_failed_def byte_def)
    with Some show ?thesis by (simp add: APIError_Error_def)
  qed
  have "printable_text (APIError_safeSummary pr e)"
  proof (cases e)
    case None
    then show ?thesis by (simp add: APIError_safeSummary_def printable_text_def byte_def no_c1_Cons)
  next
    case (Some x)
    have q: "no_c1 (go_quote pr (sanitizeDiagnosticText (ae_code x) ''api_error''))" "no_c1 (go_quote pr (APIError_Error e))"
      "\<not> closes (go_quote pr v)" "\<not> opens (go_quote pr v)" for v
      using no_c1_go_quote sanitize_no_c1 [of "''api_error''" "ae_code x"] m
      by (auto simp: printable_text_def no_c1_Cons) (simp_all add: go_quote_def closes_def c1_byte_def byte_def)
    have d: "\<not> opens (show_nat n)" "\<not> closes (show_nat n)" "no_c1 (show_nat n)"
      "\<not> opens (show_int i)" "\<not> closes (show_int i)" "no_c1 (show_int i)" for n i
      using ascii_ends ascii_no_c1 ascii_show by blast+
    have a: "ascii t \<Longrightarrow> no_c1 (t @ u) \<longleftrightarrow> no_c1 u" "ascii t \<Longrightarrow> opens (t @ u) \<Longrightarrow> t = [] \<and> opens u" for t u
      using ascii_no_c1 [of t] ascii_ends [of t] by (auto simp: no_c1_append opens_append)
    show ?thesis unfolding Some
      by (simp only: APIError_safeSummary_def option.case, intro printable_truncated)
         (simp_all add: no_ctl_go_quote no_ctl_show_int no_ctl_show_nat byte_def q [unfolded Some] d no_c1_append
            no_c1_Cons opens_append c1_byte_def)
  qed
  with m have "printable_text (APIError_Format pr sharp verb e)" by (simp add: APIError_Format_def)
  then show ?thesis using no_control_runes by (auto simp: printable_text_def Let_def)
qed

text \<open>The part of a URL a diagnostic may show.\<close>

definition endpoint_part :: "url \<Rightarrow> url" where
  "endpoint_part u = u\<lparr>u_user := None, u_raw_query := [], u_force_query := False, u_fragment := [], u_raw_fragment := []\<rparr>"

lemma safeURLDiagnostic_endpoint:
  assumes "url_parse raw = Some u" "url_parse raw' = Some u'" "endpoint_part u = endpoint_part u'"
  shows "safeURLDiagnostic raw = safeURLDiagnostic raw'"
proof -
  have "sanitizeURLForLog u = sanitizeURLForLog u'" using assms(3) by (simp add: sanitizeURLForLog_def endpoint_part_def)
  moreover have "u_scheme u = u_scheme u'" "u_host u = u_host u'" "u_opaque u = u_opaque u'"
    using assms(3) by (cases u; cases u'; simp add: endpoint_part_def)+
  ultimately show ?thesis using assms(1,2) by (simp add: safeURLDiagnostic_def url_is_abs_def)
qed

text \<open>C31: of the response, an error prints only the sanitised message extracted from its body, and the
  sharp form also the lengths of the body and of the details. So two responses of the same status whose
  bodies yield the same message print the same for every verb and flag, with equal lengths when the
  form is the sharp one; and no \<open>APIError\<close>, however it was made, prints its body or details. A
  \<open>TransportError\<close> prints neither its cause nor the user information, the query or the fragment of its
  URL: two errors that differ only there print the same for every verb and flag.\<close>

theorem error_text_hides_secrets:
  assumes "sharp \<and> verb = CHR ''v'' \<longrightarrow> length body = length body' \<and> json_valid body = json_valid body'"
    and "extractAPIErrorMessage body = extractAPIErrorMessage body'"
    and "url_parse raw = Some u" "url_parse raw' = Some u'" "endpoint_part u = endpoint_part u'"
  shows "APIError_Format pr sharp verb (Some (newAPIError status body)) =
      APIError_Format pr sharp verb (Some (newAPIError status body')) \<and>
    APIError_Format pr sharp verb (Some (e\<lparr>ae_raw_body := body, ae_details := validJSONCopy body\<rparr>)) =
      APIError_Format pr sharp verb (Some (e\<lparr>ae_raw_body := body', ae_details := validJSONCopy body'\<rparr>)) \<and>
    TransportError_Format pr sharp verb (Some \<lparr>te_code = code, te_method = m, te_url = raw, te_err = cause\<rparr>) =
      TransportError_Format pr sharp verb (Some \<lparr>te_code = code, te_method = m, te_url = raw', te_err = cause'\<rparr>)"
proof (intro conjI)
  show e: "APIError_Format pr sharp verb (Some (e\<lparr>ae_raw_body := body, ae_details := validJSONCopy body\<rparr>)) =
      APIError_Format pr sharp verb (Some (e\<lparr>ae_raw_body := body', ae_details := validJSONCopy body'\<rparr>))" for e
    using assms(1) by (simp add: APIError_Format_def APIError_safeSummary_def APIError_Error_def validJSONCopy_def)
  have "newAPIError status b = (newAPIError status body)\<lparr>ae_raw_body := b, ae_details := validJSONCopy b\<rparr>"
    if "extractAPIErrorMessage b = extractAPIErrorMessage body" for b
    using that by (simp add: newAPIError_def)
  with e [of "newAPIError status body"] assms(2) show "APIError_Format pr sharp verb (Some (newAPIError status body)) =
      APIError_Format pr sharp verb (Some (newAPIError status body'))" by metis
  show "TransportError_Format pr sharp verb (Some \<lparr>te_code = code, te_method = m, te_url = raw, te_err = cause\<rparr>) =
      TransportError_Format pr sharp verb (Some \<lparr>te_code = code, te_method = m, te_url = raw', te_err = cause'\<rparr>)"
    using safeURLDiagnostic_endpoint [OF assms(3-5)]
    by (simp add: TransportError_Format_def TransportError_safeSummary_def TransportError_Error_def)
qed

theorem error_text_hides_secrets_witness:
  "APIError_Format (\<lambda>_. True) True (CHR ''v'') (Some (newAPIError 500 ''s3cret'')) =
   APIError_Format (\<lambda>_. True) True (CHR ''v'') (Some (newAPIError 500 ''other!'')) \<and>
   TransportError_Format (\<lambda>_. True) True (CHR ''v'')
     (Some \<lparr>te_code = ''transport_error'', te_method = ''GET'', te_url = ''https://u:pw@h.example/p?key=s3cret'',
        te_err = Msg ''cause''\<rparr>) =
   TransportError_Format (\<lambda>_. True) True (CHR ''v'')
     (Some \<lparr>te_code = ''transport_error'', te_method = ''GET'', te_url = ''https://h.example/p'',
        te_err = Msg ''other''\<rparr>)"
proof -
  have u: "map_option endpoint_part (url_parse ''https://u:pw@h.example/p?key=s3cret'') =
      map_option endpoint_part (url_parse ''https://h.example/p'')" "url_parse ''https://h.example/p'' \<noteq> None"
    by code_simp+
  from u obtain u u' where p: "url_parse ''https://u:pw@h.example/p?key=s3cret'' = Some u"
    "url_parse ''https://h.example/p'' = Some u'" "endpoint_part u = endpoint_part u'" by auto
  have "extractAPIErrorMessage ''s3cret'' = extractAPIErrorMessage ''other!''"
    "length ''s3cret'' = length ''other!'' \<and> json_valid ''s3cret'' = json_valid ''other!''" by code_simp+
  then show ?thesis
    using error_text_hides_secrets [OF _ _ p, where body = "''s3cret''" and body' = "''other!''"] by blast
qed

section \<open>Summaries\<close>

text \<open>Replacing every credential, identifier and text of a value leaves its summary as it is.\<close>

lemma summaries_hide_credentials:
  "AuthTokens_String (t\<lparr>at_access_token := a, at_refresh_token := b, at_token_type := c\<rparr>) = AuthTokens_String t"
  "DeviceAuth_String (d\<lparr>da_device_code := a, da_user_code := b, da_verification_url := c,
     da_verification_url_complete := x\<rparr>) = DeviceAuth_String d"
  "PendingDeviceAuth_String (p\<lparr>pd_device_code := a, pd_verification_url := b, pd_phrase := c\<rparr>) = PendingDeviceAuth_String p"
  "AuthStorageState_String (s\<lparr>st_auth := au, st_pending := pe\<rparr>) = AuthStorageState_String s"
  "AccessTokenRequest_String (r\<lparr>tr_RejectedToken := a\<rparr>) = AccessTokenRequest_String r"
  "Card_String (k\<lparr>cd_id := a, cd_brand := b, cd_number := c, cd_cvc := x, cd_billing_address := ba, cd_valid_until := y\<rparr>) =
     Card_String k"
  "SharedPaymentToken_String v = SharedPaymentToken_String v'"
  "SpendRequest_String (q\<lparr>sr_id := a, sr_status := b, sr_currency := c, sr_card := ca, sr_shared_payment_token := sp,
     sr_link_pay_token := x\<rparr>) = SpendRequest_String q"
  "RequestApprovalResponse_String w = RequestApprovalResponse_String w'"
  "WebBotAuthBlock_String z = WebBotAuthBlock_String z'"
  "Options_String (o'\<lparr>op_AccessToken := a, op_GetAccessToken := g, op_DefaultHeaders := h, op_ClientName := b\<rparr>) = Options_String o'"
  by (simp_all add: AuthTokens_String_def DeviceAuth_String_def PendingDeviceAuth_String_def AuthStorageState_String_def
      AccessTokenRequest_String_def Card_String_def SharedPaymentToken_String_def SpendRequest_String_def
      RequestApprovalResponse_String_def WebBotAuthBlock_String_def Options_String_def)

end
