(* ===== verification/OtherPlatforms.thy ===== *)
theory OtherPlatforms
  imports FileStorageSpec
begin

text \<open>
  storage_lock_other.go and storage_sync_other.go: what stands for the lock file, the opening of the
  credential file and the directory sync on platforms without \<open>flock\<close>, and how far these variants agree
  with the ones \<open>FileStorage\<close> is verified with.
\<close>

section \<open>The variants\<close>

text \<open>\<open>os.Lstat\<close> of the lock file.\<close>

definition lstat_lock :: "world \<Rightarrow> (go_error, bool) result \<times> world" where
  "lstat_lock w =
     (case sys CLockStat w of
        (Some e, w1) \<Rightarrow> (Inl e, w1)
      | (None, w1) \<Rightarrow>
          (case fs_lock (w_fs w1) of
             None \<Rightarrow> (Inl (Sentinel OsErrNotExist), w1)
           | Some n \<Rightarrow> (Inr (n \<noteq> Irregular), w1)))"

definition open_lock_other :: "world \<Rightarrow> go_error option \<times> world" where
  "open_lock_other w =
     on_err (lock_open w) (\<lambda>e w1. (Some (Wrapf ''open auth storage lock'' [e]), w1)) (\<lambda>w1.
     on_err (sys CLockChmod w1) (\<lambda>e w2. (Some (Wrapf ''secure auth storage lock'' [e]), w2)) (\<lambda>w2.
     (None, update_fs (\<lambda>fs. fs\<lparr>fs_lock := map_option (set_mode owner_only) (fs_lock fs)\<rparr>) w2)))"

definition acquireStorageLock_other :: "string \<Rightarrow> go_context \<Rightarrow> world \<Rightarrow> go_error option \<times> world" where
  "acquireStorageLock_other path ctx w =
     (if ctx = None then (Some (invalid_argument ''context must not be nil''), w)
      else
        on_err (contextFailure ctx w) (\<lambda>e w1. (Some e, w1)) (\<lambda>w1.
        case lstat_lock w1 of
          (Inr regular, w2) \<Rightarrow>
            (if \<not> regular then (Some (Msg (''auth storage lock path is not a regular file: '' @ path)), w2)
             else open_lock_other w2)
        | (Inl e, w2) \<Rightarrow>
            (if \<not> errors_Is e OsErrNotExist then (Some (Wrapf ''inspect auth storage lock'' [e]), w2)
             else open_lock_other w2)))"

text \<open>\<open>storageLock.Close\<close> of a lock that may be nil: nothing but the file is closed, which is the step
  \<open>CUnlock\<close> stands for.\<close>

definition storageLock_Close_other :: "bool \<Rightarrow> world \<Rightarrow> go_error option \<times> world" where
  "storageLock_Close_other held w = (if \<not> held then (None, w) else sys CUnlock w)"

definition openCredentialFile_other :: "string \<Rightarrow> world \<Rightarrow> (go_error, string) result \<times> world" where
  "openCredentialFile_other path w =
     (case lstat w of
        (Inl e, w1) \<Rightarrow> (Inl e, w1)
      | (Inr regular, w1) \<Rightarrow>
          (if \<not> regular then (Inl (Msg (''path is not a regular file: '' @ path)), w1)
           else
             on_err (sys COpen w1) (\<lambda>e w2. (Inl e, w2)) (\<lambda>w2.
             on_err (sys CChmod w2) (\<lambda>e w3. (Inl e, w3)) (\<lambda>w3.
             case fs_file (w_fs w3) of
               Some (Regular d m s) \<Rightarrow> (Inr d, update_fs (\<lambda>fs. fs\<lparr>fs_file := Some (Regular d owner_only s)\<rparr>) w3)
             | _ \<Rightarrow> (Inl (Sentinel OsErrNotExist), w3)))))"

definition syncDirectoryRaw_other :: "world \<Rightarrow> go_error option \<times> world" where
  "syncDirectoryRaw_other w = (None, w)"

section \<open>Agreement\<close>

text \<open>Whatever the lock variant does, it touches nothing but the lock file; where it succeeds, that file
  is a regular file only its owner can use.\<close>

lemma lock_other_keeps_credentials:
  "fs_file (w_fs (snd (acquireStorageLock_other path ctx w))) = fs_file (w_fs w) \<and>
   fs_temps (w_fs (snd (acquireStorageLock_other path ctx w))) = fs_temps (w_fs w)"
  by (auto simp: acquireStorageLock_other_def lstat_lock_def open_lock_other_def lock_open_def contextFailure_def sys_def
      on_err_def tick_def update_fs_def time_now_def Let_def split: option.splits)

lemma lock_other_owner_only:
  assumes "acquireStorageLock_other path ctx w = (None, w')" and "fs_lock (w_fs w) \<noteq> Some Irregular"
  shows "\<exists>d s. fs_lock (w_fs w') = Some (Regular d owner_only s)"
  using assms
  by (auto simp: acquireStorageLock_other_def lstat_lock_def open_lock_other_def lock_open_def contextFailure_def sys_def
      on_err_def tick_def update_fs_def time_now_def Let_def set_mode_def split: option.splits if_splits node.splits)

text \<open>When no system call fails, opening the credential file is the same on every platform: the same
  contents or the same refusal, and the same file left behind, its mode set to owner-only.\<close>

lemma openCredentialFile_platforms_agree:
  assumes "w_fault w = (\<lambda>_ _. None)"
  shows "fst (openCredentialFile_other path w) = fst (openCredentialFile path w) \<and>
    w_fs (snd (openCredentialFile_other path w)) = w_fs (snd (openCredentialFile path w))"
  using assms
  by (auto simp: openCredentialFile_other_def openCredentialFile_def lstat_def sys_def on_err_def tick_def update_fs_def
      split: option.splits node.splits)

text \<open>The lock file of the other platforms is created and secured like the one of unix, but excludes
  nobody: acquiring it does not depend on how often it is found busy, nor on what rivals do.\<close>

lemma acquireStorageLock_other_never_waits:
  "acquireStorageLock_other path ctx (w\<lparr>w_busy := b, w_rival := r\<rparr>) =
     (fst (acquireStorageLock_other path ctx w), (snd (acquireStorageLock_other path ctx w))\<lparr>w_busy := b, w_rival := r\<rparr>)"
  by (cases w)
     (auto simp: acquireStorageLock_other_def lstat_lock_def open_lock_other_def lock_open_def contextFailure_def sys_def
      on_err_def tick_def update_fs_def time_now_def Let_def split: option.splits)

end
