(* ===== verification/ExampleProgram.thy ===== *)
theory ExampleProgram
  imports Client
begin

text \<open>
  examples/testmode-spend-request/main.go: the command that signs in, creates a test-mode spend request,
  waits for its approval, shows the test card and cancels the request. \<open>fatalf\<close> ends the process with
  \<open>os.Exit\<close>, which runs no deferred call; printing is the list of what was printed.
\<close>

section \<open>Output\<close>

datatype printed =
    Shown string spend_request
  | Line string
  | Warned string go_error

text \<open>How the command ends: \<open>main\<close> returns, or \<open>fatalf\<close> with its text and the error it reports.\<close>

datatype outcome = Finished | Exited string "go_error option"

text \<open>What \<open>main\<close> leaves behind when it ends.\<close>

record run =
  rn_outcome :: outcome
  rn_printed :: "printed list"
  rn_world :: world

definition fatalf :: "string \<Rightarrow> go_error option \<Rightarrow> printed list \<Rightarrow> world \<Rightarrow> run" where
  "fatalf text e out w = \<lparr>rn_outcome = Exited text e, rn_printed = out, rn_world = w\<rparr>"

section \<open>Waiting for the card\<close>

text \<open>The \<open>select\<close> between the ticker and the context: \<open>True\<close> when the tick was taken.\<close>

definition select_ticker :: "gctx \<Rightarrow> world \<Rightarrow> bool \<times> world" where
  "select_ticker ctx w = (case time_now w of (t, w1) \<Rightarrow> (\<not> (ctx_done ctx t \<and> w_choose w (w_tick w)), w1))"

definition terminal_statuses :: "string list" where
  "terminal_statuses = [''denied'', ''expired'', ''failed'', ''canceled'']"

text \<open>The four statuses are plain words, which \<open>%q\<close> only puts in quotation marks.\<close>

definition terminal_status :: "string \<Rightarrow> go_error" where
  "terminal_status s = Msg (''request reached terminal status '' @ [CHR 0x22] @ s @ [CHR 0x22])"

text \<open>One iteration: what it returns, \<open>None\<close> when it goes round again.\<close>

definition card_step :: "gctx \<Rightarrow> client \<Rightarrow> string \<Rightarrow> world \<Rightarrow> (go_error, spend_request) result option \<times> world" where
  "card_step ctx cl requestID w =
     (case Retrieve (cl_SpendRequests cl) (Some ctx) requestID [''card''] w of
        (Inl e, w1) \<Rightarrow> (Some (Inl e), w1)
      | (Inr request, w1) \<Rightarrow>
          (if sr_status request = ''approved''
           then (if sr_card request = None then (Some (Inl (Msg ''approved request has no card'')), w1)
                 else (Some (Inr request), w1))
           else if sr_status request \<in> set terminal_statuses
           then (Some (Inl (terminal_status (sr_status request))), w1)
           else (case select_ticker ctx w1 of
                   (False, w2) \<Rightarrow> (Some (Inl (Sentinel (cx_err ctx))), w2)
                 | (True, w2) \<Rightarrow> (None, w2))))"

partial_function (option) waitForTestCard ::
  "gctx \<Rightarrow> client \<Rightarrow> string \<Rightarrow> world \<Rightarrow> ((go_error, spend_request) result \<times> world) option" where
  "waitForTestCard ctx cl requestID w =
     (case card_step ctx cl requestID w of
        (Some r, w1) \<Rightarrow> Some (r, w1)
      | (None, w1) \<Rightarrow> waitForTestCard ctx cl requestID w1)"

declare waitForTestCard.simps [code]

section \<open>Signing in\<close>

definition authenticate :: "gctx \<Rightarrow> client \<Rightarrow> world \<Rightarrow> (go_error option \<times> printed list \<times> world) option" where
  "authenticate ctx cl w =
     (case InitiateDeviceAuth (cl_Auth cl) (Some ctx) [] w of
        (Inl e, w1) \<Rightarrow> Some (Some e, [], w1)
      | (Inr device, w1) \<Rightarrow>
          (let out = [Line ''Approve the Link login at:'', Line (da_verification_url_complete device)]
           in case PollDeviceAuth (cl_Auth cl) (Some ctx) (Some device) w1 of
                None \<Rightarrow> None
              | Some (Inl e, w2) \<Rightarrow> Some (Some e, out, w2)
              | Some (Inr _, w2) \<Rightarrow> Some (None, out @ [Line ''Link authentication completed''], w2)))"

definition isInvalidRefreshToken :: "go_error \<Rightarrow> bool" where
  "isInvalidRefreshToken e =
     (case as_api_error e of None \<Rightarrow> False | Some a \<Rightarrow> ae_status a = 400 \<and> ae_raw_body a \<noteq> [])"

section \<open>main\<close>

text \<open>The loop that replaces the first method's id by that of the first default method.\<close>

fun default_method :: "payment_method list \<Rightarrow> string \<Rightarrow> string" where
  "default_method [] paymentMethodID = paymentMethodID"
| "default_method (m # ms) paymentMethodID =
     (if pm_is_default m then pm_id m else default_method ms paymentMethodID)"

definition example_params :: "string \<Rightarrow> create_spend_request_params" where
  "example_params paymentMethodID =
     \<lparr>cs_payment_details = paymentMethodID, cs_credential_type = ''card'', cs_network_id = [], cs_amount = 100,
      cs_currency = ''usd'', cs_merchant_name = ''stripelink integration example'',
      cs_merchant_url = ''https://example.com/stripelink-integration-example'',
      cs_context = ''Explicit test-mode example for the stripelink Go SDK. This request uses Link test card data '' @
        ''and must never result in a live purchase or fulfillment.'',
      cs_line_items = Some [\<lparr>li_name = ''Integration example item'', li_url = None, li_image_url = None,
        li_description = None, li_sku = None, li_totals = None, li_quantity = Some 1, li_unit_amount = Some 100,
        li_product_url = None\<rparr>],
      cs_totals = Some [\<lparr>tt_type = ''total'', tt_display_text = ''Total'', tt_amount = 100\<rparr>],
      cs_request_approval = True, cs_test = True, cs_approve = False\<rparr>"

definition example_options :: "string \<Rightarrow> options" where
  "example_options path =
     \<lparr>op_ClientName = ''stripelink test-mode example'', op_AccessToken = [], op_GetAccessToken = None,
      op_AuthStorage = Value (FileStorage (Some path)), op_HTTPClient = None, op_DefaultHeaders = [],
      op_MaxResponseBodyBytes = 0, op_AuthBaseURL = [], op_APIBaseURL = [], op_SpendRequestBaseURL = [],
      op_Verbose = False\<rparr>"

text \<open>The deferred call, which runs when \<open>main\<close> returns.\<close>

definition cleanup :: "client \<Rightarrow> spend_request \<Rightarrow> world \<Rightarrow> printed list \<times> world" where
  "cleanup cl created w =
     (case time_now w of
        (t, w1) \<Rightarrow>
          (case Cancel (cl_SpendRequests cl) (Some (with_deadline background (t + seconds 30))) (sr_id created) w1 of
             (Inl e, w2) \<Rightarrow> ([Warned (sr_id created) e], w2)
           | (Inr canceled, w2) \<Rightarrow> ([Shown ''canceled test-mode spend request'' canceled], w2)))"

definition created_output :: "spend_request \<Rightarrow> printed list" where
  "created_output created =
     Shown ''created test-mode spend request'' created #
     (if sr_approval_url created \<noteq> []
      then [Line ''Approve the test-mode spend request at:'', Line (sr_approval_url created)] else [])"

definition complete_card :: "spend_request \<Rightarrow> bool" where
  "complete_card r = (case sr_card r of None \<Rightarrow> False | Some c \<Rightarrow> cd_number c \<noteq> [] \<and> cd_cvc c \<noteq> [])"

text \<open>From the created request on.\<close>

definition use_request :: "gctx \<Rightarrow> client \<Rightarrow> spend_request \<Rightarrow> printed list \<Rightarrow> world \<Rightarrow> run option" where
  "use_request ctx cl created out w =
     (let out1 = out @ created_output created
      in case waitForTestCard ctx cl (sr_id created) w of
           None \<Rightarrow> None
         | Some (Inl e, w1) \<Rightarrow> Some (fatalf ''wait for approved test-mode spend request'' (Some e) out1 w1)
         | Some (Inr retrieved, w1) \<Rightarrow>
             (let out2 = out1 @ [Shown ''retrieved test-mode spend request'' retrieved]
              in if \<not> complete_card retrieved
                 then Some (fatalf ''approved test-mode request did not return complete test card credentials'' None out2 w1)
                 else (case cleanup cl created w1 of
                         (out3, w2) \<Rightarrow> Some \<lparr>rn_outcome = Finished, rn_printed = out2 @ out3, rn_world = w2\<rparr>)))"

definition spend :: "gctx \<Rightarrow> client \<Rightarrow> bool \<Rightarrow> printed list \<Rightarrow> world \<Rightarrow> run option" where
  "spend ctx cl login out w =
     (case ListPaymentMethods (cl_PaymentMethods cl) (Some ctx) w of
        (Inl e, w1) \<Rightarrow>
          Some (if isInvalidRefreshToken e \<and> \<not> login
                then fatalf ''the stored Link login has expired; rerun this command with -login'' None out w1
                else fatalf ''list Link payment methods'' (Some e) out w1)
      | (Inr [], w1) \<Rightarrow> Some (fatalf ''the Link account has no saved payment methods'' None out w1)
      | (Inr (m # ms), w1) \<Rightarrow>
          (case Create (cl_SpendRequests cl) (Some ctx) (example_params (default_method (m # ms) (pm_id m))) w1 of
             (Inl e, w2) \<Rightarrow>
               Some (fatalf ''create test-mode spend request and request approval'' (Some e) out w2)
           | (Inr created, w2) \<Rightarrow> use_request ctx cl created out w2))"

text \<open>The command: its flags, the value of the environment variable behind the first of them, and the
  environment \<open>NewClient\<close> reads. It has ten minutes.\<close>

definition main :: "environment \<Rightarrow> string option \<Rightarrow> string \<Rightarrow> bool \<Rightarrow> world \<Rightarrow> run option" where
  "main env auth_flag auth_variable login w =
     (let authFile = (case auth_flag of Some f \<Rightarrow> f | None \<Rightarrow> auth_variable)
      in if authFile = [] then Some (fatalf ''pass -auth-file or set STRIPELINK_LINK_CLI_AUTH_FILE'' None [] w)
         else case NewFileStorage env authFile of
           Inl e \<Rightarrow> Some (fatalf ''open link-cli credential file'' (Some e) [] w)
         | Inr path \<Rightarrow>
             (case NewClient env (example_options path) of
                Inl e \<Rightarrow> Some (fatalf ''create Link client'' (Some e) [] w)
              | Inr cl \<Rightarrow>
                  (case time_now w of
                     (t, w1) \<Rightarrow>
                       (let ctx = with_deadline background (t + seconds 600)
                        in if \<not> login then spend ctx cl login [] w1
                           else case authenticate ctx cl w1 of
                                  None \<Rightarrow> None
                                | Some (Some e, out, w2) \<Rightarrow> Some (fatalf ''authenticate with Link'' (Some e) out w2)
                                | Some (None, out, w2) \<Rightarrow> spend ctx cl login out w2))))"

end
