(* ===== verification/ExampleTheorems.thy ===== *)
theory ExampleTheorems
  imports ExampleProgram ClientTheorems
begin

text \<open>
  What the command of examples/ does: the card it waits for, the method it pays with, what it leaves
  undone when it gives up, and that it always ends.
\<close>

section \<open>What is shown\<close>

lemma card_step_result:
  assumes "card_step ctx cl i w = (Some (Inr r), w')"
  shows "sr_status r = ''approved'' \<and> sr_card r \<noteq> None \<and> complete r \<and> spend_request_typed r"
proof -
  obtain x w1 where x: "Retrieve (cl_SpendRequests cl) (Some ctx) i [''card''] w = (x, w1)" by fastforce
  with assms have "x = Inr r" "sr_status r = ''approved''" "sr_card r \<noteq> None"
    by (auto simp: card_step_def split: sum.splits if_splits prod.splits bool.splits)
  with x Retrieve_good show ?thesis unfolding good_request_def by blast
qed

text \<open>Reasoning about the loop: an invariant of its iterations, and what the last one makes of it.\<close>

lemma card_wait_rule:
  assumes "waitForTestCard ctx cl i w = Some y" "I w"
    and step: "\<And>w w'. card_step ctx cl i w = (None, w') \<Longrightarrow> I w \<Longrightarrow> I w'"
    and last: "\<And>w r w'. card_step ctx cl i w = (Some r, w') \<Longrightarrow> I w \<Longrightarrow> Q (r, w')"
  shows "Q y"
proof -
  let ?P = "\<lambda>c d j w y. c = ctx \<longrightarrow> d = cl \<longrightarrow> j = i \<longrightarrow> I w \<longrightarrow> Q y"
  have "?P ctx cl i w y"
  proof (rule waitForTestCard.raw_induct [OF _ assms(1), where P = ?P], intro impI)
    fix loop c d j w y
    assume IH: "\<And>c d j w y. loop c d j w = Some y \<Longrightarrow> ?P c d j w y"
      and body: "(case card_step c d j w of (Some r, w1) \<Rightarrow> Some (r, w1) | (None, w1) \<Rightarrow> loop c d j w1) = Some y"
      and eqs: "c = ctx" "d = cl" "j = i" and inv: "I w"
    obtain s u where s: "card_step ctx cl i w = (s, u)" by fastforce
    show "Q y"
    proof (cases s)
      case None
      with IH [of ctx cl i u y] step [of w u] body s eqs inv show ?thesis by simp
    next
      case (Some r)
      with last [of w r u] body s eqs inv show ?thesis by auto
    qed
  qed
  with assms(2) show ?thesis by blast
qed

text \<open>The request the loop returns is approved, has a card, and is complete and well typed.\<close>

lemma waitForTestCard_approved:
  assumes "waitForTestCard ctx cl i w = Some (Inr r, w')"
  shows "sr_status r = ''approved'' \<and> sr_card r \<noteq> None \<and> complete r \<and> spend_request_typed r"
proof -
  let ?Q = "\<lambda>y. fst y = Inr r \<longrightarrow>
    sr_status r = ''approved'' \<and> sr_card r \<noteq> None \<and> complete r \<and> spend_request_typed r"
  have "?Q y" if "waitForTestCard ctx cl i w = Some y" for y
  proof (rule card_wait_rule [OF that, where I = "\<lambda>_. True" and Q = ?Q])
    show "?Q (x, w')" if "card_step ctx cl i w = (Some x, w')" for w x w' using that card_step_result by auto
  qed simp_all
  with assms show ?thesis by fastforce
qed

text \<open>The payment method: the first default one, or the first one.\<close>

lemma default_method_choice:
  "default_method ms i = (case find pm_is_default ms of None \<Rightarrow> i | Some m \<Rightarrow> pm_id m)"
  by (induction ms) auto

text \<open>A run that returns has shown, as its last retrieval, an approved, complete and well-typed request
  with a card number and a security code, and has asked to cancel the request it created.\<close>

lemma finished_run:
  assumes "use_request ctx cl created out w = Some r" "rn_outcome r = Finished"
  shows "\<exists>retrieved w1. rn_printed r = out @ created_output created @
      [Shown ''retrieved test-mode spend request'' retrieved] @ fst (cleanup cl created w1) \<and>
    rn_world r = snd (cleanup cl created w1) \<and>
    sr_status retrieved = ''approved'' \<and> complete_card retrieved \<and> complete retrieved \<and> spend_request_typed retrieved"
proof -
  obtain x w1 where x: "waitForTestCard ctx cl (sr_id created) w = Some (x, w1)"
    using assms(1) by (auto simp: use_request_def Let_def split: option.splits)
  with assms obtain retrieved where "x = Inr retrieved" "complete_card retrieved"
    by (auto simp: use_request_def fatalf_def Let_def split: sum.splits if_splits)
  with x waitForTestCard_approved [of ctx cl "sr_id created" w retrieved w1] assms(1) show ?thesis
    by (intro exI [of _ retrieved] exI [of _ w1]) (auto simp: use_request_def Let_def split: prod.splits)
qed

text \<open>A run that ends in \<open>fatalf\<close> after the request was created leaves it as it is: what it did last is
  to wait for the card, so the deferred cancellation the command's comment promises does not happen.\<close>

lemma fatal_skips_cleanup:
  assumes "use_request ctx cl created out w = Some r" "rn_outcome r \<noteq> Finished"
  shows "\<exists>x. waitForTestCard ctx cl (sr_id created) w = Some (x, rn_world r)"
  using assms
  by (auto simp: use_request_def fatalf_def Let_def split: option.splits sum.splits if_splits prod.splits)

section \<open>The command ends\<close>

text \<open>In the class of worlds a token source stays in, so do the calls the command makes.\<close>

context token_source
begin

lemma doJSON_keep:
  assumes "doJSON d (Some c) ctx req w = (x, w')" "c_getAccessToken c = Some g" "P w"
  shows "P w'"
proof -
  obtain r w1 where r: "core_do (Some c) ctx req w = (r, w1)" by fastforce
  then have "w' = w1" using assms(1)
    by (auto simp: doJSON_def split: sum.splits prod.splits option.splits if_splits)
  with core_do_keep [OF r assms(2,3)] show ?thesis by simp
qed

lemma list_methods_keep:
  assumes "ListPaymentMethods (Some c) ctx w = (x, w')" "c_getAccessToken c = Some g" "P w"
  shows "P w'"
  using assms doJSON_keep [OF _ assms(2)]
  by (fastforce simp: ListPaymentMethods_def fetch_pointer_def split: option.splits sum.splits prod.splits)

lemma spend_call_keep:
  "spend_call (Some c) ctx req k w = (x, w') \<Longrightarrow> c_getAccessToken c = Some g \<Longrightarrow> P w \<Longrightarrow> P w'"
  using core_do_keep [of c ctx req w] by (auto simp: spend_call_def split: sum.splits prod.splits)

lemma Create_keep:
  assumes "Create (Some c) ctx p w = (x, w')" "c_getAccessToken c = Some g" "P w"
  shows "P w'"
  using assms spend_call_keep [OF _ assms(2)]
  by (fastforce simp: Create_def mutateSpendRequest_def split: option.splits if_splits)

lemma Retrieve_keep:
  assumes "Retrieve (Some c) ctx i include w = (x, w')" "c_getAccessToken c = Some g" "P w"
  shows "P w'"
  using assms spend_call_keep [OF _ assms(2)]
  by (fastforce simp: Retrieve_def with_id_def split: option.splits sum.splits)

end

text \<open>With a context that is done, the provider gives no token, and nothing is retrieved.\<close>

lemma token_done:
  "ctx_done x (w_clock w (w_tick w)) \<Longrightarrow> token p (Some x) rq w = (Inl (cx_cause x), tick w)"
  by (simp add: token_def requireContext_eq contextFailure_def time_now_def)

lemma core_do_done:
  assumes "c_getAccessToken c = Some (token p)" "ctx_done x (w_clock w (w_tick w))" "ar_authenticated req"
  shows "\<exists>e w'. core_do (Some c) (Some x) req w = (Inl e, w')"
  using assms by (auto simp: core_do_def token_done split: option.splits)

lemma Retrieve_done:
  assumes "c_getAccessToken c = Some (token p)" "ctx_done x (w_clock w (w_tick w))"
  shows "\<exists>e w'. Retrieve (Some c) (Some x) i include w = (Inl e, w')"
proof -
  have "\<exists>e w'. spend_call (Some c) (Some x) (read_request u) f w = (Inl e, w')"
    for u and f :: "int \<Rightarrow> string \<Rightarrow> (go_error, spend_request) result"
    using core_do_done [OF assms, of "read_request u"] by (auto simp: spend_call_def read_request_def)
  then show ?thesis
    by (simp add: Retrieve_def with_id_def spend_validate_def idEndpoint_def split: sum.split)
qed

text \<open>An iteration that goes round again took its time, and found its context still alive.\<close>

lemma card_step_again:
  assumes "card_step x cl i w = (None, w')" "cl_SpendRequests cl = Some c" "c_getAccessToken c = Some (token p)"
    and "token_source (token p) (timed ok k n) used" "timed ok k n w"
  shows "timed ok k (Suc n) w' \<and> \<not> ctx_done x (k (w_tick w))"
proof -
  obtain y w1 where y: "Retrieve (Some c) (Some x) i [''card''] w = (y, w1)" by fastforce
  have w1: "timed ok k n w1" by (rule token_source.Retrieve_keep [OF assms(4) y assms(3,5)])
  obtain r where r: "y = Inr r" using assms(1,2) y by (auto simp: card_step_def split: sum.splits)
  have "w' = tick w1"
    using assms(1,2) y r
    by (auto simp: card_step_def select_ticker_def time_now_def split: if_splits prod.splits bool.splits)
  moreover have "\<not> ctx_done x (w_clock w (w_tick w))"
    using Retrieve_done [OF assms(3), of x w i "[''card'']"] y r by auto
  moreover have "timed ok k n (tick w1)"
    by (rule token_source.outside_keep [OF assms(4) _ w1]) (simp add: outside_step_def tick_def)
  ultimately show ?thesis using w1 assms(5) by (auto simp: timed_def tick_def)
qed

text \<open>So the loop ends once its context is done for good. Each iteration moves the ticks on, by \<open>n\<close> in
  the class of worlds.\<close>

lemma card_wait_returns:
  assumes "cl_SpendRequests cl = Some c" "c_getAccessToken c = Some (token p)"
    and "\<And>n. token_source (token p) (timed ok k n) used" "ok w" "w_clock w = k" "\<forall>n \<ge> N. ctx_done x (k n)"
  shows "\<exists>y. waitForTestCard x cl i w = Some y"
  using assms(4,5)
proof (induction "N - w_tick w" arbitrary: w rule: less_induct)
  case less
  obtain s u where s: "card_step x cl i w = (s, u)" by fastforce
  show ?case
  proof (cases s)
    case (Some r)
    with s show ?thesis by (subst waitForTestCard.simps) simp
  next
    case None
    have "timed ok k (w_tick w) w" using less.prems by (simp add: timed_def)
    note again = card_step_again [OF s [unfolded None] assms(1,2) assms(3) this]
    then have "w_tick w < N" using assms(6) by (meson not_less)
    with again have "N - w_tick u < N - w_tick w" "ok u" "w_clock u = k" by (auto simp: timed_def)
    with less.hyps s None show ?thesis by (subst waitForTestCard.simps) simp
  qed
qed

text \<open>The device flow under a context that will be done, whatever the server says about expiry.\<close>

lemma PollDeviceAuthOnce_done:
  "ctx_done x (w_clock w (w_tick w)) \<Longrightarrow> PollDeviceAuthOnce a (Some x) dc w = (Inl (cx_cause x), tick w)"
  by (simp add: PollDeviceAuthOnce_def requireContext_eq contextFailure_def time_now_def)

lemma with_deadline_done: "ctx_done x t \<Longrightarrow> ctx_done (with_deadline x d) t"
  by (auto simp: ctx_done_def with_deadline_def split: option.splits)

lemma with_deadline_kept: "ctx_done x t \<Longrightarrow> t < d \<Longrightarrow> with_deadline x d = x"
  by (auto simp: ctx_done_def with_deadline_def split: option.splits)

definition plain_cause :: "gctx \<Rightarrow> bool" where
  "plain_cause x \<longleftrightarrow> \<not> errors_Is (cx_cause x) ErrSlowDown \<and> \<not> errors_Is (cx_cause x) ErrAuthorizationPending"

lemma poll_failed_done:
  "ctx_done x (w_clock w (w_tick w)) \<Longrightarrow> plain_cause x \<Longrightarrow>
   poll_failed a x dc ex (cx_cause x) i w = (Inl (Inl (cx_cause x)), tick w)"
  by (simp add: poll_failed_def plain_cause_def time_now_def)

lemma poll_step_done:
  assumes "\<forall>n \<ge> w_tick w. ctx_done x (w_clock w n)" "plain_cause x"
  shows "\<exists>r w'. poll_step a x dc ex i w = (Inl r, w')"
proof -
  let ?n = "Suc (Suc (w_tick w))"
  have d: "ctx_done x (w_clock w ?n)" "ctx_done x (w_clock w (Suc (w_tick w)))" "ctx_done x (w_clock w (Suc ?n))"
    "ctx_done x (w_clock w (Suc (Suc ?n)))" using assms(1) by auto
  have e: "\<exists>r w'. (case expired_result a x dc v of (r, w4) \<Rightarrow> (Inl r, w4)) = (Inl r, w')" for v
    by (simp split: prod.split)
  consider (past) "saturate (ex - w_clock w (w_tick w)) \<le> 0"
    | (chosen) "0 < saturate (ex - w_clock w (w_tick w))" "w_choose w (Suc (w_tick w))"
    | (expired) "0 < saturate (ex - w_clock w (w_tick w))" "\<not> w_choose w (Suc (w_tick w))" "ex \<le> w_clock w ?n"
    | (refused) "0 < saturate (ex - w_clock w (w_tick w))" "\<not> w_choose w (Suc (w_tick w))" "w_clock w ?n < ex"
    by linarith
  then show ?thesis
  proof cases
    case past
    with e show ?thesis by (simp add: poll_step_def time_until_def time_now_def)
  next
    case refused
    note c = with_deadline_kept [OF d(1) refused(3)]
    from refused d c show ?thesis
      by (simp add: poll_step_def time_until_def select_timer_def time_now_def tick_def PollDeviceAuthOnce_done
          poll_failed_done assms(2))
  qed (use d e in \<open>simp_all add: poll_step_def time_until_def select_timer_def time_now_def tick_def\<close>)
qed

context auth_storage_contract
begin

text \<open>Reached without setting the clock or turning the ticks back.\<close>

definition forward :: "world \<Rightarrow> world \<Rightarrow> bool" where
  "forward w w' \<longleftrightarrow> inv w' \<and> w_clock w' = w_clock w \<and> w_tick w \<le> w_tick w'"

lemma forward_trans: "forward w1 w2 \<Longrightarrow> forward w2 w3 \<Longrightarrow> forward w1 w3"
  by (auto simp: forward_def)

lemma forward_outside: "outside_step w w' \<Longrightarrow> inv w \<Longrightarrow> forward w w'"
  using outside_keep [of w w'] by (auto simp: forward_def outside_step_def)

lemma forward_transact:
  "as_transact S ctx (Some f) cap w = (rt, w') \<Longrightarrow> callback_pure f \<Longrightarrow> inv w \<Longrightarrow> forward w w'"
  using transact_local [of ctx f cap w rt w'] by (auto simp: forward_def local_step_def)

lemma initiate_forward:
  assumes "initiate a ctx n w = (r, w')" "c_storage (au_core a) = S" "inv w"
  shows "forward w w'"
proof -
  obtain oe cap w1 where t: "as_transact S ctx (Some reserve_callback) no_captures w = ((oe, cap), w1)"
    by (metis prod.exhaust_sel)
  obtain y w2 where y: "postForm a ctx ''/device/code'' (device_form (connection_label a n w1) n) w1 = (y, w2)" by fastforce
  have f1: "forward w w1" by (rule forward_transact [OF t callbacks_pure(3) assms(3)])
  have f2: "forward w w2"
    using f1 forward_outside [OF postForm_outside [OF y]] forward_trans unfolding forward_def by blast
  have f3: "forward w w3" if "decodeDeviceAuth b w2 = (z, w3)" for b z w3
    using f2 forward_outside [OF decodeDeviceAuth_outside [OF that]] forward_trans unfolding forward_def by blast
  have f4: "forward v v'" if "store_pending a ctx cap da v = (q, v')" "inv v" for da q v v'
    using that forward_transact [OF _ callbacks_pure(4)] assms(2)
    by (auto simp: store_pending_def split: prod.splits option.splits)
  consider "w' = w1" | "w' = w2" | b z where "decodeDeviceAuth b w2 = (z, w')"
    | b z w3 da where "decodeDeviceAuth b w2 = (z, w3)" "store_pending a ctx cap da w3 = (r, w')"
    using assms(1,2) t y by (auto simp: initiate_def split: option.splits sum.splits if_splits prod.splits)
  then show ?thesis
  proof cases
    case 4
    then show ?thesis using f3 f4 forward_trans unfolding forward_def by blast
  qed (use f1 f2 f3 in auto)
qed

lemma Initiate_forward:
  assumes "InitiateDeviceAuth a ctx names w = (r, w')" "c_storage (au_core a) = S" "inv w"
  shows "forward w w'"
proof -
  obtain e w1 where e: "requireContext ctx w = (e, w1)" by fastforce
  have f: "forward w w1" by (rule forward_outside [OF requireContext_outside [OF e] assms(3)])
  moreover have "w' = w1 \<or> (\<exists>n. initiate a ctx n w1 = (r, w'))"
    using assms(1) e by (auto simp: InitiateDeviceAuth_def split: option.splits list.splits if_splits)
  ultimately show ?thesis using initiate_forward [OF _ assms(2)] forward_trans unfolding forward_def by blast
qed

lemma poll_loop_done:
  assumes "c_storage (au_core a) = S" "inv w" "storable (abs w)" "\<forall>n \<ge> N. ctx_done x (w_clock w n)" "plain_cause x"
  shows "\<exists>y. poll_loop a x dc ex i w = Some y \<and> forward w (snd y)"
  using assms(2-4)
proof (induction "N - w_tick w" arbitrary: i w rule: less_induct)
  case less
  obtain out u where st: "poll_step a x dc ex i w = (out, u)" by fastforce
  from poll_step_spec [OF st assms(1) less.prems(1,2)] obtain r where
    u: "inv u" "poll_spec dc (abs w) r (abs u)" "w_tick w < w_tick u" "w_clock u = w_clock w" by blast
  then have f: "forward w u" by (simp add: forward_def)
  show ?case
  proof (cases out)
    case (Inl r')
    with st f show ?thesis by (subst poll_loop.simps) simp
  next
    case (Inr i')
    have "w_tick w < N"
    proof (rule ccontr)
      assume "\<not> w_tick w < N"
      with less.prems(3) poll_step_done [of w x a dc ex i] assms(5) st Inr show False by auto
    qed
    with u(3) have "N - w_tick u < N - w_tick w" by linarith
    from less.hyps [OF this u(1) storable_poll [OF u(2) less.prems(2)]] less.prems(3) u(4)
    obtain y where "poll_loop a x dc ex i' u = Some y" "forward u (snd y)" by fastforce
    with st Inr forward_trans [OF f] show ?thesis by (subst poll_loop.simps) simp
  qed
qed

lemma PollDeviceAuth_done:
  assumes "c_storage (au_core a) = S" "inv w" "storable (abs w)" "\<forall>n \<ge> N. ctx_done x (w_clock w n)" "plain_cause x"
  shows "\<exists>y. PollDeviceAuth a (Some x) (Some d) w = Some y \<and> forward w (snd y)"
proof -
  obtain e w1 where e: "requireContext (Some x) w = (e, w1)" by fastforce
  note o = requireContext_outside [OF e]
  have f: "forward w w1" by (rule forward_outside [OF o assms(2)])
  have k: "inv w1" "storable (abs w1)" "w_clock w1 = w_clock w"
    using outside_keep [OF o] o assms(2,3) by (simp_all add: outside_step_def)
  have "\<exists>y. poll_loop a x (da_device_code d) ex i w1 = Some y \<and> forward w1 (snd y)" for ex i
    using poll_loop_done [OF assms(1) k(1,2)] assms(4,5) k(3) by simp
  with e f forward_trans [OF f] show ?thesis by (cases e) (fastforce simp: PollDeviceAuth_def)+
qed

end

text \<open>The client of the command: the provider over the credential file.\<close>

lemma example_client:
  assumes "NewClient env (example_options path) = Inr cl"
  obtains c p where "cl = client_of c" "c_storage c = FileStorage (Some path)" "c_getAccessToken c = Some (token p)"
    and "\<And>n. token_source (token p) (timed file_inv k n) {c_authBaseURL c @ ''/device/token''}"
proof -
  from NewClient_core [OF assms] obtain b where b: "new_core env (example_options path) = Inr b"
    "cl = client_of (wire_tokens (example_options path) b)" .
  let ?m = "b\<lparr>c_managesSession := True\<rparr>"
  let ?p = "\<lparr>pv_storage = Some (c_storage b), pv_auth = Some \<lparr>au_core = ?m, au_hostname = None\<rparr>\<rparr>"
  have st: "c_storage b = FileStorage (Some path)"
    using b(1) unfolding new_core_def or_config_Inr guard_Inr pass_Inr
    by (auto simp: resolve_storage_def example_options_def)
  have "auth_storage_contract (FileStorage (Some path)) file_abs file_inv"
    by (rule package_contract [OF package_storage.disk])
  then have "token_source (token ?p) (timed file_inv k n) {c_authBaseURL (au_core \<lparr>au_core = ?m, au_hostname = None\<rparr>) @ ''/device/token''}"
    for n by (rule auth_storage_contract.refreshing_source) (simp_all add: st)
  with b(2) st show ?thesis
    by (intro that [of "wire_tokens (example_options path) b" ?p])
       (simp_all add: wire_tokens_def example_options_def Let_def)
qed

lemma background_deadline:
  "ctx_done (with_deadline background d) t \<longleftrightarrow> d \<le> t" "plain_cause (with_deadline background d)"
  by (simp_all add: ctx_done_def with_deadline_def background_def plain_cause_def)

lemma use_request_returns:
  assumes "waitForTestCard x cl (sr_id created) w = Some y"
  shows "\<exists>r. use_request x cl created out w = Some r"
  using assms by (cases y; cases "fst y") (auto simp: use_request_def Let_def split: prod.split)

lemma spend_returns:
  assumes "NewClient env (example_options path) = Inr cl" "file_inv w" "\<forall>n \<ge> N. ctx_done x (w_clock w n)"
  shows "\<exists>r. spend x cl login out w = Some r"
proof -
  let ?k = "w_clock w"
  from example_client [OF assms(1), of ?k] obtain c p where c: "cl = client_of c" "c_getAccessToken c = Some (token p)"
    and ts: "\<And>n. token_source (token p) (timed file_inv ?k n) {c_authBaseURL c @ ''/device/token''}" by metis
  have cl: "cl_SpendRequests cl = Some c" "cl_PaymentMethods cl = Some c" by (simp_all add: c client_of_def)
  have t0: "timed file_inv ?k 0 w" using assms(2) by (simp add: timed_def)
  obtain l w1 where l: "ListPaymentMethods (Some c) (Some x) w = (l, w1)" by fastforce
  have t1: "timed file_inv ?k 0 w1" by (rule token_source.list_methods_keep [OF ts l c(2) t0])
  show ?thesis
  proof (cases "\<exists>m ms. l = Inr (m # ms)")
    case False
    with l cl show ?thesis by (auto simp: spend_def split: sum.split list.split)
  next
    case True
    then obtain m ms where m: "l = Inr (m # ms)" by blast
    obtain s w2 where s: "Create (Some c) (Some x) (example_params (default_method (m # ms) (pm_id m))) w1 = (s, w2)"
      by fastforce
    have "timed file_inv ?k 0 w2" by (rule token_source.Create_keep [OF ts s c(2) t1])
    then have "\<exists>y. waitForTestCard x cl i w2 = Some y" for i
      using card_wait_returns [OF cl(1) c(2) ts _ _ assms(3)] by (simp add: timed_def)
    then have "\<exists>r. use_request x cl created out w2 = Some r" for created using use_request_returns by blast
    with l cl m s show ?thesis by (cases s) (simp_all add: spend_def)
  qed
qed

lemma authenticate_returns:
  assumes "NewClient env (example_options path) = Inr cl" "file_inv w" "storable (file_abs w)"
    and "\<forall>n \<ge> N. ctx_done x (w_clock w n)" "plain_cause x"
  shows "\<exists>e out w'. authenticate x cl w = Some (e, out, w') \<and> file_inv w' \<and> w_clock w' = w_clock w"
proof -
  from example_client [OF assms(1), of "w_clock w"] obtain c where c: "cl = client_of c" "c_storage c = FileStorage (Some path)"
    by metis
  let ?a = "cl_Auth cl"
  have a: "c_storage (au_core ?a) = FileStorage (Some path)" by (simp add: c client_of_def)
  note disk = package_contract [OF package_storage.disk, of path]
  obtain d w1 where d: "InitiateDeviceAuth ?a (Some x) [] w = (d, w1)" by fastforce
  have f: "file_inv w1" "w_clock w1 = w_clock w"
    using auth_storage_contract.Initiate_forward [OF disk d a assms(2)]
    by (simp_all add: auth_storage_contract.forward_def [OF disk])
  have s: "storable (file_abs w1)"
    using auth_storage_contract.Initiate_spec [OF disk d a assms(2,3)] storable_initiate assms(3) by blast
  show ?thesis
  proof (cases d)
    case (Inl e)
    with d f show ?thesis by (simp add: authenticate_def)
  next
    case (Inr da)
    have "\<forall>n \<ge> N. ctx_done x (w_clock w1 n)" using assms(4) f(2) by simp
    from auth_storage_contract.PollDeviceAuth_done [OF disk a f(1) s this assms(5), of da] obtain y where
      "PollDeviceAuth ?a (Some x) (Some da) w1 = Some y" "file_inv (snd y)" "w_clock (snd y) = w_clock w1"
      by (auto simp: auth_storage_contract.forward_def [OF disk])
    with d Inr f show ?thesis by (cases y; cases "fst y") (auto simp: authenticate_def Let_def)
  qed
qed

text \<open>A run of \<open>spend\<close> ends well only through a finished \<open>use_request\<close>.\<close>

definition cancelled_after_card :: "environment \<Rightarrow> run \<Rightarrow> bool" where
  "cancelled_after_card env r \<longleftrightarrow> (\<exists>path out cl created retrieved w1.
    NewClient env (example_options path) = Inr cl \<and> rn_printed r = out @ created_output created @
      [Shown ''retrieved test-mode spend request'' retrieved] @ fst (cleanup cl created w1) \<and>
    rn_world r = snd (cleanup cl created w1) \<and>
    sr_status retrieved = ''approved'' \<and> complete_card retrieved \<and> complete retrieved \<and> spend_request_typed retrieved)"

lemma spend_finished:
  assumes "spend x cl login out w = Some r" "rn_outcome r = Finished" "NewClient env (example_options path) = Inr cl"
  shows "cancelled_after_card env r"
proof -
  obtain created w1 where "use_request x cl created out w1 = Some r"
    using assms by (auto simp: spend_def fatalf_def split: sum.splits list.splits prod.splits if_splits)
  from finished_run [OF this assms(2)] assms(3) show ?thesis unfolding cancelled_after_card_def by blast
qed

text \<open>C36: on a credential file the package can hold, the example command always ends, with or without
  the login: once the clock has passed its ten minutes for good, whatever the server answers, however
  often it reports the request as pending, and whatever storage calls fail. When it ends by
  returning, the last thing it showed before asking to cancel the request it had created is an
  approved, complete and well-typed request with a card number and a security code.\<close>

theorem example_returns:
  assumes "file_inv w" "storable (file_abs w)"
    and "\<forall>n \<ge> N. w_clock w (w_tick w) + seconds 600 \<le> w_clock w n"
  shows "\<exists>r. main env auth_flag auth_variable login w = Some r \<and>
    (rn_outcome r = Finished \<longrightarrow> cancelled_after_card env r)"
proof -
  let ?x = "with_deadline background (w_clock w (w_tick w) + seconds 600)"
  have fatal: "rn_outcome (fatalf t e out v) \<noteq> Finished" for t e out v by (simp add: fatalf_def)
  have sp: "\<exists>r. spend ?x cl login out v = Some r \<and> (rn_outcome r = Finished \<longrightarrow> cancelled_after_card env r)"
    if "NewClient env (example_options path) = Inr cl" "file_inv v" "w_clock v = w_clock w" for cl path out v
    using spend_returns [OF that(1,2), of N ?x login out] assms(3) that(3) spend_finished [OF _ _ that(1), of ?x login out v]
    by (simp add: background_deadline) blast
  have t: "file_inv (tick w)" "storable (file_abs (tick w))" "w_clock (tick w) = w_clock w"
    using package_contract [OF package_storage.disk, THEN auth_storage_contract.outside_keep, of w "tick w"] assms(1,2)
    by (auto simp: outside_step_def tick_def)
  have au: "\<exists>e out v. authenticate ?x cl (tick w) = Some (e, out, v) \<and> file_inv v \<and> w_clock v = w_clock w"
    if "NewClient env (example_options path) = Inr cl" for cl path
    using authenticate_returns [OF that t(1,2), of N ?x] assms(3) t(3) by (simp add: background_deadline)
  show ?thesis
    using fatal sp au t by (fastforce simp: main_def time_now_def Let_def split: sum.split option.split)
qed

text \<open>A machine without the file, a clock that jumps ten minutes.\<close>

definition waiting_world :: world where
  "waiting_world = early_world\<lparr>w_clock := (\<lambda>n. if n < 50 then 0 else seconds 600)\<rparr>"

theorem example_returns_witness:
  "\<exists>r. main sample_environment (Some ''/home/u/auth.json'') [] True waiting_world = Some r \<and>
     (rn_outcome r = Finished \<longrightarrow> cancelled_after_card sample_environment r)"
proof (rule example_returns [of _ 50])
  show "file_inv waiting_world"
    using early_world_ok
    by (auto simp: file_inv_def waiting_world_def clock_ok_def honest_def quiet_def seconds_def max_int64_def)
  show "storable (file_abs waiting_world)"
    by (simp add: file_abs_def waiting_world_def early_world_def sample_world_def storable_def fs_data_def data_state_def no_files_def
        empty_state_def state_ready_def state_text_ok_def)
  show "\<forall>n \<ge> 50. w_clock waiting_world (w_tick waiting_world) + seconds 600 \<le> w_clock waiting_world n"
    by (simp add: waiting_world_def early_world_def sample_world_def)
qed

end
