(* ===== verification/Spec2Isabelle.thy ===== *)
theory Spec2Isabelle
  imports StorageTheorems SanitizerTheorems TransportTheorems AuthTheorems TokenTheorems ClientTheorems WebBotTheorems LogSecrecy ErrorTextTheorems
    OtherPlatforms ExampleTheorems
begin

text \<open>
  A verification development for stripelink, a Go client for the Link payment service: device login,
  spend requests, saved payment methods and addresses, profile, reports and web-bot signatures.

  THE PROGRAM. \<open>NewClient\<close> (client.go) resolves a configuration into one \<open>core\<close> (transport.go) that all
  resources share. A resource (spend_requests.go, payment_methods.go, shipping_addresses.go,
  user_info.go, reports.go, web_bot_auth.go) checks its arguments, builds an \<open>apiRequest\<close> and hands it to
  \<open>core.do\<close> or \<open>doJSON\<close>, which ask the token source for a bearer token, send the request through the
  caller's HTTP client, bound and decode the reply, and turn failures into \<open>APIError\<close> or \<open>TransportError\<close>
  (errors.go). The token source \<open>NewClient\<close> installs by default is the provider of tokens.go: it reads the
  session from an \<open>AuthStorage\<close> (storage.go, memory_storage.go, storage_codec.go, storage_lock_unix.go),
  refreshes it through the OAuth operations of auth_tokens.go when it nears its expiry or was rejected, and
  writes the rotated credential back in a transaction. The device flow of auth.go obtains a session in
  the first place: it stores a pending flow, polls the token endpoint, and commits the tokens, each in a
  transaction that refuses to act on a session another flow has overtaken.

  HOW IT IS MODELLED. A struct is a record with the source's fields, an error a value of \<open>go_error\<close>
  (sentinels, wrapped and joined errors, API and transport errors), a pair of a value and an error a sum
  whose left side is the error, a nil pointer \<open>None\<close>, a 64-bit integer that can wrap an \<open>int\<close> with the
  wrap written out (\<open>wrap64\<close>) or a \<open>64 word\<close>, a string the list of its bytes. Code is explicit state
  passing over a \<open>world\<close> (theory World): the clock, the memory store, the credential file with its
  temporary and lock files, the failures of system calls, the replies of the network, what was sent and
  logged. Everything outside the program is a function the world carries, read at the current tick: a
  theorem about all worlds is about every clock, every server and every pattern of failures. A callback
  passed to \<open>Transact\<close> is a top-level definition over the variables it captures. Code that several
  goroutines run at once (tokens.go, web_bot_auth.go) is cut at its critical sections into functions on a
  shared state, and an inductive step relation interleaves any number of callers and workers.

  THE THEORIES, bottom up.
  Prelude, GoErrors, GoText, GoTime, GoUrl: bytes, integers and decimals; error trees with \<open>errors.Is\<close>
  and \<open>errors.AsType\<close>; UTF-8 and \<open>strings\<close>; \<open>time.Parse\<close> for RFC 3339; \<open>net/url\<close> and \<open>net.ParseIP\<close>.
  GoJson, GoJsonText, GoJsonPrint, GoJsonTree, GoJsonRound, GoJsonWf, GoJsonDecode, GoJsonUtf8,
  GoJsonHtml: the part of \<open>encoding/json\<close> the program relies on, a scanner as an automaton with the
  library's nesting bound, a printer with HTML escaping, decoding into structs, and their round trips.
  These theories model the standard library as the source uses it.
  AuthTypes, World, StorageCodec, AuthStorage: the session records, the environment, the credential file
  format with unknown members kept, and the \<open>AuthStorage\<close> interface as the locale
  \<open>auth_storage_contract\<close> (Load returns the abstract session; a transaction commits completely or not at
  all, and one that reports success has committed; Clear removes the session or keeps it).
  FileStorage, FileStorageSpec, MemoryStorage: the two stores as sequences of system calls and context
  checks, and the interpretations \<open>disk\<close> and \<open>mem\<close> of the contract on them.
  SampleWorlds, StorageTheorems: concrete worlds and the properties of the storage layer.
  Sanitizer, SanitizerTheorems: redaction of credentials in diagnostics: the five regular expressions
  with Go's leftmost-first matching, the Luhn test, the length bounds.
  Transport, TransportTheorems, LogSecrecy: \<open>core.do\<close> with bearer injection, the single replay, bounded
  bodies, redirect refusal and logging; how often and where a request reaches the wire; that logging
  changes nothing and reveals no secret.
  AuthFlow, AuthFlowSpec, AuthTheorems: OAuth operations and device flow; each is shown to be one atomic
  transition of an abstract specification (\<open>poll_spec\<close>, \<open>initiate_spec\<close>) of the session, proved once in the
  storage contract and instantiated for both stores.
  TokenProvider, TokenSpec, TokenSamples, TokenTheorems: the refreshing token source, sequentially
  (\<open>token\<close>) and as an interleaving; its invariants by rule induction; the chain of rotated credentials.
  Types, TypesSpec, SpendRequests, SpendTheorems: the wire types with their decoding and encoding, the
  spend-request resource, the validation of everything it returns.
  Resources: payment methods, addresses, profile, reports.
  Client, ClientSpec, ClientTheorems: \<open>NewClient\<close> and what every client it returns satisfies, through all
  layers below.
  WebBotAuth, WebBotSpec, WebBotValues, WebBotTheorems: merchant identities, signature blocks, the cache
  and its shared in-flight calls; invariants of every interleaving.
  ErrorText, ErrorTextTheorems: what errors and credential-bearing values print.
  OtherPlatforms: the variants of the lock file, the opening of the credential file and the directory
  sync where \<open>flock\<close> does not exist, and how far they agree with the ones \<open>FileStorage\<close> is verified with.
  ExampleProgram, ExampleTheorems: the command of examples/, from its flags to its deferred cancellation,
  on top of everything above; that it always ends.

  WHAT THE PROPERTIES SHOW (numbered C1 to C40 in the theories, most important first).
  On the wire: a call sends at most one request, two only for a replayable GET; mutations through a
  constructed client are sent at most once; the Authorization header is the token source's; base URLs are
  secure; an id stays in its path segment; a creation's body says what was asked; replies are bounded.
  The session: a transaction works on exactly what the file holds when the lock is granted
  (\<open>transact_lock\<close>), so no update is lost; replacement of the file is all or nothing under every failure,
  that of removing the temporary copy included; the file format round-trips; cancellation is respected; a
  login, poll, resumption or logout is one transition of its specification; resuming polls exactly the
  live flow it finds; polling ends once the code has expired.
  Concurrency: one refresh at a time; a refresh starts from what the one before it obtained, and only a
  failed persist can make a consumed credential come back; one signing request per merchant; shared work
  is cancelled only when nobody waits; every caller can return in a bounded number of steps of its own, of
  the shared work and of the caller that holds the gate.
  Values: returned spend requests are complete and well typed, returned signature blocks belong to the
  merchant asked for, expiries are exact.
  Secrets: logs are independent of tokens, bodies and header values; error texts are independent of the
  cause, of URL secrets and of all of a body but the sanitised message taken from it, and they contain no
  control character.
  Three properties record what the code does against its intention (a session file too large to be read
  again, a generation reset by Clear, a login that supersedes itself), as do the theorems on an
  Authorization header that survives redaction, on card numbers that are not recognised and on polling
  intervals that wrap.

  BOUNDS AND TERMINATION. Every function is total except \<open>poll_loop\<close> and \<open>waitForTestCard\<close>, each a
  \<open>partial_function\<close> into \<open>option\<close>: that they return is a theorem (\<open>poll_terminates\<close>, \<open>example_returns\<close>), not
  an assumption. Recursions that are not structural
  have termination proofs by measures (the rest of the input, the attempts left). The number of times the
  lock file is found busy is a number the world gives for each acquisition, finite but arbitrary. The JSON
  scanner has the library's own bound of 10000 open brackets. No fuel is used.

  HYPOTHESES. \<open>package_storage\<close> says that a store is one of the two the package provides. \<open>honest\<close> says that
  a failing system call does not report a missing file that exists; \<open>clock_ok\<close> that the clock stays in the
  range of an int64 of nanoseconds since the epoch; \<open>storable\<close> that the initial session is one the stores
  can hold as it is, which excludes credentials without an absolute expiry. \<open>token_source\<close>, the second interface, is a locale over an access-token function: in a class of
  worlds that requests do not leave, it stays in the class and uses no URL but the given ones; the
  sources \<open>NewClient\<close> installs are shown to satisfy it, a caller's own function is assumed to. \<open>keeps_clock\<close> says that a token source does not set the clock.

  NOT MODELLED. doc.go is documentation. \<open>FileStorage\<close> is verified with the unix lock, which a build for other
  platforms replaces. The other processes that use a credential file take its lock too: what they do to the
  files is a function of the world applied when the lock is granted, after the inspections that precede it;
  processes that ignore the lock are not modelled. The network below
  \<open>http.Client\<close> (proxies, TLS, connection reuse) is the reply function of the world; a cancellation that
  arrives while a request is under way shows as the transport error that function returns. The texts of
  errors made by the standard library are fixed strings, and where the source quotes a name with \<open>%q\<close> in a
  configuration error the model keeps the fixed part. The Unicode tables behind \<open>strings.ToLower\<close> and
  \<open>strconv.IsPrint\<close> beyond ASCII are parameters. Custom \<open>AuthStorage\<close> implementations are covered as far as
  they meet the contract of the interface's comments.
\<close>

end
